(* ===== verification/Prelude.thy ===== *)
theory Prelude
  imports
    Main
    "HOL-Library.AList"
    "HOL-Library.List_Lexorder"
    "HOL-Library.Char_ord"
begin

section \<open>Prelude: the Python values and container operations the components share\<close>

text \<open>
  What every component of the model uses and no component owns: dictionaries with Python's
  insertion order, indexing and slicing with negative positions, decimal and hexadecimal
  numerals as \<open>str\<close>, \<open>hex\<close> and \<open>int\<close> print and read them, \<open>bytes.fromhex\<close>, and the
  exceptions that the modelled code raises.

  A Python string is the list of the bytes of its UTF-8 encoding; literals are ASCII.
  A dictionary is an association list with distinct keys; \<open>AList.update\<close> replaces a value in
  place and appends a new key at the end, which is what Python's assignment does.
\<close>

named_theorems view_simps \<open>what a lookup returns after an operation\<close>
named_theorems frame_simps \<open>what an operation leaves as it was\<close>
named_theorems supply_simps \<open>how an operation changes the sum of all balances\<close>

type_synonym 'v dict = "(string \<times> 'v) list"

text \<open>\<open>Outside_model\<close> is no exception of the code: it marks a run that the model does not follow.\<close>

datatype exn = ValueError | KeyError | TypeError | IndexError | AttributeError | ZeroDivisionError
  | RecursionError | MemoryError | Outside_model

subsection \<open>Dictionaries\<close>

abbreviation dict_get :: "'v dict \<Rightarrow> string \<Rightarrow> 'v option" where
  "dict_get d k \<equiv> map_of d k"

abbreviation dict_set :: "string \<Rightarrow> 'v \<Rightarrow> 'v dict \<Rightarrow> 'v dict" where
  "dict_set k v d \<equiv> AList.update k v d"

text \<open>\<open>d.update(e)\<close>: every pair of \<open>e\<close> in order, later ones win.\<close>

fun dict_update :: "'v dict \<Rightarrow> 'v dict \<Rightarrow> 'v dict" where
  "dict_update d [] = d"
| "dict_update d ((k, v) # e) = dict_update (dict_set k v d) e"

abbreviation dict_ok :: "'v dict \<Rightarrow> bool" where
  "dict_ok d \<equiv> distinct (map fst d)"

lemma dict_get_set [simp]:
  "dict_get (dict_set k v d) x = (if x = k then Some v else dict_get d x)"
  by (simp add: update_conv')

lemma dict_mem: "k \<in> fst ` set d \<longleftrightarrow> (\<exists>v. dict_get d k = Some v)"
  by (metis map_of_eq_None_iff not_None_eq)

lemma dict_ok_set [simp]: "dict_ok d \<Longrightarrow> dict_ok (dict_set k v d)"
  by (rule distinct_update)

lemma dict_ok_update [simp]: "dict_ok d \<Longrightarrow> dict_ok (dict_update d e)"
  by (induction d e rule: dict_update.induct) auto

lemma dict_get_update:
  "dict_ok e \<Longrightarrow> dict_get (dict_update d e) x =
     (case dict_get e x of None \<Rightarrow> dict_get d x | Some v \<Rightarrow> Some v)"
proof (induction d e rule: dict_update.induct)
  case (2 d k v e)
  then have k: "dict_get e k = None" by (simp add: map_of_eq_None_iff)
  from 2 show ?case by (auto simp: k split: option.splits)
qed simp

lemma dict_set_absent: "k \<notin> set (map fst d) \<Longrightarrow> dict_set k v d = d @ [(k, v)]"
  by (induction d) auto

lemma dict_update_nil: "dict_ok e \<Longrightarrow> set (map fst d) \<inter> set (map fst e) = {} \<Longrightarrow>
    dict_update d e = d @ e"
proof (induction d e rule: dict_update.induct)
  case (2 d k v e)
  then have "dict_set k v d = d @ [(k, v)]" by (intro dict_set_absent) auto
  with 2 show ?case by auto
qed simp

lemma dict_keys_set: "set (map fst (dict_set k v d)) = insert k (set (map fst d))"
  by (induction d) auto

subsection \<open>Lists indexed and sliced the way Python does\<close>

text \<open>\<open>xs[i]\<close>: a negative position counts from the end, \<open>None\<close> is \<open>IndexError\<close>.\<close>

definition py_index :: "'a list \<Rightarrow> int \<Rightarrow> 'a option" where
  "py_index xs i =
     (let n = int (length xs); j = (if i < 0 then n + i else i)
      in if 0 \<le> j \<and> j < n then Some (xs ! nat j) else None)"

text \<open>\<open>xs[:i]\<close>: a negative bound counts from the end and is then cut off at 0.\<close>

definition py_prefix :: "'a list \<Rightarrow> int \<Rightarrow> 'a list" where
  "py_prefix xs i =
     (let n = int (length xs); j = (if i < 0 then n + i else i) in take (nat j) xs)"

lemma py_index_nat [simp]: "i < length xs \<Longrightarrow> py_index xs (int i) = Some (xs ! i)"
  by (simp add: py_index_def)

lemma py_index_Some_nat: "py_index xs (int i) = Some x \<longleftrightarrow> i < length xs \<and> xs ! i = x"
  by (auto simp: py_index_def)

lemma py_prefix_nat [simp]: "py_prefix xs (int i) = take i xs"
  by (simp add: py_prefix_def)

lemma py_index_last: "xs \<noteq> [] \<Longrightarrow> py_index xs (- 1) = Some (last xs)"
  by (cases xs) (auto simp: py_index_def last_conv_nth nat_diff_distrib')

subsection \<open>Numerals\<close>

definition digit :: "nat \<Rightarrow> char" where
  "digit d = ''0123456789abcdef'' ! d"

function show_base :: "int \<Rightarrow> int \<Rightarrow> string" where
  "show_base b n =
     (if b < 2 \<or> n < b then [digit (nat n)] else show_base b (n div b) @ [digit (nat (n mod b))])"
  by pat_completeness auto
termination
proof (relation "measure (\<lambda>(b, n). nat n)")
  fix b n :: int
  assume "\<not> (b < 2 \<or> n < b)"
  then have "n div b < n" "0 < n" by (auto intro: int_div_less_self)
  then show "((b, n div b), b, n) \<in> measure (\<lambda>(b, n). nat n)" by simp
qed simp

declare show_base.simps [simp del]

text \<open>\<open>str(i)\<close> and \<open>hex(i)\<close>.\<close>

definition py_str_int :: "int \<Rightarrow> string" where
  "py_str_int i = (if i < 0 then ''-'' @ show_base 10 (- i) else show_base 10 i)"

definition py_hex :: "int \<Rightarrow> string" where
  "py_hex i = (if i < 0 then ''-0x'' @ show_base 16 (- i) else ''0x'' @ show_base 16 i)"

text \<open>
  \<open>int(s, base)\<close>: white space around the numeral, a sign, the prefix \<open>0x\<close> in base 16 and
  single underscores between digits are allowed; \<open>None\<close> is \<open>ValueError\<close>.
\<close>

definition digit_val :: "nat \<Rightarrow> char \<Rightarrow> nat option" where
  "digit_val b c =
     (let n = (of_char c :: nat);
          v = (if 48 \<le> n \<and> n \<le> 57 then n - 48
               else if 97 \<le> n \<and> n \<le> 122 then n - 87
               else if 65 \<le> n \<and> n \<le> 90 then n - 55 else b)
      in if v < b then Some v else None)"

definition is_space :: "char \<Rightarrow> bool" where
  "is_space c = (let n = (of_char c :: nat) in (9 \<le> n \<and> n \<le> 13) \<or> (28 \<le> n \<and> n \<le> 32))"

definition strip :: "string \<Rightarrow> string" where
  "strip s = rev (dropWhile is_space (rev (dropWhile is_space s)))"

fun read_digits :: "nat \<Rightarrow> bool \<Rightarrow> int \<Rightarrow> string \<Rightarrow> int option" where
  "read_digits b ok acc [] = (if ok then Some acc else None)"
| "read_digits b ok acc (c # cs) =
     (if c = CHR ''_'' then (if ok then read_digits b False acc cs else None)
      else case digit_val b c of
             None \<Rightarrow> None
           | Some d \<Rightarrow> read_digits b True (acc * int b + int d) cs)"

definition drop_prefix16 :: "nat \<Rightarrow> string \<Rightarrow> string" where
  "drop_prefix16 b s =
     (if b = 16 \<and> (take 2 s = ''0x'' \<or> take 2 s = ''0X'')
      then (if take 1 (drop 2 s) = ''_'' then drop 3 s else drop 2 s) else s)"

definition read_unsigned :: "nat \<Rightarrow> string \<Rightarrow> int option" where
  "read_unsigned b s = read_digits b False 0 (drop_prefix16 b s)"

definition py_int_of_str :: "nat \<Rightarrow> string \<Rightarrow> int option" where
  "py_int_of_str b s =
     (case strip s of
        [] \<Rightarrow> None
      | c # cs \<Rightarrow>
          if c = CHR ''-'' then map_option uminus (read_unsigned b cs)
          else if c = CHR ''+'' then read_unsigned b cs
          else read_unsigned b (c # cs))"

text \<open>\<open>bytes.fromhex(s)\<close>: pairs of hex digits, white space between pairs is skipped.\<close>

fun fromhex :: "string \<Rightarrow> string option" where
  "fromhex [] = Some []"
| "fromhex (c # cs) =
     (if is_space c \<and> of_char c \<noteq> (28::nat) \<and> of_char c \<noteq> (29::nat)
         \<and> of_char c \<noteq> (30::nat) \<and> of_char c \<noteq> (31::nat) then fromhex cs
      else case cs of
             [] \<Rightarrow> None
           | c2 # cs2 \<Rightarrow>
               (case (digit_val 16 c, digit_val 16 c2, fromhex cs2) of
                  (Some h, Some l, Some bs) \<Rightarrow> Some (char_of (16 * h + l) # bs)
                | _ \<Rightarrow> None))"

subsection \<open>Reading back what was printed\<close>

lemma less_16_cases:
  "(d::nat) < 16 \<Longrightarrow> d \<in> {0,1,2,3,4,5,6,7,8,9,10,11,12,13,14,15}"
  unfolding insert_iff empty_iff by arith

lemma digit_val_digit: "d < b \<Longrightarrow> b \<le> 16 \<Longrightarrow> digit_val b (digit d) = Some d"
  using less_16_cases [of d] by (auto simp: digit_val_def digit_def)

lemma digit_not_special:
  assumes "d < 16"
  shows "digit d \<noteq> CHR ''_'' \<and> digit d \<noteq> CHR ''-'' \<and> digit d \<noteq> CHR ''+''
    \<and> digit d \<noteq> CHR ''x'' \<and> digit d \<noteq> CHR ''X'' \<and> \<not> is_space (digit d)"
  using less_16_cases [OF assms] by (auto simp: digit_def is_space_def)

lemma set_show_base:
  "2 \<le> b \<Longrightarrow> 0 \<le> n \<Longrightarrow> set (show_base (int b) n) \<subseteq> digit ` {d. d < b}"
proof (induction "int b" n rule: show_base.induct)
  case (1 n)
  show ?case
  proof (cases "n < int b")
    case True
    then show ?thesis using 1 by (simp add: show_base.simps [of "int b" n])
  next
    case False
    have "nat (n mod int b) < b" using 1 by (simp add: nat_less_iff)
    then have "digit (nat (n mod int b)) \<in> digit ` {d. d < b}" by (intro imageI CollectI)
    with False 1 show ?thesis by (simp add: show_base.simps [of "int b" n] pos_imp_zdiv_nonneg_iff)
  qed
qed

lemma show_base_not_nil [simp]: "show_base b n \<noteq> []"
  by (subst show_base.simps) simp

lemma read_digits_show:
  assumes "2 \<le> b" "b \<le> 16" "0 \<le> n"
  shows "read_digits b ok acc (show_base (int b) n @ cs) =
         read_digits b True (acc * int b ^ length (show_base (int b) n) + n) cs"
  using assms
proof (induction "int b" n arbitrary: cs rule: show_base.induct)
  case (1 n)
  show ?case
  proof (cases "n < int b")
    case True
    then have "nat n < b" using 1 by linarith
    with True 1 digit_not_special [of "nat n"] show ?thesis
      by (simp add: show_base.simps [of "int b" n] digit_val_digit)
  next
    case False
    have m: "nat (n mod int b) < b" using 1 by (simp add: nat_less_iff)
    then have m16: "nat (n mod int b) < 16" using 1 by linarith
    have nn: "0 \<le> n mod int b" "0 \<le> n div int b" using 1 by (auto simp: pos_imp_zdiv_nonneg_iff)
    have "read_digits b ok acc (show_base (int b) n @ cs)
        = read_digits b True (acc * int b ^ length (show_base (int b) (n div int b)) + n div int b)
            (digit (nat (n mod int b)) # cs)"
      using False 1 nn by (simp add: show_base.simps [of "int b" n])
    also have "\<dots> = read_digits b True
        ((acc * int b ^ length (show_base (int b) (n div int b)) + n div int b) * int b + n mod int b) cs"
      using m nn 1 digit_not_special [OF m16] by (simp add: digit_val_digit)
    also have "(acc * int b ^ length (show_base (int b) (n div int b)) + n div int b) * int b + n mod int b
        = acc * int b ^ length (show_base (int b) n) + n"
      using False 1 by (simp add: show_base.simps [of "int b" n] algebra_simps)
    finally show ?thesis .
  qed
qed

lemma read_show:
  "2 \<le> b \<Longrightarrow> b \<le> 16 \<Longrightarrow> 0 \<le> n \<Longrightarrow> read_digits b False 0 (show_base (int b) n) = Some n"
  using read_digits_show [of b n False 0 "[]"] by simp

lemma strip_id:
  assumes "s \<noteq> []" "\<not> is_space (hd s)" "\<not> is_space (last s)"
  shows "strip s = s"
proof -
  have "dropWhile is_space s = s" using assms by (cases s) auto
  moreover have "dropWhile is_space (rev s) = rev s"
    using assms by (cases s rule: rev_cases) auto
  ultimately show ?thesis by (simp add: strip_def)
qed

lemma show_base_digits:
  "b = 10 \<or> b = 16 \<Longrightarrow> 0 \<le> n \<Longrightarrow> c \<in> set (show_base b n) \<Longrightarrow> \<exists>d < 16. c = digit d"
  using set_show_base [of "nat b" n] by (force dest!: subsetD)

lemma py_int_of_hex: "0 \<le> i \<Longrightarrow> py_int_of_str 16 (py_hex i) = Some i"
proof -
  assume i: "0 \<le> i"
  let ?s = "show_base 16 i"
  have "last ?s \<in> set ?s" by simp
  then obtain d where d: "d < 16" "last ?s = digit d"
    using show_base_digits [of 16] i by blast
  have s: "strip (py_hex i) = py_hex i"
    using i d digit_not_special [of d]
    by (intro strip_id) (auto simp: py_hex_def is_space_def)
  have hd: "take 1 ?s \<noteq> ''_''"
  proof
    assume "take 1 ?s = ''_''"
    then have "CHR ''_'' \<in> set ?s" by (cases ?s) auto
    then show False using show_base_digits [of 16] i digit_not_special by metis
  qed
  have "drop_prefix16 16 (''0x'' @ ?s) = ?s"
    using hd by (simp add: drop_prefix16_def)
  then show ?thesis using i s read_show [of 16 i]
    by (simp add: py_int_of_str_def py_hex_def read_unsigned_def)
qed

lemma py_int_of_show: "0 \<le> i \<Longrightarrow> py_int_of_str 10 (py_str_int i) = Some i"
proof -
  assume i: "0 \<le> i"
  let ?s = "show_base 10 i"
  obtain c cs where s: "?s = c # cs" by (cases ?s) auto
  have "c \<in> set ?s" "last ?s \<in> set ?s" using s by auto
  then obtain d e where d: "d < 16" "c = digit d" and e: "e < 16" "last ?s = digit e"
    using show_base_digits [of 10] i by blast
  have "strip ?s = ?s"
    using s d e digit_not_special [of d] digit_not_special [of e]
    by (intro strip_id) auto
  then show ?thesis using i s d digit_not_special [of d] read_show [of 10 i]
    by (simp add: py_int_of_str_def py_str_int_def read_unsigned_def drop_prefix16_def)
qed

end
