(* ===== verification/Params.thy ===== *)
theory Params
  imports Prelude
begin

section \<open>Consensus and node parameters, and the code outside the repository\<close>

text \<open>
  The constants of \<open>minichain/network_config.py\<close> and \<open>minichain/node_config.py\<close> and the
  statuses of \<open>minichain/validators.py\<close>, and the third-party code that the model takes as
  parameters, gathered in the record \<open>crypto\<close>: the hash functions, the Ed25519 signatures of
  \<open>nacl\<close> and the Merkle Patricia trie of \<open>trie\<close>. Nothing is assumed of any of them here: a
  theorem that relies on a law of one of them names the law as a hypothesis.
\<close>

subsection \<open>network\_config.py\<close>

definition DEFAULT_MINING_REWARD :: int where "DEFAULT_MINING_REWARD = 50"
definition MAX_FUTURE_BLOCK_TIME_MS :: int where "MAX_FUTURE_BLOCK_TIME_MS = 15000"
definition GAS_PER_BYTE :: int where "GAS_PER_BYTE = 10"
definition MAX_CALL_DEPTH :: nat where "MAX_CALL_DEPTH = 10"
definition MAX_TARGET :: int where "MAX_TARGET = 2 ^ 256 - 1"
definition MIN_TARGET :: int where "MIN_TARGET = 1"

subsection \<open>node\_config.py\<close>

definition MALFORMED_THRESHOLD :: nat where "MALFORMED_THRESHOLD = 15"
definition FAILED_THRESHOLD :: nat where "FAILED_THRESHOLD = 15"
definition INVALID_THRESHOLD :: nat where "INVALID_THRESHOLD = 1"
definition SEEN_CACHE_MAX :: nat where "SEEN_CACHE_MAX = 10000"
definition MEMPOOL_MAX_SIZE :: nat where "MEMPOOL_MAX_SIZE = 1000"
definition MEMPOOL_TX_PER_BLOCK :: nat where "MEMPOOL_TX_PER_BLOCK = 100"
definition MINING_MAX_NONCE :: nat where "MINING_MAX_NONCE = 10000000"
definition MAX_STATE_SNAPSHOTS :: nat where "MAX_STATE_SNAPSHOTS = 10"

subsection \<open>validators.py\<close>

datatype validation_status = VALID | INVALID | FAILED | MALFORMED

definition is_hex_digit :: "char \<Rightarrow> bool" where
  "is_hex_digit c = (digit_val 16 c \<noteq> None)"

definition is_valid_receiver :: "string \<Rightarrow> bool" where
  "is_valid_receiver r = ((length r = 40 \<or> length r = 64) \<and> list_all is_hex_digit r)"

subsection \<open>Third-party code\<close>

text \<open>
  \<open>sha256_hex\<close> is \<open>hashlib.sha256(b).hexdigest()\<close>; \<open>nacl_sha256\<close> is
  \<open>nacl.hash.sha256(b, HexEncoder)\<close>; \<open>ed25519_verify vk m s\<close> says that
  \<open>VerifyKey(vk, HexEncoder).verify(m, s)\<close> returns (and does not raise one of the exceptions
  that \<open>Transaction.verify\<close> catches); \<open>ed25519_sign sk m\<close> and \<open>ed25519_public sk\<close> are the
  signature and the hex form of the verify key of a \<open>SigningKey\<close>; \<open>trie_root ps\<close> is the hex
  root hash of a fresh \<open>HexaryTrie\<close> after \<open>set(k, v)\<close> for each pair of \<open>ps\<close> in order.
\<close>

record crypto =
  sha256_hex :: "string \<Rightarrow> string"
  nacl_sha256 :: "string \<Rightarrow> string"
  ed25519_verify :: "string \<Rightarrow> string \<Rightarrow> string \<Rightarrow> bool"
  ed25519_sign :: "string \<Rightarrow> string \<Rightarrow> string"
  ed25519_public :: "string \<Rightarrow> string"
  trie_root :: "(string \<times> string) list \<Rightarrow> string"

end
