(* ===== verification/Json.thy ===== *)
theory Json
  imports Params
begin

section \<open>JSON values and their serialization (serialization.py)\<close>

text \<open>
  The values that \<open>json.dumps\<close> is given, its two uses in the code and the canonical form of
  \<open>minichain/serialization.py\<close>, which every hash and signature is computed over:
  sorted keys, no white space, UTF-8. \<open>JOpaque\<close> stands for a Python object that
  \<open>json.dumps\<close> refuses with \<open>TypeError\<close>. Floating point values do not occur in the model.
\<close>

datatype json =
    JNull
  | JBool bool
  | JInt int
  | JStr string
  | JArr "json list"
  | JObj "(string \<times> json) list"
  | JOpaque

text \<open>The truth value of a JSON value, as \<open>if\<close>, \<open>not\<close> and \<open>or\<close> read it.\<close>

fun json_truthy :: "json \<Rightarrow> bool" where
  "json_truthy JNull = False"
| "json_truthy (JBool b) = b"
| "json_truthy (JInt i) = (i \<noteq> 0)"
| "json_truthy (JStr s) = (s \<noteq> [])"
| "json_truthy (JArr xs) = (xs \<noteq> [])"
| "json_truthy (JObj kvs) = (kvs \<noteq> [])"
| "json_truthy JOpaque = True"

subsection \<open>Strings\<close>

text \<open>The escapes of \<open>json.encoder\<close>; with \<open>ensure_ascii\<close> every character outside the
  printable ASCII range is written as one or two \<open>\u\<close> escapes.\<close>

definition hex4 :: "nat \<Rightarrow> string" where
  "hex4 n = map digit [n div 4096 mod 16, n div 256 mod 16, n div 16 mod 16, n mod 16]"

definition u_escape :: "nat \<Rightarrow> string" where
  "u_escape n =
     (if n < 65536 then [CHR 0x5C, CHR ''u''] @ hex4 n
      else [CHR 0x5C, CHR ''u''] @ hex4 (55296 + (n - 65536) div 1024)
         @ [CHR 0x5C, CHR ''u''] @ hex4 (56320 + (n - 65536) mod 1024))"

definition esc_control :: "nat \<Rightarrow> string" where
  "esc_control n =
     (if n = 34 then [CHR 0x5C, CHR 0x22]
      else if n = 92 then [CHR 0x5C, CHR 0x5C]
      else if n = 8 then [CHR 0x5C, CHR ''b'']
      else if n = 12 then [CHR 0x5C, CHR ''f'']
      else if n = 10 then [CHR 0x5C, CHR ''n'']
      else if n = 13 then [CHR 0x5C, CHR ''r'']
      else if n = 9 then [CHR 0x5C, CHR ''t'']
      else u_escape n)"

definition esc_utf8 :: "char \<Rightarrow> string" where
  "esc_utf8 c = (let n = (of_char c :: nat) in
     if n < 32 \<or> n = 34 \<or> n = 92 then esc_control n else [c])"

text \<open>The code points of a UTF-8 string.\<close>

definition cont_bits :: "string \<Rightarrow> nat \<Rightarrow> nat" where
  "cont_bits cs i = (if i < length cs then of_char (cs ! i) mod 64 else 0)"

fun utf8_decode :: "string \<Rightarrow> nat list" where
  "utf8_decode [] = []"
| "utf8_decode (c # cs) = (let n = (of_char c :: nat) in
     if n < 192 then n # utf8_decode cs
     else if n < 224 then ((n - 192) * 64 + cont_bits cs 0) # utf8_decode (drop 1 cs)
     else if n < 240 then
       ((n - 224) * 4096 + cont_bits cs 0 * 64 + cont_bits cs 1) # utf8_decode (drop 2 cs)
     else ((n - 240) * 262144 + cont_bits cs 0 * 4096 + cont_bits cs 1 * 64 + cont_bits cs 2)
       # utf8_decode (drop 3 cs))"

definition esc_ascii :: "nat \<Rightarrow> string" where
  "esc_ascii n = (if 32 \<le> n \<and> n < 127 \<and> n \<noteq> 34 \<and> n \<noteq> 92 then [char_of n] else esc_control n)"

definition quote_str :: "bool \<Rightarrow> string \<Rightarrow> string" where
  "quote_str ascii s =
     [CHR 0x22] @ (if ascii then concat (map esc_ascii (utf8_decode s)) else concat (map esc_utf8 s))
       @ [CHR 0x22]"

subsection \<open>json.dumps\<close>

record json_style =
  ensure_ascii :: bool
  item_sep :: string
  key_sep :: string
  sort_keys :: bool

fun join :: "string \<Rightarrow> string list \<Rightarrow> string" where
  "join sep [] = []"
| "join sep [x] = x"
| "join sep (x # y # xs) = x @ sep @ join sep (y # xs)"

fun dumps_with :: "json_style \<Rightarrow> json \<Rightarrow> string" where
  "dumps_with st JNull = ''null''"
| "dumps_with st (JBool b) = (if b then ''true'' else ''false'')"
| "dumps_with st (JInt i) = py_str_int i"
| "dumps_with st (JStr s) = quote_str (ensure_ascii st) s"
| "dumps_with st (JArr xs) = ''['' @ join (item_sep st) (map (dumps_with st) xs) @ '']''"
| "dumps_with st (JObj kvs) =
     (let ps = map (\<lambda>(k, v). (k, dumps_with st v)) kvs;
          qs = (if sort_keys st then sort_key fst ps else ps)
      in ''{'' @ join (item_sep st) (map (\<lambda>(k, s). quote_str (ensure_ascii st) k @ key_sep st @ s) qs)
         @ ''}'')"
| "dumps_with st JOpaque = []"

fun serializable :: "json \<Rightarrow> bool" where
  "serializable JOpaque = False"
| "serializable (JArr xs) = list_all serializable xs"
| "serializable (JObj kvs) = list_all (\<lambda>(k, v). serializable v) kvs"
| "serializable _ = True"

text \<open>\<open>None\<close> is the \<open>TypeError\<close> of \<open>json.dumps\<close>.\<close>

definition default_style :: json_style where
  "default_style = \<lparr>ensure_ascii = True, item_sep = '', '', key_sep = '': '', sort_keys = False\<rparr>"

definition json_dumps :: "json \<Rightarrow> string option" where
  "json_dumps j = (if serializable j then Some (dumps_with default_style j) else None)"

definition json_dumps_sorted :: "json \<Rightarrow> string option" where
  "json_dumps_sorted j =
     (if serializable j then Some (dumps_with (default_style\<lparr>sort_keys := True\<rparr>) j) else None)"

definition canonical_style :: json_style where
  "canonical_style = \<lparr>ensure_ascii = False, item_sep = '','', key_sep = '':'', sort_keys = True\<rparr>"

definition canonical_json_dumps :: "json \<Rightarrow> string" where
  "canonical_json_dumps j = dumps_with canonical_style j"

definition canonical_json_bytes :: "json \<Rightarrow> string" where
  "canonical_json_bytes j = canonical_json_dumps j"

definition canonical_json_hash :: "'a crypto_scheme \<Rightarrow> json \<Rightarrow> string" where
  "canonical_json_hash cr j = sha256_hex cr (canonical_json_bytes j)"

end
