(* ===== verification/Tx.thy ===== *)
theory Tx
  imports Json
begin

section \<open>Transactions (transaction.py)\<close>

text \<open>
  The class \<open>Transaction\<close> of \<open>minichain/transaction.py\<close>: its fields, the attribute writes that
  a sealed transaction refuses, the cached identifier, signing and verification, and the
  dictionaries it is read from and written to.

  Fields have the types that the constructor documents. \<open>from_dict\<close> stores whatever a payload
  holds; where a payload's field has another type the model answers \<open>Unmodelled\<close> and says
  nothing of the code. Time stamps are integers (of seconds or milliseconds).
\<close>

record transaction =
  tx_sender :: string
  tx_receiver :: "string option"
  tx_amount :: int
  tx_gas_limit :: int
  tx_fee_per_gas :: int
  tx_nonce :: int
  tx_data :: "string option"
  tx_chain_id :: string
  tx_timestamp :: int
  tx_signature :: "string option"
  tx_cached_id :: "string option"
  tx_sealed :: bool

subsection \<open>Construction\<close>

definition normalize_ts :: "int \<Rightarrow> int" where
  "normalize_ts ts = (if ts < 10 ^ 12 then ts * 1000 else ts)"

text \<open>\<open>now\<close> is \<open>round(time.time() * 1000)\<close>, read when no time stamp is given.\<close>

definition new_transaction ::
  "int \<Rightarrow> string \<Rightarrow> string option \<Rightarrow> int \<Rightarrow> int \<Rightarrow> int \<Rightarrow> int \<Rightarrow> string option \<Rightarrow> string
     \<Rightarrow> string option \<Rightarrow> int option \<Rightarrow> transaction" where
  "new_transaction now sndr rcv amt n gl fpg dat cid sg ts =
     \<lparr>tx_sender = sndr, tx_receiver = rcv, tx_amount = amt, tx_gas_limit = gl,
      tx_fee_per_gas = fpg, tx_nonce = n, tx_data = dat, tx_chain_id = cid,
      tx_timestamp = (case ts of Some t \<Rightarrow> normalize_ts t | None \<Rightarrow> now),
      tx_signature = sg, tx_cached_id = None, tx_sealed = False\<rparr>"

subsection \<open>Attribute writes\<close>

datatype tx_write =
    Set_sender string
  | Set_receiver "string option"
  | Set_amount int
  | Set_gas_limit int
  | Set_fee_per_gas int
  | Set_nonce int
  | Set_data "string option"
  | Set_timestamp int
  | Set_chain_id string
  | Set_signature "string option"

fun tx_put :: "tx_write \<Rightarrow> transaction \<Rightarrow> transaction" where
  "tx_put (Set_sender v) t = t\<lparr>tx_sender := v\<rparr>"
| "tx_put (Set_receiver v) t = t\<lparr>tx_receiver := v\<rparr>"
| "tx_put (Set_amount v) t = t\<lparr>tx_amount := v\<rparr>"
| "tx_put (Set_gas_limit v) t = t\<lparr>tx_gas_limit := v\<rparr>"
| "tx_put (Set_fee_per_gas v) t = t\<lparr>tx_fee_per_gas := v\<rparr>"
| "tx_put (Set_nonce v) t = t\<lparr>tx_nonce := v\<rparr>"
| "tx_put (Set_data v) t = t\<lparr>tx_data := v\<rparr>"
| "tx_put (Set_timestamp v) t = t\<lparr>tx_timestamp := v\<rparr>"
| "tx_put (Set_chain_id v) t = t\<lparr>tx_chain_id := v\<rparr>"
| "tx_put (Set_signature v) t = t\<lparr>tx_signature := v\<rparr>"

definition tx_setattr :: "tx_write \<Rightarrow> transaction \<Rightarrow> exn + transaction" where
  "tx_setattr w t =
     (if tx_sealed t then Inl AttributeError else Inr ((tx_put w t)\<lparr>tx_cached_id := None\<rparr>))"

subsection \<open>Dictionaries, identifier, signature\<close>

definition of_str_option :: "string option \<Rightarrow> json" where
  "of_str_option x = (case x of None \<Rightarrow> JNull | Some s \<Rightarrow> JStr s)"

definition tx_to_signing_dict :: "transaction \<Rightarrow> json dict" where
  "tx_to_signing_dict t =
     [(''sender'', JStr (tx_sender t)), (''receiver'', of_str_option (tx_receiver t)),
      (''amount'', JInt (tx_amount t)), (''gas_limit'', JInt (tx_gas_limit t)),
      (''fee_per_gas'', JInt (tx_fee_per_gas t)), (''nonce'', JInt (tx_nonce t)),
      (''data'', of_str_option (tx_data t)), (''chain_id'', JStr (tx_chain_id t)),
      (''timestamp'', JInt (tx_timestamp t))]"

definition tx_to_dict :: "transaction \<Rightarrow> json dict" where
  "tx_to_dict t = tx_to_signing_dict t @ [(''signature'', of_str_option (tx_signature t))]"

definition hash_payload :: "transaction \<Rightarrow> string" where
  "hash_payload t = canonical_json_bytes (JObj (tx_to_signing_dict t))"

text \<open>The hash that \<open>tx_id\<close> computes, and the property \<open>tx_id\<close> itself, which reads the
  cached value and fills it.\<close>

definition tx_hash :: "'a crypto_scheme \<Rightarrow> transaction \<Rightarrow> string" where
  "tx_hash cr t = canonical_json_hash cr (JObj (tx_to_dict t))"

definition tx_id_step :: "'a crypto_scheme \<Rightarrow> transaction \<Rightarrow> string \<times> transaction" where
  "tx_id_step cr t =
     (case tx_cached_id t of
        None \<Rightarrow> (tx_hash cr t, t\<lparr>tx_cached_id := Some (tx_hash cr t)\<rparr>)
      | Some i \<Rightarrow> (i, t))"

definition tx_id :: "'a crypto_scheme \<Rightarrow> transaction \<Rightarrow> string" where
  "tx_id cr t = fst (tx_id_step cr t)"

definition to_hex :: "string \<Rightarrow> string" where
  "to_hex bs = concat (map (\<lambda>c. [digit (of_char c div 16), digit (of_char c mod 16)]) bs)"

definition tx_sign :: "'a crypto_scheme \<Rightarrow> string \<Rightarrow> transaction \<Rightarrow> exn + transaction" where
  "tx_sign cr sk t =
     (if ed25519_public cr sk \<noteq> tx_sender t then Inl ValueError
      else case tx_setattr (Set_signature (Some (to_hex (ed25519_sign cr sk (hash_payload t))))) t of
             Inl e \<Rightarrow> Inl e
           | Inr t' \<Rightarrow> Inr (t'\<lparr>tx_sealed := True\<rparr>))"

definition tx_verify :: "'a crypto_scheme \<Rightarrow> transaction \<Rightarrow> bool" where
  "tx_verify cr t =
     (case tx_signature t of
        None \<Rightarrow> False
      | Some sg \<Rightarrow>
          if sg = [] then False
          else case fromhex sg of
                 None \<Rightarrow> False
               | Some bs \<Rightarrow> ed25519_verify cr (tx_sender t) (hash_payload t) bs)"

subsection \<open>Reading a payload\<close>

datatype decode_error = Raised exn | Unmodelled

type_synonym 'a decoded = "decode_error + 'a"

fun dec_str :: "json option \<Rightarrow> string decoded" where
  "dec_str None = Inl (Raised KeyError)"
| "dec_str (Some (JStr s)) = Inr s"
| "dec_str (Some _) = Inl Unmodelled"

fun dec_int :: "json option \<Rightarrow> int decoded" where
  "dec_int None = Inl (Raised KeyError)"
| "dec_int (Some (JInt i)) = Inr i"
| "dec_int (Some _) = Inl Unmodelled"

fun dec_str_opt :: "json option \<Rightarrow> string option decoded" where
  "dec_str_opt None = Inr None"
| "dec_str_opt (Some JNull) = Inr None"
| "dec_str_opt (Some (JStr s)) = Inr (Some s)"
| "dec_str_opt (Some _) = Inl Unmodelled"

fun dec_int_opt :: "json option \<Rightarrow> int option decoded" where
  "dec_int_opt None = Inr None"
| "dec_int_opt (Some JNull) = Inr None"
| "dec_int_opt (Some (JInt i)) = Inr (Some i)"
| "dec_int_opt (Some _) = Inl Unmodelled"

definition dec_default :: "(json option \<Rightarrow> 'a decoded) \<Rightarrow> 'a \<Rightarrow> json option \<Rightarrow> 'a decoded" where
  "dec_default f d x = (case x of None \<Rightarrow> Inr d | Some _ \<Rightarrow> f x)"

definition decode_bind :: "'a decoded \<Rightarrow> ('a \<Rightarrow> 'b decoded) \<Rightarrow> 'b decoded" where
  "decode_bind x f = (case x of Inl e \<Rightarrow> Inl e | Inr v \<Rightarrow> f v)"

lemma decode_bind_simps [simp]:
  "decode_bind (Inl e) f = Inl e" "decode_bind (Inr v) f = f v"
  by (simp_all add: decode_bind_def)

lemma decode_bind_Inr: "decode_bind x f = Inr r \<longleftrightarrow> (\<exists>v. x = Inr v \<and> f v = Inr r)"
  by (cases x) auto

definition tx_from_dict :: "int \<Rightarrow> json dict \<Rightarrow> transaction decoded" where
  "tx_from_dict now p =
     decode_bind (dec_str (dict_get p ''sender'')) (\<lambda>sndr.
     decode_bind (dec_str_opt (dict_get p ''receiver'')) (\<lambda>rcv.
     decode_bind (dec_int (dict_get p ''amount'')) (\<lambda>amt.
     decode_bind (dec_int (dict_get p ''nonce'')) (\<lambda>n.
     decode_bind (dec_default dec_int 0 (dict_get p ''gas_limit'')) (\<lambda>gl.
     decode_bind (dec_default dec_int 0 (dict_get p ''fee_per_gas'')) (\<lambda>fpg.
     decode_bind (dec_str_opt (dict_get p ''data'')) (\<lambda>dat.
     decode_bind (dec_default dec_str ''minichain-default'' (dict_get p ''chain_id'')) (\<lambda>cid.
     decode_bind (dec_str_opt (dict_get p ''signature'')) (\<lambda>sg.
     decode_bind (dec_int_opt (dict_get p ''timestamp'')) (\<lambda>ts.
       Inr (new_transaction now sndr rcv amt n gl fpg dat cid sg ts)))))))))))"

subsection \<open>The identifier cache\<close>

text \<open>The cache holds nothing or the hash of the present contents.\<close>

definition tx_cache_ok :: "'a crypto_scheme \<Rightarrow> transaction \<Rightarrow> bool" where
  "tx_cache_ok cr t = (tx_cached_id t = None \<or> tx_cached_id t = Some (tx_hash cr t))"

lemma tx_hash_cached [simp]: "tx_hash cr (t\<lparr>tx_cached_id := i\<rparr>) = tx_hash cr t"
  by (simp add: tx_hash_def tx_to_dict_def tx_to_signing_dict_def)

lemma tx_hash_sealed [simp]: "tx_hash cr (t\<lparr>tx_sealed := b\<rparr>) = tx_hash cr t"
  by (simp add: tx_hash_def tx_to_dict_def tx_to_signing_dict_def)

lemma tx_id_is_hash: "tx_cache_ok cr t \<Longrightarrow> tx_id cr t = tx_hash cr t"
  by (auto simp: tx_cache_ok_def tx_id_def tx_id_step_def)

lemma tx_cache_ok_new: "tx_cache_ok cr (new_transaction now s r a n gl f d c sg ts)"
  by (simp add: tx_cache_ok_def new_transaction_def)

lemma tx_cache_ok_setattr: "tx_setattr w t = Inr t' \<Longrightarrow> tx_cache_ok cr t'"
  by (auto simp: tx_setattr_def tx_cache_ok_def split: if_splits)

lemma tx_cache_ok_id_step: "tx_cache_ok cr t \<Longrightarrow> tx_cache_ok cr (snd (tx_id_step cr t))"
  by (auto simp: tx_cache_ok_def tx_id_step_def split: option.splits)

lemma tx_cache_ok_sign: "tx_sign cr sk t = Inr t' \<Longrightarrow> tx_cache_ok cr t'"
  by (auto simp: tx_sign_def tx_setattr_def tx_cache_ok_def split: if_splits sum.splits)

lemma tx_cache_ok_from_dict: "tx_from_dict now p = Inr t \<Longrightarrow> tx_cache_ok cr t"
  by (auto simp: tx_from_dict_def decode_bind_Inr tx_cache_ok_new)

subsection \<open>Signing and verification\<close>

lemma char_of_nat_split: "(char_of (16 * ((of_char c :: nat) div 16) + of_char c mod 16) :: char) = c"
  by (metis char_of_char mult.commute div_mult_mod_eq)

lemma of_char_less: "(of_char (c :: char) :: nat) < 256"
  by (cases c) (auto simp: of_char_def horner_sum_simps)

lemma fromhex_to_hex: "fromhex (to_hex bs) = Some bs"
proof (induction bs)
  case Nil
  then show ?case by (simp add: to_hex_def)
next
  case (Cons c bs)
  let ?n = "of_char c :: nat"
  have d: "?n div 16 < 16" "?n mod 16 < 16"
    using of_char_less [of c] by (simp_all add: less_mult_imp_div_less)
  have sp: "\<not> is_space (digit (?n div 16))" using digit_not_special [OF d(1)] by blast
  have "to_hex (c # bs) = digit (?n div 16) # digit (?n mod 16) # to_hex bs"
    by (simp add: to_hex_def)
  then show ?case
    using Cons sp digit_val_digit [OF d(1)] digit_val_digit [OF d(2)] char_of_nat_split [of c]
    by simp
qed

lemma hash_payload_signature [simp]:
  "hash_payload (t\<lparr>tx_signature := s, tx_cached_id := i, tx_sealed := b\<rparr>) = hash_payload t"
  by (simp add: hash_payload_def tx_to_signing_dict_def)

lemma to_hex_nil: "to_hex bs = [] \<longleftrightarrow> bs = []"
  by (cases bs) (auto simp: to_hex_def)

end
