(* ===== verification/Journal.thy ===== *)
theory Journal
  imports Tx
begin

section \<open>Accounts and the state journal (state.py, StateJournal)\<close>

text \<open>
  \<open>State.accounts\<close> is a dictionary of accounts or a \<open>StateJournal\<close> over one: a cache of
  accounts read or written since the journal was made, over a backing store that is itself a
  dictionary or a journal. Python code holds references to account dictionaries and mutates
  them in place; a reference obtained from \<open>accounts[k]\<close> is the object stored under \<open>k\<close> in
  the top layer (a journal copies the account into its cache first), so such a mutation is
  \<open>acc_modify k\<close> of the model.

  The interface that the rest of the node relies on is stated as two locales: a store whose
  lookups follow its writes (\<open>account_store\<close>), and a store with a transaction on top of it
  that is committed or rolled back (\<open>layered_store\<close>). The dictionary and the journal are
  shown to satisfy them.
\<close>

record account =
  acc_balance :: int
  acc_nonce :: int
  acc_code :: "string option"
  acc_storage :: json

datatype accounts = Plain "account dict" | Journal accounts "account dict"

subsection \<open>Operations\<close>

fun acc_view :: "accounts \<Rightarrow> string \<Rightarrow> account option" where
  "acc_view (Plain d) k = dict_get d k"
| "acc_view (Journal b c) k = (case dict_get c k of Some a \<Rightarrow> Some a | None \<Rightarrow> acc_view b k)"

text \<open>\<open>__contains__\<close>: in the cache or in the backing store.\<close>

fun acc_contains :: "accounts \<Rightarrow> string \<Rightarrow> bool" where
  "acc_contains (Plain d) k = (k \<in> set (map fst d))"
| "acc_contains (Journal b c) k = (k \<in> set (map fst c) \<or> acc_contains b k)"

text \<open>The effect of a read on the layers: every journal on the way copies the account.\<close>

fun acc_touch :: "string \<Rightarrow> accounts \<Rightarrow> accounts" where
  "acc_touch k (Plain d) = Plain d"
| "acc_touch k (Journal b c) =
     (if k \<in> set (map fst c) then Journal b c
      else case acc_view b k of
             Some a \<Rightarrow> Journal (acc_touch k b) (dict_set k a c)
           | None \<Rightarrow> Journal b c)"

definition acc_getitem :: "string \<Rightarrow> accounts \<Rightarrow> accounts \<times> (exn + account)" where
  "acc_getitem k A =
     (case acc_view A k of None \<Rightarrow> (A, Inl KeyError) | Some a \<Rightarrow> (acc_touch k A, Inr a))"

definition acc_get :: "string \<Rightarrow> accounts \<Rightarrow> accounts \<times> account option" where
  "acc_get k A = (case acc_getitem k A of (A', Inl _) \<Rightarrow> (A', None) | (A', Inr a) \<Rightarrow> (A', Some a))"

fun acc_put :: "string \<Rightarrow> account \<Rightarrow> accounts \<Rightarrow> accounts" where
  "acc_put k a (Plain d) = Plain (dict_set k a d)"
| "acc_put k a (Journal b c) = Journal b (dict_set k a c)"

text \<open>An update of the account object held by reference, after a read of \<open>k\<close>.\<close>

definition acc_modify :: "string \<Rightarrow> (account \<Rightarrow> account) \<Rightarrow> accounts \<Rightarrow> accounts" where
  "acc_modify k f A =
     (case acc_view (acc_touch k A) k of
        None \<Rightarrow> acc_touch k A
      | Some a \<Rightarrow> acc_put k (f a) (acc_touch k A))"

fun acc_update :: "accounts \<Rightarrow> account dict \<Rightarrow> accounts" where
  "acc_update A [] = A"
| "acc_update A ((k, a) # e) = acc_update (acc_put k a A) e"

text \<open>\<open>copy()\<close> and \<open>items()\<close>: the backing store's contents with the cache laid over them.\<close>

fun acc_items :: "accounts \<Rightarrow> account dict" where
  "acc_items (Plain d) = d"
| "acc_items (Journal b c) = dict_update (acc_items b) c"

text \<open>
  A journal over \<open>A\<close>; \<open>commit\<close> writes the cache to the backing store and empties it,
  \<open>rollback\<close> empties it. The code then goes on with the backing store.
\<close>

definition journal_new :: "accounts \<Rightarrow> accounts" where
  "journal_new A = Journal A []"

fun acc_commit :: "accounts \<Rightarrow> accounts" where
  "acc_commit (Plain d) = Plain d"
| "acc_commit (Journal b c) = Journal (acc_update b c) []"

fun acc_rollback :: "accounts \<Rightarrow> accounts" where
  "acc_rollback (Plain d) = Plain d"
| "acc_rollback (Journal b c) = Journal b []"

fun acc_backing :: "accounts \<Rightarrow> accounts" where
  "acc_backing (Plain d) = Plain d"
| "acc_backing (Journal b c) = b"

text \<open>Every layer is a dictionary.\<close>

fun acc_ok :: "accounts \<Rightarrow> bool" where
  "acc_ok (Plain d) = dict_ok d"
| "acc_ok (Journal b c) = (acc_ok b \<and> dict_ok c)"

subsection \<open>The interface of a store of accounts\<close>

locale account_store =
  fixes view :: "'s \<Rightarrow> string \<Rightarrow> account option"
    and put :: "string \<Rightarrow> account \<Rightarrow> 's \<Rightarrow> 's"
    and ok :: "'s \<Rightarrow> bool"
  assumes view_put: "ok s \<Longrightarrow> view (put k a s) = (view s)(k \<mapsto> a)"
    and ok_put: "ok s \<Longrightarrow> ok (put k a s)"
    and finite_view: "ok s \<Longrightarrow> finite (dom (view s))"
begin

definition bal :: "'s \<Rightarrow> string \<Rightarrow> int" where
  "bal s k = (case view s k of None \<Rightarrow> 0 | Some a \<Rightarrow> acc_balance a)"

definition total :: "'s \<Rightarrow> int" where
  "total s = (\<Sum>k \<in> dom (view s). bal s k)"

lemma bal_Some [simp]: "view s k = Some a \<Longrightarrow> bal s k = acc_balance a"
  by (simp add: bal_def)

lemma bal_put: "ok s \<Longrightarrow> bal (put k a s) x = (if x = k then acc_balance a else bal s x)"
  by (simp add: bal_def view_put)

lemma total_put: 
  assumes "ok s"
  shows "total (put k a s) = total s - bal s k + acc_balance a"
proof -
  let ?D = "dom (view s)"
  have fin: "finite ?D" using assms by (rule finite_view)
  have d: "dom (view (put k a s)) = insert k ?D" using assms by (simp add: view_put)
  have "total (put k a s) = acc_balance a + (\<Sum>x \<in> ?D - {k}. bal s x)"
    using fin assms by (simp add: total_def d bal_put sum.insert_remove)
  moreover have "total s = bal s k + (\<Sum>x \<in> ?D - {k}. bal s x)"
  proof (cases "k \<in> ?D")
    case True
    then show ?thesis using fin by (simp add: total_def sum.remove [of ?D k])
  next
    case False
    then have "bal s k = 0" by (auto simp: bal_def domIff)
    with False show ?thesis by (simp add: total_def)
  qed
  ultimately show ?thesis by simp
qed

lemma total_view_eq: "view s = view t \<Longrightarrow> total s = total t"
  by (simp add: total_def bal_def)

text \<open>Moving an amount from one account to another keeps the sum, also onto itself.\<close>

lemma total_move:
  assumes ok: "ok s" and f: "view s x = Some a"
    and g: "view (put x (a\<lparr>acc_balance := acc_balance a - v\<rparr>) s) y = Some b"
  shows "total (put y (b\<lparr>acc_balance := acc_balance b + v\<rparr>)
           (put x (a\<lparr>acc_balance := acc_balance a - v\<rparr>) s)) = total s"
  using assms by (simp add: total_put ok_put)

end

text \<open>A store with a transaction layer on top: \<open>base\<close> is the store below.\<close>

locale layered_store = account_store view put ok
  for view :: "'s \<Rightarrow> string \<Rightarrow> account option" and put :: "string \<Rightarrow> account \<Rightarrow> 's \<Rightarrow> 's"
    and ok :: "'s \<Rightarrow> bool" +
  fixes start :: "'s \<Rightarrow> 's"
    and touch :: "string \<Rightarrow> 's \<Rightarrow> 's"
    and commit :: "'s \<Rightarrow> 's"
    and base :: "'s \<Rightarrow> 's"
    and layer :: "'s \<Rightarrow> bool"
  assumes start_layer: "layer (start s)"
    and start_ok: "ok s \<Longrightarrow> ok (start s)"
    and start_view: "view (start s) = view s"
    and start_base: "base (start s) = s"
    and put_layer: "layer t \<Longrightarrow> layer (put k a t)"
    and put_base: "layer t \<Longrightarrow> base (put k a t) = base t"
    and touch_layer: "layer t \<Longrightarrow> layer (touch k t)"
    and touch_ok: "ok t \<Longrightarrow> ok (touch k t)"
    and touch_view: "view (touch k t) = view t"
    and touch_base: "layer t \<Longrightarrow> view (base (touch k t)) = view (base t)"
    and base_ok: "layer t \<Longrightarrow> ok t \<Longrightarrow> ok (base t)"
    and commit_view: "layer t \<Longrightarrow> ok t \<Longrightarrow> view (base (commit t)) = view t"
    and commit_ok: "layer t \<Longrightarrow> ok t \<Longrightarrow> ok (base (commit t))"
begin

text \<open>A script of reads and writes run in a transaction.\<close>

fun run :: "(string \<times> account option) list \<Rightarrow> 's \<Rightarrow> 's" where
  "run [] t = t"
| "run ((k, None) # ops) t = run ops (touch k t)"
| "run ((k, Some a) # ops) t = run ops (put k a t)"

fun run_map :: "(string \<times> account option) list \<Rightarrow> (string \<rightharpoonup> account) \<Rightarrow> (string \<rightharpoonup> account)" where
  "run_map [] m = m"
| "run_map ((k, None) # ops) m = run_map ops m"
| "run_map ((k, Some a) # ops) m = run_map ops (m(k \<mapsto> a))"

lemma run_layer: "layer t \<Longrightarrow> layer (run ops t)"
  by (induction ops t rule: run.induct) (auto simp: put_layer touch_layer)

lemma run_ok: "ok t \<Longrightarrow> ok (run ops t)"
  by (induction ops t rule: run.induct) (auto simp: ok_put touch_ok)

lemma run_view: "ok t \<Longrightarrow> view (run ops t) = run_map ops (view t)"
  by (induction ops t rule: run.induct) (auto simp: ok_put touch_ok view_put touch_view)

lemma run_base: "layer t \<Longrightarrow> view (base (run ops t)) = view (base t)"
  by (induction ops t rule: run.induct) (auto simp: put_layer touch_layer put_base touch_base)

lemma transaction_committed:
  "ok s \<Longrightarrow> view (base (commit (run ops (start s)))) = run_map ops (view s)"
  by (simp add: commit_view run_layer run_ok start_layer start_ok run_view start_view)

lemma transaction_dropped: "view (base (run ops (start s))) = view s"
  by (simp add: run_base start_layer start_base)

lemma transaction_isolated:
  "ok s \<Longrightarrow> view (run ops (start s)) = run_map ops (view s)"
  by (simp add: run_view start_ok start_view)

end

subsection \<open>The dictionary and the journal are such stores\<close>

fun is_layer :: "accounts \<Rightarrow> bool" where
  "is_layer (Plain d) = False"
| "is_layer (Journal b c) = True"

lemma acc_view_put [view_simps, simp]: "acc_view (acc_put k a A) = (acc_view A)(k \<mapsto> a)"
  by (cases A) (auto simp: fun_eq_iff)

lemma acc_ok_put [simp]: "acc_ok A \<Longrightarrow> acc_ok (acc_put k a A)"
  by (cases A) auto

lemma acc_view_touch [view_simps, simp]: "acc_view (acc_touch k A) = acc_view A"
  by (induction A) (simp_all add: fun_eq_iff dict_mem split: option.splits)

lemma acc_ok_touch [simp]: "acc_ok A \<Longrightarrow> acc_ok (acc_touch k A)"
  by (induction A) (auto split: option.splits)

lemma acc_view_update: "acc_view (acc_update A e) = fold (\<lambda>(k, a) m. m(k \<mapsto> a)) e (acc_view A)"
  by (induction A e rule: acc_update.induct) simp_all

lemma acc_ok_update [simp]: "acc_ok A \<Longrightarrow> acc_ok (acc_update A e)"
  by (induction A e rule: acc_update.induct) auto

lemma fold_map_upds: "dict_ok e \<Longrightarrow> fold (\<lambda>(k, a) m. m(k \<mapsto> a)) e m = m ++ map_of e"
proof (induction e arbitrary: m)
  case (Cons p e)
  obtain k a where p: "p = (k, a)" by (cases p)
  with Cons have "dict_get e k = None" by (simp add: map_of_eq_None_iff)
  with Cons p show ?case by (auto simp: fun_eq_iff map_add_def split: option.splits)
qed simp

lemma finite_acc_view: "finite (dom (acc_view A))"
proof (induction A)
  case (Journal A c)
  have "dom (acc_view (Journal A c)) \<subseteq> dom (map_of c) \<union> dom (acc_view A)"
    by (auto split: option.splits)
  with Journal show ?case by (meson finite_UnI finite_dom_map_of finite_subset)
qed (simp add: finite_dom_map_of)

lemma acc_view_commit:
  "is_layer A \<Longrightarrow> acc_ok A \<Longrightarrow> acc_view (acc_backing (acc_commit A)) = acc_view A"
  by (cases A) (auto simp: acc_view_update fold_map_upds map_add_def fun_eq_iff split: option.splits)

lemma acc_items_view: "acc_ok A \<Longrightarrow> map_of (acc_items A) = acc_view A \<and> dict_ok (acc_items A)"
  by (induction A) (auto simp: dict_get_update fun_eq_iff split: option.splits)

lemma acc_contains_view: "acc_contains A k \<longleftrightarrow> acc_view A k \<noteq> None"
  by (induction A) (auto simp: dict_mem split: option.splits)

interpretation plain: account_store map_of dict_set dict_ok
  by unfold_locales (auto simp: update_conv' finite_dom_map_of)

interpretation store: layered_store acc_view acc_put acc_ok journal_new acc_touch acc_commit
    acc_backing is_layer
proof unfold_locales
  fix t k assume "is_layer t"
  then show "acc_view (acc_backing (acc_touch k t)) = acc_view (acc_backing t)"
    by (cases t) (auto split: option.splits)
next
  fix t k assume "is_layer t"
  then show "is_layer (acc_touch k t)" by (cases t) (auto split: option.splits)
next
  fix t k a assume t: "is_layer t"
  from t show "is_layer (acc_put k a t)" by (cases t) auto
next
  fix t k a assume t: "is_layer t"
  from t show "acc_backing (acc_put k a t) = acc_backing t" by (cases t) auto
next
  fix t assume "is_layer t" and "acc_ok t"
  then show "acc_ok (acc_backing (acc_commit t))" by (cases t) auto
next
  fix t assume "is_layer t" and "acc_ok t"
  then show "acc_ok (acc_backing t)" by (cases t) auto
qed (auto simp: finite_acc_view journal_new_def acc_view_commit)

end
