(* ===== verification/Contract.thy ===== *)
theory Contract
  imports Journal
begin

section \<open>The contract sandbox (contract.py)\<close>

text \<open>
  The parts of \<open>minichain/contract.py\<close> that run without the state: the gas meter, the worker
  process with the two functions it injects into the contract's builtins, the static check of
  the contract's syntax tree, and how the parent process settles what the worker reported.

  What a contract does is data that users deploy, run by Python's \<open>exec\<close>. The model sees it
  as a \<open>behaviour\<close>: the tree of the events that the sandbox can observe, with a branch for
  each answer. The parameter \<open>exec_code\<close> gives the behaviour of a code text in a context; it
  stands for the interpreter, for the operating system limits of the worker process and for
  the wall clock of the parent's five second limit.
\<close>

subsection \<open>Gas meter\<close>

text \<open>
  \<open>gm_active\<close> says whether the interpreter still calls the trace function: an exception that a
  trace function raises removes it (sys.settrace).
\<close>

record gas_meter =
  gm_gas :: int
  gm_initial :: int
  gm_active :: bool

definition new_meter :: "int \<Rightarrow> gas_meter" where
  "new_meter limit = \<lparr>gm_gas = limit, gm_initial = limit, gm_active = True\<rparr>"

text \<open>One opcode event; the second component says that \<open>OutOfGasException\<close> was raised.\<close>

definition trace_opcode :: "gas_meter \<Rightarrow> gas_meter \<times> bool" where
  "trace_opcode m =
     (if \<not> gm_active m then (m, False)
      else let m' = m\<lparr>gm_gas := gm_gas m - 1\<rparr>
           in if gm_gas m' \<le> 0 then (m'\<lparr>gm_active := False\<rparr>, True) else (m', False))"

subsection \<open>Behaviour of a contract\<close>

text \<open>
  \<open>Opcode k\<close>: the next opcode, \<open>k r\<close> the rest where \<open>r\<close> says that the meter raised;
  \<open>Transfer_out a n k\<close>: a call of \<open>transfer_out(a, n)\<close>, \<open>k r\<close> the rest where \<open>r\<close> says that it
  raised \<open>ValueError\<close>; \<open>Call_contract a p n k\<close>: a call of \<open>call_contract\<close>, \<open>k None\<close> the rest
  when it returned and \<open>k (Some e)\<close> when it raised with text \<open>e\<close>, for arguments of any type; then
  the ends: the code ran through with \<open>storage\<close> bound to a value, an exception left it, the gas
  exception left it, the process died without a message, or no message came before the
  parent's limit.

  \<open>Outside\<close>: what the code does next is not in the model. There are two ways to get there. A
  float, which \<open>json\<close> does not have, reaches the amount of a call or the storage; or the code has
  got hold of a frame of the worker (a generator's \<open>gi_frame.f_back\<close>, which the static check lets
  pass), and with it of the meter and the pipe. Such a run has no result in the model: whatever
  called the contract ends with \<open>Outside_model\<close>.
\<close>

datatype behaviour =
    Opcode "bool \<Rightarrow> behaviour"
  | Transfer_out json json "bool \<Rightarrow> behaviour"
  | Call_contract json json json "string option \<Rightarrow> behaviour"
  | Finished json
  | Uncaught string
  | Uncaught_gas
  | Killed
  | Stalled
  | Outside

definition transfer_amount :: "json \<Rightarrow> int option" where
  "transfer_amount n =
     (case n of JInt i \<Rightarrow> if i \<le> 0 then None else Some i
              | JBool b \<Rightarrow> if b then Some 1 else None
              | _ \<Rightarrow> None)"

text \<open>The checks of \<open>transfer_out\<close>, in its order; \<open>None\<close> is the \<open>ValueError\<close>.\<close>

definition transfer_out_args :: "json \<Rightarrow> json \<Rightarrow> (string \<times> int) option" where
  "transfer_out_args address amount =
     (case transfer_amount amount of
        None \<Rightarrow> None
      | Some n \<Rightarrow>
          (case address of
             JStr s \<Rightarrow>
               let l = length (utf8_decode s)
               in if l \<noteq> 40 \<and> l \<noteq> 64 then None
                  else (case py_int_of_str 16 s of None \<Rightarrow> None | Some _ \<Rightarrow> Some (s, n))
           | _ \<Rightarrow> None))"

subsection \<open>The worker process\<close>

datatype return_msg =
    Ret_success json "(string \<times> int) list" int
  | Ret_error string int

text \<open>What the parent sees of the worker: messages, with the rest depending on the answers.\<close>

datatype child =
    Sends_call json json json "string option \<Rightarrow> child"
  | Sends_return return_msg
  | Exits
  | Hangs
  | Leaves_model

primrec safe_exec_worker :: "behaviour \<Rightarrow> gas_meter \<Rightarrow> (string \<times> int) list \<Rightarrow> int \<Rightarrow> child" where
  "safe_exec_worker (Opcode k) m ts gl =
     (case trace_opcode m of (m', r) \<Rightarrow> safe_exec_worker (k r) m' ts gl)"
| "safe_exec_worker (Transfer_out a n k) m ts gl =
     (case transfer_out_args a n of
        None \<Rightarrow> safe_exec_worker (k True) m ts gl
      | Some t \<Rightarrow> safe_exec_worker (k False) m (ts @ [t]) gl)"
| "safe_exec_worker (Call_contract a p n k) m ts gl =
     Sends_call a p n (\<lambda>r. safe_exec_worker (k r) m ts gl)"
| "safe_exec_worker (Finished sto) m ts gl =
     Sends_return (Ret_success sto ts (gm_initial m - gm_gas m))"
| "safe_exec_worker (Uncaught e) m ts gl = Sends_return (Ret_error e (gm_initial m - gm_gas m))"
| "safe_exec_worker Uncaught_gas m ts gl = Sends_return (Ret_error ''Out of gas!'' gl)"
| "safe_exec_worker Killed m ts gl = Exits"
| "safe_exec_worker Stalled m ts gl = Hangs"
| "safe_exec_worker Outside m ts gl = Leaves_model"

subsection \<open>The result of an execution\<close>

datatype exec_result =
    Exec_ok int "(string \<times> int) list" json
  | Exec_fail string int

fun exec_gas :: "exec_result \<Rightarrow> int" where
  "exec_gas (Exec_ok g _ _) = g"
| "exec_gas (Exec_fail _ g) = g"

fun exec_success :: "exec_result \<Rightarrow> bool" where
  "exec_success (Exec_ok _ _ _) = True"
| "exec_success (Exec_fail _ _) = False"

text \<open>The answer that \<open>call_contract\<close> makes of the result of a sub-call.\<close>

definition call_reply :: "exec_result \<Rightarrow> string option" where
  "call_reply r = (case r of Exec_ok _ _ _ \<Rightarrow> None
                           | Exec_fail e _ \<Rightarrow> Some (''Cross-contract call failed: '' @ e))"

datatype child_end = Got return_msg | No_result | Timed_out | Parent_raised | Left_model

text \<open>
  The parent's message loop: a \<open>call\<close> message is served by \<open>h\<close>, which runs the sub-call on
  the accounts with the address, payload and amount as they were sent; an exception there ends
  the loop.
\<close>

primrec serve_child ::
  "child \<Rightarrow> (accounts \<Rightarrow> json \<Rightarrow> json \<Rightarrow> json \<Rightarrow> accounts \<times> (exn + exec_result))
     \<Rightarrow> accounts \<Rightarrow> accounts \<times> child_end" where
  "serve_child (Sends_call a p n k) h A =
     (case h A a p n of
        (A', Inl e) \<Rightarrow> (A', if e = Outside_model then Left_model else Parent_raised)
      | (A', Inr r) \<Rightarrow> serve_child (k (call_reply r)) h A')"
| "serve_child (Sends_return m) h A = (A, Got m)"
| "serve_child Exits h A = (A, No_result)"
| "serve_child Hangs h A = (A, Timed_out)"
| "serve_child Leaves_model h A = (A, Left_model)"

text \<open>What \<open>execute\<close> returns for the end of the loop; it is not used for \<open>Left_model\<close>.\<close>

definition settle_result :: "int \<Rightarrow> child_end \<Rightarrow> exec_result" where
  "settle_result gl ce =
     (case ce of
        Timed_out \<Rightarrow> Exec_fail ''Execution timed out'' gl
      | No_result \<Rightarrow> Exec_fail ''Crashed'' gl
      | Parent_raised \<Rightarrow> Exec_fail ''System Error'' gl
      | Left_model \<Rightarrow> Exec_fail [] gl
      | Got (Ret_error e g) \<Rightarrow> Exec_fail e g
      | Got (Ret_success sto ts g) \<Rightarrow>
          (case json_dumps sto of
             None \<Rightarrow> Exec_fail ''Storage not JSON serializable'' g
           | Some s \<Rightarrow>
               let total_gas = g + int (length s) * GAS_PER_BYTE
               in if total_gas > gl
                  then Exec_fail ''Out of gas (Storage size exceeded limit)'' gl
                  else Exec_ok total_gas ts sto))"

subsection \<open>Static check of the code\<close>

text \<open>The node kinds of Python's \<open>ast\<close> that the check looks at; \<open>Other_node\<close> is any other
  kind with its child nodes.\<close>

datatype bin_op = Mult | Pow | MatMult | Other_op

datatype pyast =
    Attribute_node pyast string
  | Name_node string
  | Import_node
  | ImportFrom_node
  | Call_node pyast "pyast list"
  | Str_node string
  | JoinedStr_node "pyast list"
  | BinOp_node bin_op pyast pyast
  | Other_node "pyast list"

fun ast_children :: "pyast \<Rightarrow> pyast list" where
  "ast_children (Attribute_node v _) = [v]"
| "ast_children (Name_node _) = []"
| "ast_children Import_node = []"
| "ast_children ImportFrom_node = []"
| "ast_children (Call_node f args) = f # args"
| "ast_children (Str_node _) = []"
| "ast_children (JoinedStr_node vs) = vs"
| "ast_children (BinOp_node _ l r) = [l, r]"
| "ast_children (Other_node ns) = ns"

text \<open>\<open>ast.walk\<close>: a queue of nodes, each node's children put at its end.\<close>

abbreviation ast_weight :: "pyast list \<Rightarrow> nat" where
  "ast_weight ns \<equiv> sum_list (map (\<lambda>n. Suc (2 * size n)) ns)"

lemma weight_size_list: "ast_weight ns \<le> 2 * size_list size ns"
  by (induction ns) auto

lemma weight_ast_children: "ast_weight (ast_children n) < Suc (2 * size n)"
proof (cases n)
  case (Call_node f args)
  with weight_size_list [of args] show ?thesis by simp
next
  case (JoinedStr_node ns)
  with weight_size_list [of ns] show ?thesis by simp
next
  case (Other_node ns)
  with weight_size_list [of ns] show ?thesis by simp
qed auto

function ast_walk :: "pyast list \<Rightarrow> pyast list" where
  "ast_walk [] = []"
| "ast_walk (n # todo) = n # ast_walk (todo @ ast_children n)"
  by pat_completeness auto
termination
  by (relation "measure ast_weight") (use weight_ast_children in \<open>auto simp: less_Suc_eq_le\<close>)

fun has_dunder :: "string \<Rightarrow> bool" where
  "has_dunder (c # d # cs) = (c = CHR ''_'' \<and> d = CHR ''_'' \<or> has_dunder (d # cs))"
| "has_dunder _ = False"

definition starts_dunder :: "string \<Rightarrow> bool" where
  "starts_dunder s = (take 2 s = ''__'')"

fun rejected_node :: "pyast \<Rightarrow> bool" where
  "rejected_node (Attribute_node _ a) = (starts_dunder a \<or> a \<in> {''format'', ''format_map''})"
| "rejected_node (Name_node i) = starts_dunder i"
| "rejected_node Import_node = True"
| "rejected_node ImportFrom_node = True"
| "rejected_node (Call_node (Name_node i) _) = (i \<in> {''type'', ''getattr'', ''setattr'', ''delattr''})"
| "rejected_node (Call_node _ _) = False"
| "rejected_node (Str_node s) = has_dunder s"
| "rejected_node (JoinedStr_node _) = True"
| "rejected_node (BinOp_node op _ _) = (op \<noteq> Other_op)"
| "rejected_node (Other_node _) = False"

text \<open>What \<open>ast.parse\<close> raises when it returns no tree.\<close>

datatype parse_error = Syntax_error | Parse_raised exn

record ext = crypto +
  ast_parse :: "string \<Rightarrow> parse_error + pyast"
  exec_code :: "string \<Rightarrow> json dict \<Rightarrow> string \<Rightarrow> int \<Rightarrow> json \<Rightarrow> behaviour"

text \<open>Only \<open>SyntaxError\<close> is caught; any other exception of the parser leaves the check.\<close>

definition validate_code_ast :: "'a ext_scheme \<Rightarrow> string \<Rightarrow> exn + bool" where
  "validate_code_ast E code =
     (case ast_parse E code of
        Inl Syntax_error \<Rightarrow> Inr False
      | Inl (Parse_raised e) \<Rightarrow> Inl e
      | Inr tree \<Rightarrow> Inr (list_all (\<lambda>n. \<not> rejected_node n) (ast_walk [tree])))"

subsection \<open>The check looks at every node of the tree\<close>

inductive in_tree :: "pyast \<Rightarrow> pyast \<Rightarrow> bool" for n :: pyast where
  here: "in_tree n n"
| below: "c \<in> set (ast_children t) \<Longrightarrow> in_tree n c \<Longrightarrow> in_tree n t"

inductive_simps in_tree_unfold: "in_tree n t"

lemma set_ast_walk: "n \<in> set (ast_walk ts) \<longleftrightarrow> (\<exists>t \<in> set ts. in_tree n t)"
proof (induction ts rule: ast_walk.induct)
  case (2 t todo)
  have "(\<exists>c \<in> set (ast_children t). in_tree n c) \<or> n = t \<longleftrightarrow> in_tree n t"
    by (subst (2) in_tree_unfold) auto
  with 2 show ?case by auto
qed simp

lemma validate_code_ast_iff:
  "validate_code_ast E code = Inr True \<longleftrightarrow>
     (\<exists>tree. ast_parse E code = Inr tree \<and> (\<forall>n. in_tree n tree \<longrightarrow> \<not> rejected_node n))"
  by (auto simp: validate_code_ast_def list_all_iff set_ast_walk simp del: ast_walk.simps
      split: sum.splits parse_error.splits)

subsection \<open>What a worker can report\<close>

primrec returns_sat :: "(return_msg \<Rightarrow> bool) \<Rightarrow> child \<Rightarrow> bool" where
  "returns_sat P (Sends_call a p n k) = (\<forall>r. returns_sat P (k r))"
| "returns_sat P (Sends_return m) = P m"
| "returns_sat P Exits = True"
| "returns_sat P Hangs = True"
| "returns_sat P Leaves_model = True"

fun ret_gas :: "return_msg \<Rightarrow> int" where
  "ret_gas (Ret_success _ _ g) = g"
| "ret_gas (Ret_error _ g) = g"

fun ret_transfers :: "return_msg \<Rightarrow> (string \<times> int) list" where
  "ret_transfers (Ret_success _ ts _) = ts"
| "ret_transfers (Ret_error _ _) = []"

definition meter_ok :: "int \<Rightarrow> gas_meter \<Rightarrow> bool" where
  "meter_ok gl m \<longleftrightarrow> gm_initial m = gl \<and> gm_gas m \<le> gl \<and> gl - max 1 gl \<le> gm_gas m
     \<and> (gm_active m \<longrightarrow> 0 < gm_gas m \<or> gm_gas m = gl)"

lemma meter_ok_new: "meter_ok gl (new_meter gl)"
  by (simp add: meter_ok_def new_meter_def)

lemma meter_ok_trace: "meter_ok gl m \<Longrightarrow> meter_ok gl (fst (trace_opcode m))"
  by (auto simp: meter_ok_def trace_opcode_def Let_def)

lemma worker_gas:
  "0 \<le> gl \<Longrightarrow> meter_ok gl m \<Longrightarrow>
   returns_sat (\<lambda>r. 0 \<le> ret_gas r \<and> ret_gas r \<le> max 1 gl) (safe_exec_worker b m ts gl)"
proof (induction b arbitrary: m ts)
  case (Opcode k)
  then show ?case using meter_ok_trace [of gl m]
    by (cases "trace_opcode m") auto
qed (auto simp: meter_ok_def split: option.splits)

definition positive_transfers :: "(string \<times> int) list \<Rightarrow> bool" where
  "positive_transfers ts \<longleftrightarrow> (\<forall>(to, n) \<in> set ts. 0 < n)"

lemma transfer_out_positive: "transfer_out_args a n = Some (to, v) \<Longrightarrow> 0 < v"
  by (auto simp: transfer_out_args_def transfer_amount_def Let_def
      split: option.splits json.splits if_splits)

lemma worker_transfers:
  "positive_transfers ts \<Longrightarrow>
   returns_sat (\<lambda>r. positive_transfers (ret_transfers r)) (safe_exec_worker b m ts gl)"
proof (induction b arbitrary: m ts)
  case (Transfer_out a n k)
  show ?case
  proof (cases "transfer_out_args a n")
    case None
    with Transfer_out show ?thesis by simp
  next
    case (Some t)
    with Transfer_out.prems have "positive_transfers (ts @ [t])"
      by (cases t) (auto simp: positive_transfers_def dest: transfer_out_positive)
    with Some Transfer_out.IH show ?thesis by simp
  qed
qed (auto simp: positive_transfers_def split: prod.splits)

lemma serve_child_sat:
  "returns_sat P ch \<Longrightarrow> serve_child ch h A = (A', Got m) \<Longrightarrow> P m"
  by (induction ch arbitrary: A) (auto split: prod.splits sum.splits if_splits)

text \<open>Every message of the worker obeys the meter; so does what the parent makes of it.\<close>

lemma settle_gas:
  assumes "serve_child (safe_exec_worker b (new_meter gl) [] gl) h A = (A', ce)" and "0 \<le> gl"
  shows "0 \<le> exec_gas (settle_result gl ce) \<and> exec_gas (settle_result gl ce) \<le> max 1 gl"
proof (cases ce)
  case (Got m)
  with assms have "0 \<le> ret_gas m \<and> ret_gas m \<le> max 1 gl"
    using serve_child_sat [OF worker_gas [OF _ meter_ok_new]] by blast
  with Got assms(2) show ?thesis
    by (cases m) (auto simp: settle_result_def Let_def GAS_PER_BYTE_def split: option.splits)
qed (use assms(2) in \<open>auto simp: settle_result_def\<close>)

lemma settle_success_gas: "settle_result gl ce = Exec_ok g ts st \<Longrightarrow> g \<le> gl"
  by (auto simp: settle_result_def Let_def split: child_end.splits return_msg.splits
      option.splits if_splits)

lemma settle_transfers:
  assumes "serve_child (safe_exec_worker b (new_meter gl) [] gl) h A = (A', ce)"
    and "settle_result gl ce = Exec_ok g ts st"
  shows "positive_transfers ts"
proof -
  from assms(2) obtain s g' where "ce = Got (Ret_success s ts g')"
    by (auto simp: settle_result_def Let_def split: child_end.splits return_msg.splits
        option.splits if_splits)
  with assms(1) show ?thesis
    using serve_child_sat [OF worker_transfers [of "[]"]]
    by (fastforce simp: positive_transfers_def)
qed

end
