(* ===== verification/State.thy ===== *)
theory State
  imports Contract
begin

section \<open>The state and its transactions (state.py, ContractMachine.execute)\<close>

text \<open>
  The class \<open>State\<close> of \<open>minichain/state.py\<close> and \<open>ContractMachine.execute\<close> of
  \<open>minichain/contract.py\<close>, which call each other: \<open>execute_internal_call\<close> runs a contract and
  the running contract's \<open>call_contract\<close> messages come back as \<open>execute_internal_call\<close> one
  level deeper, up to \<open>MAX_CALL_DEPTH\<close>. Every operation takes the accounts and returns them,
  with the exception that it raised or its result.
\<close>

record state =
  st_accounts :: accounts
  st_chain_id :: string

subsection \<open>Accounts\<close>

definition empty_account :: account where
  "empty_account = \<lparr>acc_balance = 0, acc_nonce = 0, acc_code = None, acc_storage = JObj []\<rparr>"

text \<open>\<open>get_account\<close> returns a reference to the account; the model returns the accounts, and
  the reference is the address.\<close>

definition get_account :: "string \<Rightarrow> accounts \<Rightarrow> accounts" where
  "get_account k A =
     acc_touch k (if acc_contains A k then A else acc_put k empty_account A)"

definition add_balance :: "string \<Rightarrow> int \<Rightarrow> accounts \<Rightarrow> accounts" where
  "add_balance k v A = acc_modify k (\<lambda>a. a\<lparr>acc_balance := acc_balance a + v\<rparr>) A"

definition bump_nonce :: "string \<Rightarrow> accounts \<Rightarrow> accounts" where
  "bump_nonce k A = acc_modify k (\<lambda>a. a\<lparr>acc_nonce := acc_nonce a + 1\<rparr>) A"

definition balance_of :: "accounts \<Rightarrow> string \<Rightarrow> int" where
  "balance_of A k = (case acc_view A k of None \<Rightarrow> 0 | Some a \<Rightarrow> acc_balance a)"

definition nonce_of :: "accounts \<Rightarrow> string \<Rightarrow> int" where
  "nonce_of A k = (case acc_view A k of None \<Rightarrow> 0 | Some a \<Rightarrow> acc_nonce a)"

text \<open>The truth value of \<open>account.get("code")\<close>.\<close>

definition has_code :: "account \<Rightarrow> bool" where
  "has_code a = (case acc_code a of None \<Rightarrow> False | Some c \<Rightarrow> c \<noteq> [])"

definition derive_contract_address :: "'a crypto_scheme \<Rightarrow> string \<Rightarrow> int \<Rightarrow> string" where
  "derive_contract_address cr sndr n = take 40 (nacl_sha256 cr (sndr @ '':'' @ py_str_int n))"

definition create_contract :: "string \<Rightarrow> string option \<Rightarrow> int \<Rightarrow> accounts \<Rightarrow> accounts" where
  "create_contract addr code initial A =
     (case acc_get addr A of
        (A', ex) \<Rightarrow>
          acc_put addr
            \<lparr>acc_balance = (case ex of None \<Rightarrow> 0 | Some a \<Rightarrow> acc_balance a) + initial,
             acc_nonce = 0, acc_code = code, acc_storage = JObj []\<rparr> A')"

definition update_contract_storage :: "string \<Rightarrow> json \<Rightarrow> accounts \<Rightarrow> exn + accounts" where
  "update_contract_storage addr sto A =
     (if acc_contains A addr
      then Inr (acc_modify addr (\<lambda>a. a\<lparr>acc_storage := sto\<rparr>) A) else Inl KeyError)"

text \<open>\<open>updates\<close> must be a dictionary; \<open>.update\<close> on a storage that is not a dictionary is an
  \<open>AttributeError\<close>.\<close>

definition update_contract_storage_partial :: "string \<Rightarrow> json \<Rightarrow> accounts \<Rightarrow> exn + accounts" where
  "update_contract_storage_partial addr updates A =
     (case acc_view A addr of
        None \<Rightarrow> Inl KeyError
      | Some a \<Rightarrow>
          (case updates of
             JObj e \<Rightarrow>
               (case acc_storage a of
                  JObj d \<Rightarrow> Inr (acc_modify addr (\<lambda>a. a\<lparr>acc_storage := JObj (dict_update d e)\<rparr>) A)
                | _ \<Rightarrow> Inl AttributeError)
           | _ \<Rightarrow> Inl ValueError))"

definition credit_mining_reward :: "string \<Rightarrow> int option \<Rightarrow> accounts \<Rightarrow> accounts" where
  "credit_mining_reward miner reward A =
     add_balance miner (case reward of None \<Rightarrow> DEFAULT_MINING_REWARD | Some r \<Rightarrow> r)
       (get_account miner A)"

subsection \<open>State root\<close>

definition account_json :: "account \<Rightarrow> json" where
  "account_json a =
     JObj [(''balance'', JInt (acc_balance a)), (''nonce'', JInt (acc_nonce a)),
           (''code'', of_str_option (acc_code a)), (''storage'', acc_storage a)]"

definition blank_account :: "account \<Rightarrow> bool" where
  "blank_account a =
     (acc_balance a = 0 \<and> acc_nonce a = 0 \<and> \<not> has_code a \<and> \<not> json_truthy (acc_storage a))"

text \<open>
  The pairs that \<open>state_root\<close> puts into the trie: \<open>Trie.put\<close> decodes the address with
  \<open>bytes.fromhex\<close>, which raises \<open>ValueError\<close> on an address that is not hexadecimal.
\<close>

fun trie_puts :: "(string \<times> account) list \<Rightarrow> exn + (string \<times> string) list" where
  "trie_puts [] = Inr []"
| "trie_puts ((addr, a) # rest) =
     (if blank_account a then trie_puts rest
      else case json_dumps_sorted (account_json a) of
             None \<Rightarrow> Inl TypeError
           | Some v \<Rightarrow>
               (case fromhex addr of
                  None \<Rightarrow> Inl ValueError
                | Some k \<Rightarrow>
                    (case trie_puts rest of Inl e \<Rightarrow> Inl e | Inr ps \<Rightarrow> Inr ((k, v) # ps))))"

definition state_root :: "'a crypto_scheme \<Rightarrow> accounts \<Rightarrow> exn + string" where
  "state_root cr A =
     (case trie_puts (sort_key fst (acc_items A)) of
        Inl e \<Rightarrow> Inl e | Inr ps \<Rightarrow> Inr (trie_root cr ps))"

subsection \<open>Running a contract\<close>

text \<open>
  \<open>dict(storage)\<close>: of a dictionary a shallow copy, of a sequence of pairs the dictionary they
  make (pairs with a key that is not a string are outside the model and counted as an error),
  and an exception otherwise.
\<close>

fun pairs_dict :: "json list \<Rightarrow> json dict \<Rightarrow> exn + json dict" where
  "pairs_dict [] d = Inr d"
| "pairs_dict (JArr [JStr k, v] # xs) d = pairs_dict xs (dict_set k v d)"
| "pairs_dict (JStr [c, c'] # xs) d = pairs_dict xs (dict_set [c] (JStr [c']) d)"
| "pairs_dict (JArr _ # xs) d = Inl ValueError"
| "pairs_dict (JStr _ # xs) d = Inl ValueError"
| "pairs_dict (_ # xs) d = Inl TypeError"

fun py_dict :: "json \<Rightarrow> exn + json dict" where
  "py_dict (JObj d) = Inr d"
| "py_dict (JArr xs) = pairs_dict xs []"
| "py_dict (JStr []) = Inr []"
| "py_dict (JStr _) = Inl ValueError"
| "py_dict _ = Inl TypeError"

text \<open>The two places where \<open>execute_internal_call\<close> gives the amount back.\<close>

definition undo_value :: "bool \<Rightarrow> string \<Rightarrow> string \<Rightarrow> int \<Rightarrow> accounts \<Rightarrow> accounts" where
  "undo_value is_top sndr rcv amount A =
     (let A1 = add_balance rcv (- amount) A
      in if is_top then A1 else add_balance sndr amount A1)"

definition total_out :: "(string \<times> int) list \<Rightarrow> int" where
  "total_out ts = sum_list (map snd ts)"

text \<open>The outgoing transfers, in order: \<open>get_account(t["to"])['balance'] += t["amount"]\<close>.\<close>

fun pay_out :: "(string \<times> int) list \<Rightarrow> accounts \<Rightarrow> accounts" where
  "pay_out [] A = A"
| "pay_out ((to, v) # ts) A = pay_out ts (add_balance to v (get_account to A))"

text \<open>\<open>execute_internal_call\<close> from the return of \<open>execute\<close> on.\<close>

definition finish_call ::
  "bool \<Rightarrow> string \<Rightarrow> string \<Rightarrow> int \<Rightarrow> accounts \<Rightarrow> exec_result \<Rightarrow> accounts \<times> (exn + exec_result)" where
  "finish_call is_top sndr rcv amount A res =
     (case res of
        Exec_fail _ _ \<Rightarrow> (undo_value is_top sndr rcv amount A, Inr res)
      | Exec_ok g ts sto \<Rightarrow>
          if total_out ts > balance_of A rcv
          then (undo_value is_top sndr rcv amount A,
                Inr (Exec_fail ''Insufficient contract balance for transfers'' g))
          else case update_contract_storage rcv sto A of
                 Inl e \<Rightarrow> (A, Inl e)
               | Inr A1 \<Rightarrow> (pay_out ts (add_balance rcv (- total_out ts) A1), Inr res))"

text \<open>
  What \<open>execute_internal_call\<close> does with the values of a \<open>call\<close> message before it gets to an
  amount that is a number. An address that is not a text names no account, or raises
  \<open>TypeError\<close> in the look-up when it has no hash; a boolean is a number (the called code sees the
  number here, which Python tells apart only by type and text); any other amount raises
  \<open>TypeError\<close> in the comparison with the balance of the sender \<open>c\<close>.
\<close>

fun number_value :: "json \<Rightarrow> int option" where
  "number_value (JInt i) = Some i"
| "number_value (JBool b) = Some (if b then 1 else 0)"
| "number_value _ = None"

fun hashable :: "json \<Rightarrow> bool" where
  "hashable (JArr _) = False"
| "hashable (JObj _) = False"
| "hashable _ = True"

definition compare_raises :: "accounts \<Rightarrow> string \<Rightarrow> string \<Rightarrow> int \<Rightarrow> accounts \<times> (exn + exec_result)" where
  "compare_raises A c rcv gl =
     (case acc_get rcv A of
        (A1, None) \<Rightarrow> (A1, Inr (Exec_fail ''Contract not found'' gl))
      | (A1, Some r) \<Rightarrow>
          if \<not> has_code r then (A1, Inr (Exec_fail ''Contract not found'' gl))
          else case acc_getitem c A1 of
                 (A2, Inl e) \<Rightarrow> (A2, Inl e)
               | (A2, Inr s) \<Rightarrow> (A2, Inl TypeError))"

definition nested_call ::
  "(accounts \<Rightarrow> string \<Rightarrow> json \<Rightarrow> int \<Rightarrow> accounts \<times> (exn + exec_result)) \<Rightarrow> string \<Rightarrow> int
     \<Rightarrow> accounts \<Rightarrow> json \<Rightarrow> json \<Rightarrow> json \<Rightarrow> accounts \<times> (exn + exec_result)" where
  "nested_call call c gl A a p n =
     (case a of
        JStr rcv \<Rightarrow> (case number_value n of Some v \<Rightarrow> call A rcv p v | None \<Rightarrow> compare_raises A c rcv gl)
      | _ \<Rightarrow> (A, if hashable a then Inr (Exec_fail ''Contract not found'' gl) else Inl TypeError))"

function internal_call ::
  "'a ext_scheme \<Rightarrow> accounts \<Rightarrow> string \<Rightarrow> string \<Rightarrow> int \<Rightarrow> json \<Rightarrow> int \<Rightarrow> nat \<Rightarrow> bool
     \<Rightarrow> accounts \<times> (exn + exec_result)"
  and exec_contract ::
  "'a ext_scheme \<Rightarrow> accounts \<Rightarrow> string \<Rightarrow> string \<Rightarrow> json \<Rightarrow> int \<Rightarrow> int \<Rightarrow> nat
     \<Rightarrow> accounts \<times> (exn + exec_result)" where
  "internal_call E A sndr rcv amount payload gl depth is_top =
     (case acc_get rcv A of
        (A1, None) \<Rightarrow> (A1, Inr (Exec_fail ''Contract not found'' gl))
      | (A1, Some r) \<Rightarrow>
          if \<not> has_code r then (A1, Inr (Exec_fail ''Contract not found'' gl))
          else case acc_getitem sndr A1 of
                 (A2, Inl e) \<Rightarrow> (A2, Inl e)
               | (A2, Inr s) \<Rightarrow>
                   if \<not> is_top \<and> acc_balance s < amount
                   then (A2, Inr (Exec_fail ''Insufficient balance'' gl))
                   else let A3 = (if is_top then A2 else add_balance sndr (- amount) A2);
                            A4 = add_balance rcv amount A3
                        in case exec_contract E A4 rcv sndr payload amount gl depth of
                             (A5, Inl e) \<Rightarrow> (A5, Inl e)
                           | (A5, Inr res) \<Rightarrow> finish_call is_top sndr rcv amount A5 res)"
| "exec_contract E A c sndr payload amount gl depth =
     (if depth > MAX_CALL_DEPTH then (A, Inr (Exec_fail ''Max call depth exceeded'' gl))
      else let A1 = get_account c A in
        case acc_view A1 c of
          None \<Rightarrow> (A1, Inr (Exec_fail ''Account not found'' 0))
        | Some acc \<Rightarrow>
            (case py_dict (acc_storage acc) of
               Inl e \<Rightarrow> (A1, Inl e)
             | Inr sto \<Rightarrow>
                 (case acc_code acc of
                    None \<Rightarrow> (A1, Inr (Exec_fail ''No code'' 0))
                  | Some code \<Rightarrow>
                      if code = [] then (A1, Inr (Exec_fail ''No code'' 0))
                      else case validate_code_ast E code of
                        Inl e \<Rightarrow> (A1, Inl e)
                      | Inr ok \<Rightarrow>
                          if \<not> ok then (A1, Inr (Exec_fail ''AST Validation Failed'' 0))
                          else case serve_child
                                      (safe_exec_worker (exec_code E code sto sndr amount payload)
                                         (new_meter gl) [] gl)
                                      (nested_call
                                         (\<lambda>A' a p n. internal_call E A' c a n p gl (Suc depth) False) c gl) A1
                               of (A2, ce) \<Rightarrow>
                                 (A2, if ce = Left_model then Inl Outside_model
                                      else Inr (settle_result gl ce)))))"
  by pat_completeness auto
termination
  by (relation "measure (\<lambda>x. case x of
        Inl (E, A, sndr, rcv, amount, payload, gl, depth, is_top) \<Rightarrow> 2 * (Suc MAX_CALL_DEPTH - depth) + 1
      | Inr (E, A, c, sndr, payload, amount, gl, depth) \<Rightarrow> 2 * (Suc MAX_CALL_DEPTH - depth))") auto

declare internal_call.simps [simp del] exec_contract.simps [simp del]

end
