(* ===== verification/StateLaws.thy ===== *)
theory StateLaws
  imports State
begin

section \<open>Laws of the state operations\<close>

text \<open>
  What each operation of \<open>State\<close> does to the accounts as a map, what it leaves alone and how it
  changes the sum of all balances. Anything that a store of accounts keeps under reads and
  single writes (locale \<open>access_closed\<close>) is kept by every operation, by running contracts with
  nested calls and by the contract's message loop (locale \<open>call_server\<close>).
\<close>

subsection \<open>Views\<close>

lemma acc_view_modify [view_simps]:
  "acc_view (acc_modify k f A) =
     (case acc_view A k of None \<Rightarrow> acc_view A | Some a \<Rightarrow> (acc_view A)(k \<mapsto> f a))"
  by (auto simp: acc_modify_def split: option.splits)

lemma acc_view_get_account [view_simps]:
  "acc_view (get_account k A) =
     (case acc_view A k of None \<Rightarrow> (acc_view A)(k \<mapsto> empty_account) | Some a \<Rightarrow> acc_view A)"
  by (auto simp: get_account_def acc_contains_view split: option.splits)

lemma acc_getitem_view:
  "acc_getitem k A = (A', r) \<Longrightarrow>
     A' = (if acc_view A k = None then A else acc_touch k A)
     \<and> r = (case acc_view A k of None \<Rightarrow> Inl KeyError | Some a \<Rightarrow> Inr a)"
  by (auto simp: acc_getitem_def split: option.splits)

lemma acc_get_view:
  "acc_get k A = (A', r) \<Longrightarrow> A' = (if acc_view A k = None then A else acc_touch k A) \<and> r = acc_view A k"
  by (auto simp: acc_get_def acc_getitem_def split: option.splits prod.splits sum.splits)

lemma acc_get_eq:
  "acc_get k A = (if acc_view A k = None then A else acc_touch k A, acc_view A k)"
  by (auto simp: acc_get_def acc_getitem_def split: option.splits)

lemma acc_getitem_Some: "acc_view A k = Some a \<Longrightarrow> acc_getitem k A = (acc_touch k A, Inr a)"
  by (simp add: acc_getitem_def)

lemma acc_view_add_balance [view_simps]:
  "acc_view (add_balance k v A) =
     (case acc_view A k of None \<Rightarrow> acc_view A
        | Some a \<Rightarrow> (acc_view A)(k \<mapsto> a\<lparr>acc_balance := acc_balance a + v\<rparr>))"
  by (simp add: add_balance_def acc_view_modify)

lemma acc_view_bump_nonce [view_simps]:
  "acc_view (bump_nonce k A) =
     (case acc_view A k of None \<Rightarrow> acc_view A
        | Some a \<Rightarrow> (acc_view A)(k \<mapsto> a\<lparr>acc_nonce := acc_nonce a + 1\<rparr>))"
  by (simp add: bump_nonce_def acc_view_modify)

lemma acc_view_create [view_simps]:
  "acc_view (create_contract addr code v A) = (acc_view A)(addr \<mapsto>
     \<lparr>acc_balance = balance_of A addr + v, acc_nonce = 0, acc_code = code, acc_storage = JObj []\<rparr>)"
  by (auto simp: create_contract_def acc_get_eq balance_of_def split: option.splits)

lemma balance_of_simps [simp]:
  "balance_of (acc_touch k A) x = balance_of A x"
  "balance_of (get_account k A) x = balance_of A x"
  by (auto simp: balance_of_def view_simps empty_account_def split: option.splits)

lemma balance_of_add:
  "acc_view A k \<noteq> None \<Longrightarrow> balance_of (add_balance k v A) x = balance_of A x + (if x = k then v else 0)"
  by (auto simp: balance_of_def view_simps)

subsection \<open>The two ways an execution goes\<close>

text \<open>Either the contract is not started, or its worker is served and settled.\<close>

definition runnable :: "'a ext_scheme \<Rightarrow> accounts \<Rightarrow> string \<Rightarrow> nat \<Rightarrow> json dict \<Rightarrow> string \<Rightarrow> bool" where
  "runnable E A c d sto code \<longleftrightarrow> \<not> d > MAX_CALL_DEPTH
     \<and> (\<exists>acc. acc_view (get_account c A) c = Some acc \<and> py_dict (acc_storage acc) = Inr sto
        \<and> acc_code acc = Some code) \<and> code \<noteq> [] \<and> validate_code_ast E code = Inr True"

abbreviation worker_of ::
  "'a ext_scheme \<Rightarrow> string \<Rightarrow> json dict \<Rightarrow> string \<Rightarrow> int \<Rightarrow> json \<Rightarrow> int \<Rightarrow> child" where
  "worker_of E code sto s v p gl \<equiv>
     safe_exec_worker (exec_code E code sto s v p) (new_meter gl) [] gl"

text \<open>How \<open>c\<close>'s messages at depth \<open>d\<close> are served.\<close>

abbreviation sub_calls ::
  "'a ext_scheme \<Rightarrow> string \<Rightarrow> int \<Rightarrow> nat \<Rightarrow> accounts \<Rightarrow> json \<Rightarrow> json \<Rightarrow> json
     \<Rightarrow> accounts \<times> (exn + exec_result)" where
  "sub_calls E c gl d \<equiv>
     nested_call (\<lambda>A' a p n. internal_call E A' c a n p gl (Suc d) False) c gl"

lemma exec_contract_run:
  assumes "runnable E A c d sto code"
  shows "exec_contract E A c s p v gl d =
    (case serve_child (worker_of E code sto s v p gl) (sub_calls E c gl d) (get_account c A)
     of (A2, ce) \<Rightarrow>
       (A2, if ce = Left_model then Inl Outside_model else Inr (settle_result gl ce)))"
  using assms by (auto simp: runnable_def exec_contract.simps [of E A c s p v gl d] Let_def)

lemma exec_contract_skip:
  assumes "\<nexists>sto code. runnable E A c d sto code" and "exec_contract E A c s p v gl d = (A', r)"
  shows "(A' = A \<or> A' = get_account c A) \<and> ((\<exists>e. r = Inl e) \<or>
    (\<exists>e. r = Inr (Exec_fail e gl) \<or> r = Inr (Exec_fail e 0)))"
  using assms
  by (auto simp: runnable_def exec_contract.simps [of E A c s p v gl d] Let_def
      split: if_splits option.splits sum.splits)

lemma exec_contract_served:
  assumes "runnable E A c d sto code" and "exec_contract E A c s p v gl d = (A', Inr res)"
  obtains ce where "serve_child (worker_of E code sto s v p gl) (sub_calls E c gl d) (get_account c A) = (A', ce)"
    "res = settle_result gl ce"
  using assms by (auto simp: exec_contract_run split: prod.splits if_splits)

subsection \<open>What reads and writes keep, every operation keeps\<close>

locale call_server =
  fixes serve :: "accounts \<Rightarrow> json \<Rightarrow> json \<Rightarrow> json \<Rightarrow> accounts \<times> (exn + exec_result)"
    and I :: "accounts \<Rightarrow> bool"
  assumes serve_keeps: "I A \<Longrightarrow> I (fst (serve A a p n))"
begin

lemma serve_child_keeps: "I A \<Longrightarrow> I (fst (serve_child ch serve A))"
proof (induction ch arbitrary: A)
  case (Sends_call a p n k)
  then have "I (fst (serve A a p n))" by (intro serve_keeps)
  with Sends_call.IH show ?case by (auto split: prod.splits sum.splits)
qed simp_all

end

text \<open>A message is served by one call, or only looks up accounts.\<close>

lemma compare_raises_view:
  "compare_raises A c rcv gl = (A', out) \<Longrightarrow>
     (A' = A \<or> A' = acc_touch rcv A \<or> A' = acc_touch c (acc_touch rcv A))
     \<and> (out = Inr (Exec_fail ''Contract not found'' gl) \<or> (\<exists>e. out = Inl e))"
  by (auto simp: compare_raises_def acc_get_eq acc_getitem_def split: if_splits option.splits)

lemma nested_call_cases:
  assumes "nested_call call c gl A a p n = (A', out)"
  obtains rcv v where "call A rcv p v = (A', out)"
    | rcv where "A' = A \<or> A' = acc_touch rcv A \<or> A' = acc_touch c (acc_touch rcv A)"
      "out = Inr (Exec_fail ''Contract not found'' gl) \<or> (\<exists>e. out = Inl e)"
proof (cases "\<exists>rcv. a = JStr rcv \<and> number_value n = None")
  case True
  then obtain rcv where "compare_raises A c rcv gl = (A', out)"
    using assms by (auto simp: nested_call_def)
  from compare_raises_view [OF this] show thesis using that(2) by blast
next
  case False
  with assms that show thesis
    by (cases a) (auto simp: nested_call_def split: option.splits if_splits)
qed

lemma nested_server:
  assumes "\<And>k A. I A \<Longrightarrow> I (acc_touch k A)" and "\<And>A rcv p v. I A \<Longrightarrow> I (fst (call A rcv p v))"
  shows "call_server (nested_call call c gl) I"
proof
  fix A a p n assume A: "I A"
  obtain A' out where eq: "nested_call call c gl A a p n = (A', out)" by fastforce
  from eq have "I A'"
  proof (cases rule: nested_call_cases)
    case (1 rcv v)
    with assms(2) [OF A, of rcv p v] show ?thesis by simp
  qed (use A assms(1) in auto)
  with eq show "I (fst (nested_call call c gl A a p n))" by simp
qed

locale op_closed =
  fixes I :: "accounts \<Rightarrow> bool"
  assumes op_touch: "I A \<Longrightarrow> I (acc_touch k A)"
    and op_get_account: "I A \<Longrightarrow> I (get_account k A)"
    and op_add_balance: "I A \<Longrightarrow> I (add_balance k v A)"
    and op_storage: "I A \<Longrightarrow> I (acc_modify k (\<lambda>a. a\<lparr>acc_storage := sto\<rparr>) A)"
begin

lemma get_closed: "I A \<Longrightarrow> I (fst (acc_get k A))"
  by (auto simp: acc_get_eq op_touch)

lemma getitem_closed: "I A \<Longrightarrow> I (fst (acc_getitem k A))"
  by (auto simp: acc_getitem_def op_touch split: option.splits)

lemma update_storage_closed: "I A \<Longrightarrow> update_contract_storage k sto A = Inr A' \<Longrightarrow> I A'"
  by (auto simp: update_contract_storage_def op_storage split: if_splits)

lemma reward_closed: "I A \<Longrightarrow> I (credit_mining_reward m r A)"
  by (simp add: credit_mining_reward_def op_add_balance op_get_account)

lemma undo_closed: "I A \<Longrightarrow> I (undo_value t s r v A)"
  by (simp add: undo_value_def Let_def op_add_balance)

lemma pay_out_closed: "I A \<Longrightarrow> I (pay_out ts A)"
  by (induction ts A rule: pay_out.induct) (auto simp: op_add_balance op_get_account)

lemma finish_closed: "I A \<Longrightarrow> I (fst (finish_call t s r v A res))"
  by (auto simp: finish_call_def undo_closed intro!: pay_out_closed op_add_balance
      intro: update_storage_closed split: exec_result.splits sum.splits)

lemma call_closed:
  "I A \<Longrightarrow> I (fst (internal_call E A s r v p gl d t))"
  "I A \<Longrightarrow> I (fst (exec_contract E A c s p v gl d))"
proof (induction E A s r v p gl d t and E A c s p v gl d rule: internal_call_exec_contract.induct)
  case (1 E A s r v p gl d t)
  show ?case
    using 1 getitem_closed [of "fst (acc_get r A)" s] get_closed [of A r]
    by (auto simp: internal_call.simps [of E A s r v p gl d t] Let_def finish_closed
        op_add_balance split: prod.splits sum.splits option.splits)
next
  case (2 E A c s p v gl d)
  have A1: "I (get_account c A)" using 2 by (intro op_get_account)
  show ?case
  proof (cases "\<exists>sto code. runnable E A c d sto code")
    case False
    then show ?thesis using 2(2) A1 exec_contract_skip [OF False]
      by (metis prod.collapse)
  next
    case True
    then obtain sto code where run: "runnable E A c d sto code" by blast
    have "I (fst (internal_call E A' c a n p gl (Suc d) False))" if "I A'" for A' a p n
      using run that by (auto simp: runnable_def intro!: 2(1))
    then have "call_server (sub_calls E c gl d) I" by (intro nested_server op_touch)
    from call_server.serve_child_keeps [OF this A1]
    have "I (fst (serve_child (worker_of E code sto s v p gl) (sub_calls E c gl d) (get_account c A)))" .
    with run show ?thesis by (auto simp: exec_contract_run split: prod.splits)
  qed
qed

end

text \<open>What single reads and writes keep is kept by those operations.\<close>

locale access_closed =
  fixes I :: "accounts \<Rightarrow> bool"
  assumes touch_closed: "I A \<Longrightarrow> I (acc_touch k A)"
    and put_closed: "I A \<Longrightarrow> I (acc_put k a A)"
begin

lemma modify_closed: "I A \<Longrightarrow> I (acc_modify k f A)"
  by (auto simp: acc_modify_def touch_closed put_closed split: option.splits)

lemma get_account_closed: "I A \<Longrightarrow> I (get_account k A)"
  by (simp add: get_account_def touch_closed put_closed)

lemma add_balance_closed: "I A \<Longrightarrow> I (add_balance k v A)"
  by (simp add: add_balance_def modify_closed)

lemma bump_nonce_closed: "I A \<Longrightarrow> I (bump_nonce k A)"
  by (simp add: bump_nonce_def modify_closed)

lemma create_closed: "I A \<Longrightarrow> I (create_contract addr code v A)"
  by (auto simp: create_contract_def acc_get_eq touch_closed put_closed)

end

sublocale access_closed \<subseteq> op_closed I
  by unfold_locales (auto simp: touch_closed get_account_closed add_balance_closed modify_closed)

lemma acc_backing_touch:
  "is_layer A \<Longrightarrow> acc_ok (acc_backing A) \<Longrightarrow> acc_ok (acc_backing (acc_touch k A))"
  by (cases A) (auto split: option.splits)

interpretation keeps_ok: access_closed acc_ok
  by unfold_locales auto

interpretation keeps_domain: access_closed "\<lambda>A. acc_view A k \<noteq> None" for k
  by unfold_locales auto

interpretation keeps_base: access_closed
    "\<lambda>A. is_layer A \<and> acc_ok (acc_backing A) \<and> acc_view (acc_backing A) = V" for V
proof unfold_locales
  fix A k assume A: "is_layer A \<and> acc_ok (acc_backing A) \<and> acc_view (acc_backing A) = V"
  then show "is_layer (acc_touch k A) \<and> acc_ok (acc_backing (acc_touch k A))
      \<and> acc_view (acc_backing (acc_touch k A)) = V"
    by (simp add: store.touch_layer store.touch_base acc_backing_touch)
next
  fix A k a assume A: "is_layer A \<and> acc_ok (acc_backing A) \<and> acc_view (acc_backing A) = V"
  then show "is_layer (acc_put k a A) \<and> acc_ok (acc_backing (acc_put k a A))
      \<and> acc_view (acc_backing (acc_put k a A)) = V"
    by (simp add: store.put_layer store.put_base)
qed

interpretation sub_calls_ok: call_server
    "nested_call (\<lambda>A' a p n. internal_call E A' c a n p gl d False) c gl" acc_ok for E c gl d
  by (rule nested_server) (simp_all add: keeps_ok.call_closed)

subsection \<open>The sum of all balances\<close>

definition total_supply :: "accounts \<Rightarrow> int" where
  "total_supply A = sum_list (map (\<lambda>(k, a). acc_balance a) (acc_items A))"

lemma total_supply_store: "acc_ok A \<Longrightarrow> total_supply A = store.total A"
proof -
  assume ok: "acc_ok A"
  let ?d = "acc_items A"
  have m: "map_of ?d = acc_view A" and d: "dict_ok ?d" using acc_items_view [OF ok] by auto
  have "total_supply A = sum_list (map (\<lambda>k. store.bal A k) (map fst ?d))"
  proof -
    have "acc_balance a = store.bal A k" if "(k, a) \<in> set ?d" for k a
      using map_of_is_SomeI [OF d that] m by simp
    then show ?thesis unfolding total_supply_def map_map o_def
      by (intro arg_cong [where f = sum_list] map_cong refl) auto
  qed
  also have "\<dots> = (\<Sum>k \<in> set (map fst ?d). store.bal A k)"
    using d by (rule sum_list_distinct_conv_sum_set)
  also have "set (map fst ?d) = dom (acc_view A)"
    by (simp add: dom_map_of_conv_image_fst flip: m)
  finally show ?thesis by (simp add: store.total_def)
qed

lemma total_supply_view: "acc_ok A \<Longrightarrow> acc_ok B \<Longrightarrow> acc_view A = acc_view B \<Longrightarrow> total_supply A = total_supply B"
  using store.total_view_eq [of A B] by (simp add: total_supply_store)

lemma total_supply_touch [supply_simps]: "acc_ok A \<Longrightarrow> total_supply (acc_touch k A) = total_supply A"
  by (rule total_supply_view) auto

lemma total_supply_put [supply_simps]:
  "acc_ok A \<Longrightarrow> total_supply (acc_put k a A) = total_supply A - balance_of A k + acc_balance a"
  by (simp add: total_supply_store store.total_put balance_of_def store.bal_def)

lemma total_supply_modify:
  "acc_ok A \<Longrightarrow> acc_view A k = Some a \<Longrightarrow>
   total_supply (acc_modify k f A) = total_supply A - acc_balance a + acc_balance (f a)"
  by (simp add: acc_modify_def supply_simps balance_of_def del: balance_of_simps)

lemma total_supply_add [supply_simps]:
  "acc_ok A \<Longrightarrow> acc_view A k \<noteq> None \<Longrightarrow> total_supply (add_balance k v A) = total_supply A + v"
  by (auto simp: add_balance_def total_supply_modify)

lemma total_supply_nonce [supply_simps]:
  "acc_ok A \<Longrightarrow> total_supply (bump_nonce k A) = total_supply A"
  by (cases "acc_view A k") (auto simp: bump_nonce_def acc_modify_def supply_simps balance_of_def)

lemma total_supply_get_account [supply_simps]:
  "acc_ok A \<Longrightarrow> total_supply (get_account k A) = total_supply A"
  by (auto simp: get_account_def supply_simps acc_contains_view balance_of_def empty_account_def)

lemma total_supply_storage [supply_simps]:
  "acc_ok A \<Longrightarrow> update_contract_storage k sto A = Inr A' \<Longrightarrow> total_supply A' = total_supply A"
  by (auto simp: update_contract_storage_def acc_contains_view total_supply_modify split: if_splits)

lemma total_supply_create [supply_simps]:
  "acc_ok A \<Longrightarrow> total_supply (create_contract k code v A) = total_supply A + v"
  by (auto simp: create_contract_def acc_get_eq supply_simps balance_of_def split: option.splits)

lemma get_account_present [simp]: "acc_view (get_account k A) k \<noteq> None"
  by (auto simp: view_simps split: option.splits)

lemma total_supply_reward [supply_simps]:
  "acc_ok A \<Longrightarrow> total_supply (credit_mining_reward m (Some r) A) = total_supply A + r"
  by (simp add: credit_mining_reward_def supply_simps keeps_ok.get_account_closed)

lemma total_supply_pay_out:
  "acc_ok A \<Longrightarrow> total_supply (pay_out ts A) = total_supply A + total_out ts"
  by (induction ts A rule: pay_out.induct)
     (auto simp: supply_simps keeps_ok.get_account_closed keeps_ok.add_balance_closed total_out_def)

lemma total_supply_undo:
  "acc_ok A \<Longrightarrow> acc_view A s \<noteq> None \<Longrightarrow> acc_view A r \<noteq> None \<Longrightarrow>
   total_supply (undo_value t s r v A) = total_supply A - (if t then v else 0)"
  by (simp add: undo_value_def Let_def supply_simps keeps_ok.add_balance_closed
      keeps_domain.add_balance_closed)

subsection \<open>Calls move money and neither make nor burn it\<close>

lemma total_supply_finish:
  assumes "acc_ok A" "acc_view A s \<noteq> None" "acc_view A r \<noteq> None"
    and "finish_call t s r v A res = (A', out)"
  shows "total_supply A' = total_supply A
           - (if t \<and> \<not> (\<exists>x. out = Inr x \<and> exec_success x) then v else 0)"
proof (cases res)
  case (Exec_fail e g)
  with assms show ?thesis by (auto simp: finish_call_def total_supply_undo)
next
  case (Exec_ok g ts sto)
  show ?thesis
  proof (cases "total_out ts > balance_of A r")
    case True
    with assms Exec_ok show ?thesis by (auto simp: finish_call_def total_supply_undo)
  next
    case False
    obtain A1 where A1: "update_contract_storage r sto A = Inr A1"
      using assms(3) by (simp add: update_contract_storage_def acc_contains_view)
    have r: "acc_view A1 r \<noteq> None"
      using keeps_domain.update_storage_closed [OF assms(3) A1] .
    have ok: "acc_ok A1" using keeps_ok.update_storage_closed [OF assms(1) A1] .
    from assms(4) Exec_ok False A1
    have "A' = pay_out ts (add_balance r (- total_out ts) A1)" "out = Inr res"
      by (auto simp: finish_call_def)
    then show ?thesis using ok r A1 Exec_ok assms(1)
      by (simp add: total_supply_pay_out supply_simps keeps_ok.add_balance_closed)
  qed
qed

lemma total_supply_calls:
  "acc_ok A \<Longrightarrow> internal_call E A s r v p gl d t = (A', out) \<Longrightarrow>
     (t \<longrightarrow> (\<exists>x. out = Inr x)) \<Longrightarrow>
     total_supply A' = total_supply A + (if t \<and> (\<exists>x. out = Inr x \<and> exec_success x) then v else 0)"
  "acc_ok A \<Longrightarrow> exec_contract E A c s p v gl d = (A', out) \<Longrightarrow> total_supply A' = total_supply A"
proof (induction E A s r v p gl d t and E A c s p v gl d arbitrary: A' out and A' out
    rule: internal_call_exec_contract.induct)
  case (1 E A s r v p gl d t)
  show ?case
  proof (cases "\<exists>ra sa. acc_view A r = Some ra \<and> has_code ra \<and> acc_view A s = Some sa
      \<and> (t \<or> v \<le> acc_balance sa)")
    case False
    with 1 show ?thesis
      by (auto simp: internal_call.simps [of E A s r v p gl d t] acc_get_eq acc_getitem_def
          supply_simps split: if_splits option.splits)
  next
    case True
    then obtain ra sa where pre: "acc_view A r = Some ra" "has_code ra" "acc_view A s = Some sa"
      "t \<or> v \<le> acc_balance sa" by blast
    define A2 where "A2 = acc_touch s (acc_touch r A)"
    define A4 where "A4 = add_balance r v (if t then A2 else add_balance s (- v) A2)"
    obtain A5 o5 where ex: "exec_contract E A4 r s p v gl d = (A5, o5)" by fastforce
    have unf: "internal_call E A s r v p gl d t =
        (case o5 of Inl e \<Rightarrow> (A5, Inl e) | Inr res \<Rightarrow> finish_call t s r v A5 res)"
      using pre ex by (auto simp: internal_call.simps [of E A s r v p gl d t] acc_get_eq
          acc_getitem_def Let_def A2_def A4_def split: sum.splits)
    have ok2: "acc_ok A2" using 1(2) by (simp add: A2_def)
    have ok4: "acc_ok A4" by (simp add: A4_def ok2 keeps_ok.add_balance_closed)
    have dom4: "acc_view A4 s \<noteq> None" "acc_view A4 r \<noteq> None"
      using pre by (auto simp: A4_def A2_def view_simps split: option.splits)
    have dom5: "acc_view A5 s \<noteq> None" "acc_view A5 r \<noteq> None"
      using keeps_domain.call_closed(2) [OF dom4(1), of E r s p v gl d]
        keeps_domain.call_closed(2) [OF dom4(2), of E r s p v gl d] ex by auto
    have ok5: "acc_ok A5"
      using keeps_ok.call_closed(2) [OF ok4, of E r s p v gl d] ex by simp
    have t4: "total_supply A4 = total_supply A + (if t then v else 0)"
      using pre ok2 1(2)
      by (auto simp: A4_def A2_def supply_simps keeps_ok.add_balance_closed view_simps)
    have t5: "total_supply A5 = total_supply A4"
      by (rule 1(1) [of "acc_touch r A" "Some ra" ra A2 "Inr sa" sa
            "if t then A2 else add_balance s (- v) A2" A4 A5 o5])
         (use pre ex ok4 in \<open>auto simp: acc_get_eq acc_getitem_def A2_def A4_def\<close>)
    show ?thesis
    proof (cases o5)
      case (Inl e)
      with unf 1(3,4) t4 t5 show ?thesis by auto
    next
      case (Inr res)
      with unf 1(3) have "finish_call t s r v A5 res = (A', out)" by simp
      from total_supply_finish [OF ok5 dom5 this] t4 t5 show ?thesis by auto
    qed
  qed
next
  case (2 E A c s p v gl d)
  show ?case
  proof (cases "\<exists>sto code. runnable E A c d sto code")
    case False
    from exec_contract_skip [OF False 2(3)] 2(2) show ?thesis
      by (auto simp: supply_simps)
  next
    case True
    then obtain sto code where run: "runnable E A c d sto code" by blast
    let ?I = "\<lambda>B. acc_ok B \<and> total_supply B = total_supply A"
    have "?I (fst (internal_call E B c a n p gl (Suc d) False))" if B: "?I B" for B a p n
    proof -
      obtain A3 o3 where call: "internal_call E B c a n p gl (Suc d) False = (A3, o3)" by fastforce
      from run obtain acc where acc: "\<not> MAX_CALL_DEPTH < d"
        "acc_view (get_account c A) c = Some acc" "py_dict (acc_storage acc) = Inr sto"
        "acc_code acc = Some code" "code \<noteq> []" "validate_code_ast E code = Inr True"
        by (auto simp: runnable_def)
      have "total_supply A3 = total_supply B + (if False \<and> (\<exists>x. o3 = Inr x \<and> exec_success x) then n else 0)"
        by (rule 2(1) [OF acc(1) refl acc(2-6)]) (use acc B call in auto)
      with B call keeps_ok.call_closed(1) [of B E c a n p gl "Suc d" False] show ?thesis by simp
    qed
    then have "call_server (sub_calls E c gl d) ?I" by (intro nested_server) (auto simp: supply_simps)
    from call_server.serve_child_keeps [OF this]
    have "?I (fst (serve_child (worker_of E code sto s v p gl) (sub_calls E c gl d) (get_account c A)))"
      using 2(2) by (simp add: supply_simps keeps_ok.get_account_closed)
    with run 2(3) show ?thesis by (auto simp: exec_contract_run split: prod.splits)
  qed
qed

end
