(* ===== verification/Receipt.thy ===== *)
theory Receipt
  imports Tx
begin

section \<open>Receipts (receipt.py)\<close>

text \<open>
  The class \<open>Receipt\<close> of \<open>minichain/receipt.py\<close> and its dictionary form. As for transactions,
  a payload whose fields have other types than the documented ones is \<open>Unmodelled\<close>.
\<close>

record receipt =
  rc_tx_hash :: string
  rc_status :: int
  rc_gas_used :: int
  rc_error_message :: string
  rc_logs :: "json list"
  rc_contract_address :: string

definition receipt_to_dict :: "receipt \<Rightarrow> json dict" where
  "receipt_to_dict r =
     [(''tx_hash'', JStr (rc_tx_hash r)), (''status'', JInt (rc_status r)),
      (''gas_used'', JInt (rc_gas_used r)), (''error_message'', JStr (rc_error_message r)),
      (''logs'', JArr (rc_logs r)), (''contract_address'', JStr (rc_contract_address r))]"

text \<open>\<open>payload.get(k) or default\<close>: a false value counts as absent.\<close>

definition get_or :: "json dict \<Rightarrow> string \<Rightarrow> json \<Rightarrow> json" where
  "get_or p k d = (case dict_get p k of None \<Rightarrow> d | Some v \<Rightarrow> if json_truthy v then v else d)"

definition dec_list :: "json option \<Rightarrow> json list decoded" where
  "dec_list x = (case x of None \<Rightarrow> Inl (Raised KeyError) | Some (JArr xs) \<Rightarrow> Inr xs | Some _ \<Rightarrow> Inl Unmodelled)"

definition receipt_from_dict :: "json dict \<Rightarrow> receipt decoded" where
  "receipt_from_dict p =
     decode_bind (dec_str (dict_get p ''tx_hash'')) (\<lambda>h.
     decode_bind (dec_int (dict_get p ''status'')) (\<lambda>st.
     decode_bind (dec_int (Some (get_or p ''gas_used'' (JInt 0)))) (\<lambda>g.
     decode_bind (dec_str (Some (get_or p ''error_message'' (JStr [])))) (\<lambda>e.
     decode_bind (dec_list (Some (get_or p ''logs'' (JArr [])))) (\<lambda>l.
     decode_bind (dec_str (Some (get_or p ''contract_address'' (JStr [])))) (\<lambda>c.
       Inr \<lparr>rc_tx_hash = h, rc_status = st, rc_gas_used = g, rc_error_message = e,
            rc_logs = l, rc_contract_address = c\<rparr>))))))"

lemma receipt_round_trip [simp]: "receipt_from_dict (receipt_to_dict r) = Inr r"
  by (simp add: receipt_from_dict_def receipt_to_dict_def get_or_def dec_list_def)

lemma receipt_to_dict_inj: "receipt_to_dict r = receipt_to_dict s \<longleftrightarrow> r = s"
  by (metis receipt_round_trip sum.inject(2))

end
