(* ===== verification/StateTx.thy ===== *)
theory StateTx
  imports StateLaws Receipt
begin

section \<open>Validating and applying transactions (state.py)\<close>

text \<open>
  The path of a transaction through \<open>State\<close>: the semantic guard, \<open>verify_transaction_logic\<close>,
  and \<open>_apply_validated_tx\<close> with its three branches, each run on a journal over the accounts
  that is committed, or dropped with the gas charged to the sender.
\<close>

subsection \<open>Validation\<close>

definition amounts_well_formed :: "transaction \<Rightarrow> bool" where
  "amounts_well_formed tx = (0 \<le> tx_amount tx \<and> 0 \<le> tx_gas_limit tx \<and> 0 \<le> tx_fee_per_gas tx)"

definition tx_cost :: "transaction \<Rightarrow> int" where
  "tx_cost tx = tx_amount tx + tx_gas_limit tx * tx_fee_per_gas tx"

text \<open>The sender's account is created by the look-up when it does not exist.\<close>

definition verify_transaction_logic ::
  "'a crypto_scheme \<Rightarrow> state \<Rightarrow> transaction \<Rightarrow> state \<times> validation_status" where
  "verify_transaction_logic cr st tx =
     (if \<not> tx_verify cr tx then (st, INVALID)
      else if tx_chain_id tx \<noteq> st_chain_id st then (st, INVALID)
      else let A = get_account (tx_sender tx) (st_accounts st);
               st1 = st\<lparr>st_accounts := A\<rparr>
           in if balance_of A (tx_sender tx) < tx_cost tx then (st1, FAILED)
              else if nonce_of A (tx_sender tx) \<noteq> tx_nonce tx then (st1, FAILED)
              else (st1, VALID))"

subsection \<open>Application\<close>

text \<open>Going on with the backing store: after \<open>commit\<close> with its new contents, after
  \<open>rollback\<close> with the old ones, less the gas.\<close>

definition commit_journal :: "accounts \<Rightarrow> accounts" where
  "commit_journal J = acc_backing (acc_commit J)"

definition rollback_and_refund ::
  "'a crypto_scheme \<Rightarrow> transaction \<Rightarrow> string \<Rightarrow> int \<Rightarrow> accounts \<Rightarrow> accounts \<times> (exn + receipt)" where
  "rollback_and_refund cr tx err gas_used J =
     (let B = acc_backing (acc_rollback J) in
      case acc_getitem (tx_sender tx) B of
        (B1, Inl e) \<Rightarrow> (B1, Inl e)
      | (B1, Inr _) \<Rightarrow>
          (bump_nonce (tx_sender tx)
             (add_balance (tx_sender tx) (- (gas_used * tx_fee_per_gas tx)) B1),
           Inr \<lparr>rc_tx_hash = tx_id cr tx, rc_status = 0, rc_gas_used = gas_used,
                rc_error_message = err, rc_logs = [], rc_contract_address = []\<rparr>))"

text \<open>\<open>if gas_refund > 0: ...\<close> in the two branches that can give gas back.\<close>

definition refund_gas :: "transaction \<Rightarrow> int \<Rightarrow> accounts \<Rightarrow> accounts" where
  "refund_gas tx gas_refund J =
     (if gas_refund > 0
      then add_balance (tx_sender tx) (gas_refund * tx_fee_per_gas tx) J else J)"

definition success_receipt :: "'a crypto_scheme \<Rightarrow> transaction \<Rightarrow> int \<Rightarrow> string \<Rightarrow> receipt" where
  "success_receipt cr tx gas_used addr =
     \<lparr>rc_tx_hash = tx_id cr tx, rc_status = 1, rc_gas_used = gas_used, rc_error_message = [],
      rc_logs = [], rc_contract_address = addr\<rparr>"

definition data_bytes :: "transaction \<Rightarrow> string" where
  "data_bytes tx = (case tx_data tx of None \<Rightarrow> [] | Some d \<Rightarrow> d)"

definition deploy_branch ::
  "'a crypto_scheme \<Rightarrow> transaction \<Rightarrow> accounts \<Rightarrow> accounts \<times> (exn + receipt)" where
  "deploy_branch cr tx J =
     (let addr = derive_contract_address cr (tx_sender tx) (tx_nonce tx);
          code_gas = int (length (data_bytes tx)) * GAS_PER_BYTE in
      if code_gas > tx_gas_limit tx
      then rollback_and_refund cr tx ''Out of gas (Code size exceeded limit)'' (tx_gas_limit tx) J
      else case acc_get addr J of
             (J1, existing) \<Rightarrow>
               if (case existing of None \<Rightarrow> False | Some a \<Rightarrow> has_code a)
               then rollback_and_refund cr tx ''Contract collision'' (tx_gas_limit tx) J1
               else let J2 = create_contract addr (tx_data tx) (tx_amount tx) J1;
                        J3 = refund_gas tx (tx_gas_limit tx - code_gas) J2
                    in (commit_journal J3, Inr (success_receipt cr tx code_gas addr)))"

definition call_branch ::
  "'a ext_scheme \<Rightarrow> transaction \<Rightarrow> string \<Rightarrow> accounts \<Rightarrow> accounts \<times> (exn + receipt)" where
  "call_branch E tx rcv J =
     (case internal_call E J (tx_sender tx) rcv (tx_amount tx) (JStr (data_bytes tx))
             (tx_gas_limit tx) 0 True of
        (J1, Inl e) \<Rightarrow> (J1, Inl e)
      | (J1, Inr (Exec_fail e g)) \<Rightarrow> rollback_and_refund E tx e g J1
      | (J1, Inr (Exec_ok g ts sto)) \<Rightarrow>
          (commit_journal (refund_gas tx (tx_gas_limit tx - g) J1),
           Inr (success_receipt E tx g [])))"

definition transfer_branch ::
  "'a crypto_scheme \<Rightarrow> transaction \<Rightarrow> string \<Rightarrow> accounts \<Rightarrow> accounts \<times> (exn + receipt)" where
  "transfer_branch cr tx rcv J =
     (commit_journal (add_balance rcv (tx_amount tx) (get_account rcv J)),
      Inr (success_receipt cr tx (tx_gas_limit tx) []))"

definition receiver_of :: "transaction \<Rightarrow> string" where
  "receiver_of tx = (case tx_receiver tx of None \<Rightarrow> [] | Some r \<Rightarrow> r)"

definition apply_validated_tx ::
  "'a ext_scheme \<Rightarrow> accounts \<Rightarrow> transaction \<Rightarrow> accounts \<times> (exn + receipt)" where
  "apply_validated_tx E A tx =
     (case acc_getitem (tx_sender tx) (journal_new A) of
        (J, Inl e) \<Rightarrow> (J, Inl e)
      | (J, Inr _) \<Rightarrow>
          let J1 = bump_nonce (tx_sender tx) (add_balance (tx_sender tx) (- tx_cost tx) J) in
          if receiver_of tx = [] then deploy_branch E tx J1
          else if data_bytes tx \<noteq> [] then call_branch E tx (receiver_of tx) J1
          else transfer_branch E tx (receiver_of tx) J1)"

definition validate_and_apply_with_status ::
  "'a ext_scheme \<Rightarrow> state \<Rightarrow> transaction \<Rightarrow> state \<times> (exn + validation_status \<times> receipt option)" where
  "validate_and_apply_with_status E st tx =
     (if \<not> amounts_well_formed tx then (st, Inr (MALFORMED, None))
      else case verify_transaction_logic E st tx of
             (st1, status) \<Rightarrow>
               if status \<noteq> VALID then (st1, Inr (status, None))
               else case apply_validated_tx E (st_accounts st1) tx of
                      (A, Inl e) \<Rightarrow> (st1\<lparr>st_accounts := A\<rparr>, Inl e)
                    | (A, Inr r) \<Rightarrow> (st1\<lparr>st_accounts := A\<rparr>, Inr (VALID, Some r)))"

text \<open>\<open>apply_transaction\<close> and its alias \<open>validate_and_apply\<close>.\<close>

definition apply_transaction ::
  "'a ext_scheme \<Rightarrow> state \<Rightarrow> transaction \<Rightarrow> state \<times> (exn + receipt option)" where
  "apply_transaction E st tx =
     (case validate_and_apply_with_status E st tx of
        (st', Inl e) \<Rightarrow> (st', Inl e) | (st', Inr (_, r)) \<Rightarrow> (st', Inr r))"

text \<open>\<open>State.copy\<close>, \<open>snapshot\<close> and \<open>restore\<close>; a deep copy is the value itself.\<close>

definition state_copy :: "state \<Rightarrow> state" where
  "state_copy st = \<lparr>st_accounts = journal_new (st_accounts st), st_chain_id = st_chain_id st\<rparr>"

definition state_snapshot :: "state \<Rightarrow> accounts" where
  "state_snapshot st = st_accounts st"

definition state_restore :: "accounts \<Rightarrow> state \<Rightarrow> state" where
  "state_restore A st = st\<lparr>st_accounts := A\<rparr>"

subsection \<open>Dropping or committing the journal\<close>

abbreviation over :: "accounts \<Rightarrow> accounts \<Rightarrow> bool" where
  "over A J \<equiv> is_layer J \<and> acc_ok (acc_backing J) \<and> acc_view (acc_backing J) = acc_view A"

lemma acc_rollback_backing: "is_layer J \<Longrightarrow> acc_backing (acc_rollback J) = acc_backing J"
  by (cases J) auto

lemma over_new: "acc_ok A \<Longrightarrow> over A (journal_new A)"
  by (simp add: journal_new_def)

lemma over_start: "acc_ok A \<Longrightarrow> over A (bump_nonce s (add_balance s v (acc_touch k (journal_new A))))"
  by (rule keeps_base.bump_nonce_closed, rule keeps_base.add_balance_closed,
      rule keeps_base.touch_closed, rule over_new)

lemma rollback_and_refund_eq:
  assumes "over A J" "acc_view A (tx_sender tx) = Some a"
    and "rollback_and_refund cr tx err g J = (A', out)"
  shows "acc_ok A' \<and> acc_view A' = (acc_view A)(tx_sender tx \<mapsto>
       a\<lparr>acc_balance := acc_balance a - g * tx_fee_per_gas tx, acc_nonce := acc_nonce a + 1\<rparr>)
     \<and> (\<exists>r. out = Inr r \<and> rc_status r = 0 \<and> rc_gas_used r = g \<and> rc_error_message r = err)"
  using assms
  by (auto simp: rollback_and_refund_def Let_def acc_rollback_backing acc_getitem_Some
      view_simps keeps_ok.bump_nonce_closed keeps_ok.add_balance_closed)

lemma acc_ok_layer: "over A J \<Longrightarrow> acc_ok J \<Longrightarrow> acc_ok (commit_journal J)"
  by (simp add: commit_journal_def store.commit_ok)

lemma view_commit [view_simps]: "is_layer J \<Longrightarrow> acc_ok J \<Longrightarrow> acc_view (commit_journal J) = acc_view J"
  by (simp add: commit_journal_def acc_view_commit)

lemma total_supply_commit:
  "is_layer J \<Longrightarrow> acc_ok J \<Longrightarrow> total_supply (commit_journal J) = total_supply J"
  by (rule total_supply_view) (simp_all add: commit_journal_def store.commit_ok acc_view_commit)

subsection \<open>Results of calls\<close>

lemma exec_contract_ok:
  assumes "exec_contract E A c s p v gl d = (A', Inr (Exec_ok g ts sto))"
  shows "g \<le> gl \<and> positive_transfers ts"
proof (cases "\<exists>sto code. runnable E A c d sto code")
  case False
  from exec_contract_skip [OF False assms] show ?thesis by auto
next
  case True
  then obtain sto' code where run: "runnable E A c d sto' code" by blast
  from exec_contract_served [OF run assms] obtain ce where
    s: "serve_child (worker_of E code sto' s v p gl) (sub_calls E c gl d) (get_account c A) = (A', ce)"
    and "settle_result gl ce = Exec_ok g ts sto" by metis
  with settle_success_gas settle_transfers [OF s] show ?thesis by blast
qed

lemma exec_contract_gas:
  assumes "exec_contract E A c s p v gl d = (A', Inr res)" and "0 \<le> gl"
  shows "0 \<le> exec_gas res \<and> exec_gas res \<le> max 1 gl"
proof (cases "\<exists>sto code. runnable E A c d sto code")
  case False
  from exec_contract_skip [OF False assms(1)] assms(2) show ?thesis by auto
next
  case True
  then obtain sto' code where run: "runnable E A c d sto' code" by blast
  from exec_contract_served [OF run assms(1)] obtain ce where
    s: "serve_child (worker_of E code sto' s v p gl) (sub_calls E c gl d) (get_account c A) = (A', ce)"
    and "settle_result gl ce = res" by metis
  with settle_gas [OF s assms(2)] show ?thesis by blast
qed

text \<open>A call that went through: the contract ran and its transfers were covered.\<close>

lemma internal_call_result:
  assumes "internal_call E A s r v p gl d t = (A', Inr res)"
  shows "(\<exists>e. res = Exec_fail e gl \<and> (A' = acc_touch r A \<or> A' = A \<or> A' = acc_touch s (acc_touch r A)))
    \<or> (\<exists>A4 A5 res5. exec_contract E A4 r s p v gl d = (A5, Inr res5)
         \<and> finish_call t s r v A5 res5 = (A', Inr res))"
  using assms
  by (auto simp: internal_call.simps [of E A s r v p gl d t] acc_get_eq acc_getitem_def Let_def
      split: if_splits option.splits sum.splits prod.splits)

lemma finish_call_result:
  "finish_call t s r v A res = (A', Inr res') \<Longrightarrow>
     res' = res \<or> (\<exists>e. res' = Exec_fail e (exec_gas res))"
  by (auto simp: finish_call_def split: exec_result.splits if_splits sum.splits)

lemma internal_call_gas:
  assumes "internal_call E A s r v p gl d t = (A', Inr res)" and "0 \<le> gl"
  shows "0 \<le> exec_gas res \<and> exec_gas res \<le> max 1 gl"
  using internal_call_result [OF assms(1)]
proof (elim disjE exE conjE)
  fix A4 A5 res5
  assume ex: "exec_contract E A4 r s p v gl d = (A5, Inr res5)"
    and f: "finish_call t s r v A5 res5 = (A', Inr res)"
  from finish_call_result [OF f] exec_contract_gas [OF ex assms(2)] show ?thesis by auto
qed (use assms(2) in auto)

lemma internal_call_ok_gas:
  assumes "internal_call E A s r v p gl d t = (A', Inr (Exec_ok g ts sto))"
  shows "g \<le> gl"
  using internal_call_result [OF assms]
proof (elim disjE exE conjE)
  fix A4 A5 res5
  assume ex: "exec_contract E A4 r s p v gl d = (A5, Inr res5)"
    and f: "finish_call t s r v A5 res5 = (A', Inr (Exec_ok g ts sto))"
  from finish_call_result [OF f] ex exec_contract_ok [of E A4 r s p v gl d A5] show ?thesis by auto
qed auto

subsection \<open>What an applied transaction does to the sum of all balances\<close>

lemma total_supply_refund:
  "acc_ok J \<Longrightarrow> acc_view J (tx_sender tx) \<noteq> None \<Longrightarrow>
   total_supply (refund_gas tx g J) = total_supply J + (if g > 0 then g * tx_fee_per_gas tx else 0)"
  by (simp add: refund_gas_def supply_simps)

context access_closed
begin

lemma refund_closed: "I J \<Longrightarrow> I (refund_gas tx g J)"
  by (simp add: refund_gas_def add_balance_closed)

end

lemma total_supply_rolled_back:
  assumes "acc_ok A" "over A J" "acc_view A (tx_sender tx) = Some a"
    and "rollback_and_refund cr tx err g J = (A', Inr r)"
  shows "acc_ok A' \<and> total_supply A' = total_supply A - rc_gas_used r * tx_fee_per_gas tx"
proof -
  from rollback_and_refund_eq [OF assms(2-4)] have
    v: "acc_ok A'" "acc_view A' = (acc_view A)(tx_sender tx \<mapsto> a\<lparr>acc_balance := acc_balance a
          - g * tx_fee_per_gas tx, acc_nonce := acc_nonce a + 1\<rparr>)" "rc_gas_used r = g" by auto
  let ?B = "acc_put (tx_sender tx) (a\<lparr>acc_balance := acc_balance a
          - g * tx_fee_per_gas tx, acc_nonce := acc_nonce a + 1\<rparr>) A"
  have "total_supply A' = total_supply ?B"
    using v assms(1) by (intro total_supply_view) auto
  with v assms(1,3) show ?thesis by (simp add: supply_simps balance_of_def)
qed

text \<open>The journal when a branch starts: the sender has paid.\<close>

definition paid :: "transaction \<Rightarrow> accounts \<Rightarrow> accounts \<Rightarrow> bool" where
  "paid tx A J \<longleftrightarrow> acc_ok A \<and> over A J \<and> acc_ok J \<and> acc_view A (tx_sender tx) \<noteq> None
     \<and> acc_view J (tx_sender tx) \<noteq> None \<and> total_supply J = total_supply A - tx_cost tx"

definition charged :: "transaction \<Rightarrow> accounts \<Rightarrow> accounts \<Rightarrow> receipt \<Rightarrow> bool" where
  "charged tx A A' r \<longleftrightarrow>
     acc_ok A' \<and> total_supply A' = total_supply A - rc_gas_used r * tx_fee_per_gas tx"

lemma paid_rolled_back:
  "paid tx A J \<Longrightarrow> over A J' \<Longrightarrow> rollback_and_refund cr tx err g J' = (A', Inr r) \<Longrightarrow> charged tx A A' r"
  unfolding paid_def charged_def by (meson total_supply_rolled_back not_None_eq)

lemma paid_committed:
  assumes "paid tx A J" "over A J'" "acc_ok J'" "acc_view J' (tx_sender tx) \<noteq> None"
    and "total_supply J' = total_supply J + tx_amount tx" "g \<le> tx_gas_limit tx"
  shows "charged tx A (commit_journal (refund_gas tx (tx_gas_limit tx - g) J')) (success_receipt cr tx g addr)"
proof -
  let ?K = "refund_gas tx (tx_gas_limit tx - g) J'"
  have k: "over A ?K" "acc_ok ?K"
    using assms(2,3) by (auto simp: keeps_base.refund_closed keeps_ok.refund_closed)
  have "total_supply ?K = total_supply A - g * tx_fee_per_gas tx"
    using assms by (auto simp: total_supply_refund paid_def tx_cost_def algebra_simps)
  with k show ?thesis
    by (simp add: charged_def total_supply_commit acc_ok_layer success_receipt_def)
qed

lemma charged_deploy:
  assumes p: "paid tx A J" and run: "deploy_branch cr tx J = (A', Inr r)"
  shows "charged tx A A' r"
proof -
  define addr where "addr = derive_contract_address cr (tx_sender tx) (tx_nonce tx)"
  define cg where "cg = int (length (data_bytes tx)) * GAS_PER_BYTE"
  obtain J1 ex where g: "acc_get addr J = (J1, ex)" by fastforce
  then have J1: "J1 = fst (acc_get addr J)" by simp
  have j1: "over A J1" "acc_ok J1" "acc_view J1 (tx_sender tx) \<noteq> None" "total_supply J1 = total_supply J"
    using p unfolding J1 paid_def
    by (auto simp: keeps_base.get_closed keeps_ok.get_closed acc_get_eq supply_simps keeps_base.touch_closed)
  consider (gas) "cg > tx_gas_limit tx"
      "rollback_and_refund cr tx ''Out of gas (Code size exceeded limit)'' (tx_gas_limit tx) J = (A', Inr r)"
    | (clash) "rollback_and_refund cr tx ''Contract collision'' (tx_gas_limit tx) J1 = (A', Inr r)"
    | (paid) "cg \<le> tx_gas_limit tx"
      "A' = commit_journal (refund_gas tx (tx_gas_limit tx - cg)
              (create_contract addr (tx_data tx) (tx_amount tx) J1))" "r = success_receipt cr tx cg addr"
  proof (cases "cg > tx_gas_limit tx")
    case True
    with run gas show ?thesis by (simp add: deploy_branch_def Let_def cg_def)
  next
    case False
    with run g clash paid show ?thesis
      by (cases "case ex of None \<Rightarrow> False | Some a \<Rightarrow> has_code a")
        (simp_all add: deploy_branch_def Let_def cg_def addr_def)
  qed
  then show ?thesis
  proof cases
    case gas
    with p show ?thesis by (meson paid_rolled_back paid_def)
  next
    case clash
    with p j1 show ?thesis by (meson paid_rolled_back)
  next
    case paid
    let ?J2 = "create_contract addr (tx_data tx) (tx_amount tx) J1"
    have "over A ?J2" using j1(1) by (rule keeps_base.create_closed)
    moreover have "acc_ok ?J2" using j1(2) by (rule keeps_ok.create_closed)
    moreover have "acc_view ?J2 (tx_sender tx) \<noteq> None"
      using j1(3) by (rule keeps_domain.create_closed)
    ultimately show ?thesis using p paid j1
      by (auto intro!: paid_committed simp: supply_simps)
  qed
qed

lemma charged_call:
  assumes p: "paid tx A J" and run: "call_branch E tx rcv J = (A', Inr r)"
  shows "charged tx A A' r"
proof -
  obtain J1 out where c: "internal_call E J (tx_sender tx) rcv (tx_amount tx)
      (JStr (data_bytes tx)) (tx_gas_limit tx) 0 True = (J1, out)" by fastforce
  then have J1: "J1 = fst (internal_call E J (tx_sender tx) rcv (tx_amount tx)
      (JStr (data_bytes tx)) (tx_gas_limit tx) 0 True)" by simp
  have j: "over A J" "acc_ok J" "acc_view J (tx_sender tx) \<noteq> None" using p by (auto simp: paid_def)
  have j1: "over A J1" "acc_ok J1" "acc_view J1 (tx_sender tx) \<noteq> None"
    unfolding J1 by (rule keeps_base.call_closed [OF j(1)], rule keeps_ok.call_closed [OF j(2)],
        rule keeps_domain.call_closed [OF j(3)])
  from run c obtain res where out: "out = Inr res" by (auto simp: call_branch_def split: sum.splits)
  have tot: "total_supply J1 = total_supply J + (if exec_success res then tx_amount tx else 0)"
    using total_supply_calls(1) [OF j(2) c] out by simp
  show ?thesis
  proof (cases res)
    case (Exec_fail e g)
    with run c out have "rollback_and_refund E tx e g J1 = (A', Inr r)" by (simp add: call_branch_def)
    with p j1 show ?thesis by (meson paid_rolled_back)
  next
    case (Exec_ok g ts sto)
    with c out have "g \<le> tx_gas_limit tx" using internal_call_ok_gas by blast
    with run c out Exec_ok p j1 tot show ?thesis
      by (auto simp: call_branch_def intro!: paid_committed)
  qed
qed

lemma refund_none [simp]: "refund_gas tx 0 J = J"
  by (simp add: refund_gas_def)

lemma charged_transfer:
  assumes p: "paid tx A J" and run: "transfer_branch cr tx rcv J = (A', Inr r)"
  shows "charged tx A A' r"
proof -
  let ?J = "add_balance rcv (tx_amount tx) (get_account rcv J)"
  have j: "over A J" "acc_ok J" "acc_view J (tx_sender tx) \<noteq> None" using p by (auto simp: paid_def)
  have "over A ?J" using j(1) by (intro keeps_base.add_balance_closed keeps_base.get_account_closed)
  moreover have "acc_ok ?J" using j(2) by (intro keeps_ok.add_balance_closed keeps_ok.get_account_closed)
  moreover have "acc_view ?J (tx_sender tx) \<noteq> None"
    using j(3) by (intro keeps_domain.add_balance_closed keeps_domain.get_account_closed)
  moreover have "total_supply ?J = total_supply J + tx_amount tx"
    using j(2) by (simp add: supply_simps keeps_ok.get_account_closed)
  ultimately have "charged tx A (commit_journal (refund_gas tx (tx_gas_limit tx - tx_gas_limit tx) ?J))
      (success_receipt cr tx (tx_gas_limit tx) [])"
    using p by (intro paid_committed) auto
  with run show ?thesis by (simp add: transfer_branch_def)
qed

lemma paid_start:
  assumes "acc_ok A" "acc_view A (tx_sender tx) \<noteq> None"
  shows "paid tx A (bump_nonce (tx_sender tx) (add_balance (tx_sender tx) (- tx_cost tx)
           (acc_touch (tx_sender tx) (journal_new A))))"
proof -
  let ?N = "journal_new A"
  have ok: "acc_ok ?N" and v: "acc_view ?N (tx_sender tx) \<noteq> None"
    using assms by (simp_all add: store.start_ok store.start_view)
  have n: "total_supply ?N = total_supply A"
    using assms(1) ok by (intro total_supply_view) (simp_all add: store.start_view)
  show ?thesis
    using assms ok v n over_start [OF assms(1)]
    by (auto simp: paid_def supply_simps keeps_ok.add_balance_closed keeps_ok.bump_nonce_closed
        view_simps store.start_view split: option.splits)
qed

lemma charged_apply:
  assumes "acc_ok A" "acc_view A (tx_sender tx) \<noteq> None"
    and "apply_validated_tx E A tx = (A', Inr r)"
  shows "charged tx A A' r"
proof -
  let ?J = "bump_nonce (tx_sender tx) (add_balance (tx_sender tx) (- tx_cost tx)
           (acc_touch (tx_sender tx) (journal_new A)))"
  from assms(2) obtain a where a: "acc_view A (tx_sender tx) = Some a" by blast
  have p: "paid tx A ?J" using assms(1,2) by (rule paid_start)
  from assms(3) a consider "deploy_branch E tx ?J = (A', Inr r)"
    | rcv where "call_branch E tx rcv ?J = (A', Inr r)"
    | rcv where "transfer_branch E tx rcv ?J = (A', Inr r)"
    by (auto simp: apply_validated_tx_def acc_getitem_def store.start_view Let_def split: if_splits)
  then show ?thesis using p charged_deploy charged_call charged_transfer by cases blast+
qed

lemma verified_VALID:
  assumes "verify_transaction_logic cr st tx = (st1, VALID)"
  shows "tx_verify cr tx \<and> tx_chain_id tx = st_chain_id st
    \<and> st1 = st\<lparr>st_accounts := get_account (tx_sender tx) (st_accounts st)\<rparr>
    \<and> tx_cost tx \<le> balance_of (st_accounts st) (tx_sender tx)
    \<and> nonce_of (st_accounts st1) (tx_sender tx) = tx_nonce tx"
  using assms by (auto simp: verify_transaction_logic_def Let_def split: if_splits)

lemma verify_state:
  "verify_transaction_logic cr st tx = (st1, s) \<Longrightarrow>
     st1 = st \<or> st1 = st\<lparr>st_accounts := get_account (tx_sender tx) (st_accounts st)\<rparr>"
  by (auto simp: verify_transaction_logic_def Let_def split: if_splits)

end
