(* ===== verification/Demo.thy ===== *)
theory Demo
  imports StateTx
begin

section \<open>A concrete instance of the parameters\<close>

text \<open>
  Small executable stand-ins for the third-party code, used by the theorems that show a
  property at work on concrete data. The hash writes the length of its input in hexadecimal,
  a signature is the key's text and the length of the message, the trie root is a hash of the
  pairs. The contracts behave by their code text:
  \<^item> \<open>keep\<close> executes one opcode and ends with an empty storage,
  \<^item> \<open>fail\<close> raises an exception, \<open>loop\<close> executes opcodes until the meter stops it,
  \<^item> \<open>lend\<close> calls the contract at \<open>cc\<close> with all the value it received and then raises,
  \<^item> \<open>try\<close> calls the contract at \<open>bb\<close> with 10 coins and ignores a failure,
  \<^item> \<open>drain\<close> calls the contract at \<open>bb\<close> with the amount -50,
  \<^item> \<open>pay\<close> transfers one coin to the address of forty digits 7,
  \<^item> \<open>number\<close> ends with \<open>storage\<close> bound to an integer.
\<close>

definition demo_hash :: "string \<Rightarrow> string" where
  "demo_hash s = show_base 16 (int (length s))"

definition demo_sig :: "string \<Rightarrow> string \<Rightarrow> string" where
  "demo_sig sk m = sk @ show_base 10 (int (length m))"

definition demo_address :: string where
  "demo_address = replicate 40 (CHR ''7'')"

fun burn_gas :: "nat \<Rightarrow> behaviour" where
  "burn_gas 0 = Stalled"
| "burn_gas (Suc n) = Opcode (\<lambda>raised. if raised then Uncaught_gas else burn_gas n)"

definition demo_exec :: "string \<Rightarrow> json dict \<Rightarrow> string \<Rightarrow> int \<Rightarrow> json \<Rightarrow> behaviour" where
  "demo_exec code sto sndr v p =
     (if code = ''keep'' then Opcode (\<lambda>raised. if raised then Uncaught_gas else Finished (JObj []))
      else if code = ''loop'' then burn_gas 1000
      else if code = ''lend'' then Call_contract (JStr ''cc'') p (JInt v) (\<lambda>_. Uncaught ''bye'')
      else if code = ''try'' then Call_contract (JStr ''bb'') p (JInt 10) (\<lambda>_. Finished (JObj []))
      else if code = ''drain'' then Call_contract (JStr ''bb'') p (JInt (- 50)) (\<lambda>_. Finished (JObj []))
      else if code = ''pay'' then
        Transfer_out (JStr demo_address) (JInt 1) (\<lambda>r. if r then Uncaught ''no'' else Finished (JObj []))
      else if code = ''number'' then Finished (JInt 5)
      else Uncaught ''fail'')"

definition demo_ext :: ext where
  "demo_ext =
     \<lparr>sha256_hex = demo_hash, nacl_sha256 = (\<lambda>s. replicate 64 (CHR ''e'')),
      ed25519_verify = (\<lambda>vk m s. s = demo_sig vk m), ed25519_sign = demo_sig,
      ed25519_public = (\<lambda>sk. sk),
      trie_root = (\<lambda>ps. demo_hash (concat (map (\<lambda>(k, v). k @ v) ps))),
      ast_parse = (\<lambda>code. Inr (Other_node [])), exec_code = demo_exec\<rparr>"

definition demo_account :: "int \<Rightarrow> string option \<Rightarrow> account" where
  "demo_account b code = \<lparr>acc_balance = b, acc_nonce = 0, acc_code = code, acc_storage = JObj []\<rparr>"

definition demo_accounts :: accounts where
  "demo_accounts = Plain
     [(''aa'', demo_account 1000 None), (''bb'', demo_account 50 (Some ''keep'')),
      (''cc'', demo_account 0 (Some ''keep'')), (''dd'', demo_account 20 (Some ''drain'')),
      (''ee'', demo_account 7 (Some ''fail'')), (''ff'', demo_account 3 (Some ''loop''))]"

definition demo_state :: state where
  "demo_state = \<lparr>st_accounts = demo_accounts, st_chain_id = ''main''\<rparr>"

text \<open>A transaction of \<open>aa\<close>, signed.\<close>

definition demo_tx :: "string option \<Rightarrow> int \<Rightarrow> int \<Rightarrow> int \<Rightarrow> int \<Rightarrow> string option \<Rightarrow> transaction" where
  "demo_tx rcv amt n gl fpg dat =
     (let t = new_transaction 0 ''aa'' rcv amt n gl fpg dat ''main'' None (Some (10 ^ 12))
      in case tx_sign demo_ext ''aa'' t of Inl _ \<Rightarrow> t | Inr t' \<Rightarrow> t')"

text \<open>The state after a transaction on \<open>demo_state\<close>, its receipt, and whether it was \<open>VALID\<close>.\<close>

definition demo_run :: "transaction \<Rightarrow> state" where
  "demo_run tx = fst (validate_and_apply_with_status demo_ext demo_state tx)"

definition demo_receipt :: "transaction \<Rightarrow> receipt" where
  "demo_receipt tx =
     (case snd (validate_and_apply_with_status demo_ext demo_state tx) of
        Inr (_, Some r) \<Rightarrow> r | _ \<Rightarrow> success_receipt demo_ext tx 0 [])"

definition demo_valid :: "transaction \<Rightarrow> bool" where
  "demo_valid tx =
     (case snd (validate_and_apply_with_status demo_ext demo_state tx) of
        Inr (s, Some r) \<Rightarrow> s = VALID | _ \<Rightarrow> False)"

lemma demo_run_eq:
  assumes "demo_valid tx"
  shows "validate_and_apply_with_status demo_ext demo_state tx
           = (demo_run tx, Inr (VALID, Some (demo_receipt tx)))"
proof -
  obtain st out where v: "validate_and_apply_with_status demo_ext demo_state tx = (st, out)" by fastforce
  with assms obtain r where "out = Inr (VALID, Some r)"
    by (auto simp: demo_valid_def split: sum.splits option.splits)
  with v show ?thesis by (simp add: demo_run_def demo_receipt_def)
qed

lemma demo_state_ok: "acc_ok (st_accounts demo_state)"
  by (simp add: demo_state_def demo_accounts_def)

end
