(* ===== verification/StateProps.thy ===== *)
theory StateProps
  imports Demo
begin

section \<open>Properties of transactions on the state\<close>

text \<open>
  What a validated transaction does, by branch (\<open>apply_cases\<close>), and from it the guarantees a
  caller of \<open>State\<close> relies on: conservation of coins, atomic failure, nonces and replay, the
  effect of transfers and deployments, solvency and its limits.
\<close>

subsection \<open>The four ways a transaction is applied\<close>

definition started :: "transaction \<Rightarrow> accounts \<Rightarrow> accounts" where
  "started tx A = bump_nonce (tx_sender tx) (add_balance (tx_sender tx) (- tx_cost tx)
     (acc_touch (tx_sender tx) (journal_new A)))"

lemma started_view:
  "acc_view A (tx_sender tx) = Some a \<Longrightarrow> acc_view (started tx A) = (acc_view A)(tx_sender tx \<mapsto>
     a\<lparr>acc_balance := acc_balance a - tx_cost tx, acc_nonce := acc_nonce a + 1\<rparr>)"
  by (simp add: started_def view_simps store.start_view)

lemma started_over: "acc_ok A \<Longrightarrow> over A (started tx A)"
  unfolding started_def by (rule over_start)

lemma started_ok: "acc_ok A \<Longrightarrow> acc_ok (started tx A)"
  unfolding started_def
  by (intro keeps_ok.bump_nonce_closed keeps_ok.add_balance_closed acc_ok_touch store.start_ok)

definition gas_charged :: "transaction \<Rightarrow> account \<Rightarrow> int \<Rightarrow> account" where
  "gas_charged tx a g =
     a\<lparr>acc_balance := acc_balance a - g * tx_fee_per_gas tx, acc_nonce := acc_nonce a + 1\<rparr>"

lemma rollback_cases:
  assumes "over A J" "acc_view A (tx_sender tx) = Some a"
    and "rollback_and_refund cr tx err g J = (A', Inr r)"
  shows "rc_status r = 0 \<and> rc_gas_used r = g
    \<and> acc_view A' = (acc_view A)(tx_sender tx \<mapsto> gas_charged tx a g)"
  using rollback_and_refund_eq [OF assms] by (auto simp: gas_charged_def)

text \<open>The two reasons for which a deployment fails.\<close>

definition deploy_refused :: "'a crypto_scheme \<Rightarrow> transaction \<Rightarrow> accounts \<Rightarrow> bool" where
  "deploy_refused cr tx J =
     (tx_gas_limit tx < int (length (data_bytes tx)) * GAS_PER_BYTE
      \<or> (case acc_view J (derive_contract_address cr (tx_sender tx) (tx_nonce tx)) of
            None \<Rightarrow> False | Some x \<Rightarrow> has_code x))"

lemma apply_cases:
  assumes ok: "acc_ok A" and a: "acc_view A (tx_sender tx) = Some a" and wf: "amounts_well_formed tx"
    and run: "apply_validated_tx E A tx = (A', Inr r)"
  obtains (rolled_back) "rc_status r = 0" "0 \<le> rc_gas_used r" "rc_gas_used r \<le> max 1 (tx_gas_limit tx)"
      "acc_view A' = (acc_view A)(tx_sender tx \<mapsto> gas_charged tx a (rc_gas_used r))"
      "if receiver_of tx = [] then deploy_refused E tx (started tx A) else data_bytes tx \<noteq> []"
    | (deployed) addr cg where "receiver_of tx = []"
      "addr = derive_contract_address E (tx_sender tx) (tx_nonce tx)"
      "cg = int (length (data_bytes tx)) * GAS_PER_BYTE" "cg \<le> tx_gas_limit tx"
      "\<forall>x. acc_view (started tx A) addr = Some x \<longrightarrow> \<not> has_code x"
      "acc_view A' = acc_view (refund_gas tx (tx_gas_limit tx - cg)
         (create_contract addr (tx_data tx) (tx_amount tx) (started tx A)))"
      "r = success_receipt E tx cg addr"
    | (called) J g ts sto where "receiver_of tx \<noteq> []" "data_bytes tx \<noteq> []"
      "internal_call E (started tx A) (tx_sender tx) (receiver_of tx) (tx_amount tx)
         (JStr (data_bytes tx)) (tx_gas_limit tx) 0 True = (J, Inr (Exec_ok g ts sto))"
      "acc_view A' = acc_view (refund_gas tx (tx_gas_limit tx - g) J)"
      "r = success_receipt E tx g []"
    | (transferred) "receiver_of tx \<noteq> []" "data_bytes tx = []"
      "acc_view A' = acc_view (add_balance (receiver_of tx) (tx_amount tx)
         (get_account (receiver_of tx) (started tx A)))"
      "r = success_receipt E tx (tx_gas_limit tx) []"
proof -
  let ?J = "started tx A"
  have over: "over A ?J" "acc_ok ?J" using ok by (simp_all add: started_over started_ok)
  have gl: "0 \<le> tx_gas_limit tx" using wf by (simp add: amounts_well_formed_def)
  have unf: "apply_validated_tx E A tx =
      (if receiver_of tx = [] then deploy_branch E tx ?J
       else if data_bytes tx \<noteq> [] then call_branch E tx (receiver_of tx) ?J
       else transfer_branch E tx (receiver_of tx) ?J)"
    using a by (simp add: apply_validated_tx_def acc_getitem_def store.start_view started_def Let_def)
  consider (D) "receiver_of tx = []" | (C) "receiver_of tx \<noteq> []" "data_bytes tx \<noteq> []"
    | (T) "receiver_of tx \<noteq> []" "data_bytes tx = []" by blast
  then show thesis
  proof cases
    case T
    have "over A (add_balance (receiver_of tx) (tx_amount tx) (get_account (receiver_of tx) ?J))"
      using over(1) by (intro keeps_base.add_balance_closed keeps_base.get_account_closed)
    moreover have "acc_ok (add_balance (receiver_of tx) (tx_amount tx) (get_account (receiver_of tx) ?J))"
      using over(2) by (intro keeps_ok.add_balance_closed keeps_ok.get_account_closed)
    ultimately show thesis using T run unf transferred
      by (auto simp: transfer_branch_def view_commit)
  next
    case C
    obtain J1 out where c: "internal_call E ?J (tx_sender tx) (receiver_of tx) (tx_amount tx)
        (JStr (data_bytes tx)) (tx_gas_limit tx) 0 True = (J1, out)" by fastforce
    have j1: "over A J1" "acc_ok J1"
      using keeps_base.call_closed(1) [OF over(1)] keeps_ok.call_closed(1) [OF over(2)] c
      by (metis fst_conv)+
    from run unf C c obtain res where out: "out = Inr res"
      by (auto simp: call_branch_def split: sum.splits)
    show thesis
    proof (cases res)
      case (Exec_fail e g)
      with run unf C c out have "rollback_and_refund E tx e g J1 = (A', Inr r)"
        by (simp add: call_branch_def)
      from rollback_cases [OF j1(1) a this] internal_call_gas [OF c [unfolded out] gl] Exec_fail C
      show thesis by (intro rolled_back) auto
    next
      case (Exec_ok g ts sto)
      have "over A (refund_gas tx (tx_gas_limit tx - g) J1)" "acc_ok (refund_gas tx (tx_gas_limit tx - g) J1)"
        using j1 by (auto simp: keeps_base.refund_closed keeps_ok.refund_closed)
      with run unf C c out Exec_ok show thesis
        by (intro called) (auto simp: call_branch_def view_commit)
    qed
  next
    case D
    define addr where "addr = derive_contract_address E (tx_sender tx) (tx_nonce tx)"
    define cg where "cg = int (length (data_bytes tx)) * GAS_PER_BYTE"
    obtain J1 ex where g: "acc_get addr ?J = (J1, ex)" by fastforce
    then have J1: "J1 = (if acc_view ?J addr = None then ?J else acc_touch addr ?J)" "ex = acc_view ?J addr"
      using acc_get_view by blast+
    have j1: "over A J1" "acc_ok J1"
      using over keeps_base.get_closed [OF over(1), of addr] keeps_ok.get_closed [OF over(2), of addr] g
      by (metis fst_conv)+
    have run': "deploy_branch E tx ?J = (A', Inr r)" using run unf D by simp
    show thesis
    proof (cases "cg > tx_gas_limit tx")
      case True
      with run' have "rollback_and_refund E tx ''Out of gas (Code size exceeded limit)'' (tx_gas_limit tx) ?J = (A', Inr r)"
        by (simp add: deploy_branch_def Let_def cg_def)
      from rollback_cases [OF over(1) a this] gl D True show thesis
        by (intro rolled_back) (auto simp: deploy_refused_def cg_def)
    next
      case small: False
      show thesis
      proof (cases "case ex of None \<Rightarrow> False | Some a \<Rightarrow> has_code a")
        case True
        with small run' g have "rollback_and_refund E tx ''Contract collision'' (tx_gas_limit tx) J1 = (A', Inr r)"
          by (simp add: deploy_branch_def Let_def cg_def addr_def)
        from rollback_cases [OF j1(1) a this] gl D True J1 show thesis
          by (intro rolled_back) (auto simp: deploy_refused_def addr_def)
      next
        case False
        let ?K = "refund_gas tx (tx_gas_limit tx - cg) (create_contract addr (tx_data tx) (tx_amount tx) J1)"
        let ?K' = "refund_gas tx (tx_gas_limit tx - cg) (create_contract addr (tx_data tx) (tx_amount tx) ?J)"
        have k: "over A ?K" "acc_ok ?K"
          using j1 by (auto simp: keeps_base.refund_closed keeps_base.create_closed
              keeps_ok.refund_closed keeps_ok.create_closed)
        have "acc_view ?K = acc_view ?K'"
          by (auto simp: J1 refund_gas_def view_simps split: option.splits)
        moreover have "A' = commit_journal ?K" "r = success_receipt E tx cg addr"
          using False small run' g by (simp_all add: deploy_branch_def Let_def cg_def addr_def)
        ultimately show thesis using D small False J1 k
          by (intro deployed [OF _ addr_def cg_def]) (auto simp: view_commit)
      qed
    qed
  qed
qed

text \<open>The transaction as \<open>validate_and_apply_with_status\<close> accepts it.\<close>

lemma accepted:
  assumes "validate_and_apply_with_status E st tx = (st', Inr (VALID, Some r))"
  obtains A where "A = get_account (tx_sender tx) (st_accounts st)" "amounts_well_formed tx"
    "tx_verify E tx" "tx_chain_id tx = st_chain_id st" "st_chain_id st' = st_chain_id st"
    "tx_cost tx \<le> balance_of (st_accounts st) (tx_sender tx)"
    "nonce_of A (tx_sender tx) = tx_nonce tx"
    "apply_validated_tx E A tx = (st_accounts st', Inr r)"
  using assms verified_VALID [of E st tx]
  by (auto simp: validate_and_apply_with_status_def split: if_splits prod.splits sum.splits)

lemma get_account_Some:
  "\<exists>a. acc_view (get_account k A) k = Some a"
  using get_account_present [of k A] by blast


subsection \<open>The effect of an accepted transaction\<close>

lemma acc_ok_accounts:
  assumes "acc_ok (st_accounts st)" "validate_and_apply_with_status E st tx = (st', Inr (s, r))"
  shows "acc_ok (st_accounts st') \<and> (s = VALID \<longleftrightarrow> r \<noteq> None) \<and>
    total_supply (st_accounts st') = total_supply (st_accounts st)
      - (case r of None \<Rightarrow> 0 | Some rc \<Rightarrow> rc_gas_used rc * tx_fee_per_gas tx)"
proof (cases "s = VALID")
  case False
  with assms have "r = None" "st' = st \<or> st' = st\<lparr>st_accounts := get_account (tx_sender tx) (st_accounts st)\<rparr>"
    using verify_state [of E st tx] by (auto simp: validate_and_apply_with_status_def
        split: if_splits prod.splits sum.splits)
  with False assms(1) show ?thesis by (auto simp: supply_simps keeps_ok.get_account_closed)
next
  case True
  with assms(2) obtain rc where r: "r = Some rc"
    by (auto simp: validate_and_apply_with_status_def split: if_splits prod.splits sum.splits)
  from accepted [of E st tx st' rc] assms(2) True r obtain A where
    A: "A = get_account (tx_sender tx) (st_accounts st)"
      "apply_validated_tx E A tx = (st_accounts st', Inr rc)" by metis
  have "acc_ok A" using A assms(1) by (simp add: keeps_ok.get_account_closed)
  from charged_apply [OF this _ A(2)] A assms(1) True r show ?thesis
    by (simp add: charged_def supply_simps)
qed

text \<open>The account under an address, as \<open>get_account\<close> makes it.\<close>

definition account_at :: "(string \<rightharpoonup> account) \<Rightarrow> string \<Rightarrow> account" where
  "account_at S k = (case S k of None \<Rightarrow> empty_account | Some a \<Rightarrow> a)"

definition with_balance :: "int \<Rightarrow> account \<Rightarrow> account" where
  "with_balance v a = a\<lparr>acc_balance := acc_balance a + v\<rparr>"

text \<open>The accounts after the sender has paid.\<close>

definition sender_paid :: "transaction \<Rightarrow> (string \<rightharpoonup> account) \<Rightarrow> (string \<rightharpoonup> account)" where
  "sender_paid tx S = S(tx_sender tx \<mapsto>
     (account_at S (tx_sender tx))\<lparr>acc_balance := acc_balance (account_at S (tx_sender tx)) - tx_cost tx,
        acc_nonce := acc_nonce (account_at S (tx_sender tx)) + 1\<rparr>)"

lemma get_account_at: "(acc_view (get_account k A))(k \<mapsto> x) = (acc_view A)(k \<mapsto> x)"
  "acc_view (get_account k A) k = Some (account_at (acc_view A) k)"
  by (auto simp: view_simps account_at_def fun_eq_iff split: option.splits)

lemma accepted_started:
  assumes "acc_ok (st_accounts st)" "validate_and_apply_with_status E st tx = (st', Inr (VALID, Some r))"
  obtains A where "acc_ok A" "amounts_well_formed tx"
    "acc_view A (tx_sender tx) = Some (account_at (acc_view (st_accounts st)) (tx_sender tx))"
    "\<And>x. (acc_view A)(tx_sender tx \<mapsto> x) = (acc_view (st_accounts st))(tx_sender tx \<mapsto> x)"
    "acc_view (started tx A) = sender_paid tx (acc_view (st_accounts st))"
    "apply_validated_tx E A tx = (st_accounts st', Inr r)"
proof -
  from accepted [OF assms(2)] obtain A where A: "A = get_account (tx_sender tx) (st_accounts st)"
    "amounts_well_formed tx" "apply_validated_tx E A tx = (st_accounts st', Inr r)" by metis
  have at: "acc_view A (tx_sender tx) = Some (account_at (acc_view (st_accounts st)) (tx_sender tx))"
    unfolding A by (rule get_account_at)
  have upd: "(acc_view A)(tx_sender tx \<mapsto> x) = (acc_view (st_accounts st))(tx_sender tx \<mapsto> x)" for x
    unfolding A by (rule get_account_at)
  show thesis
  proof (rule that [OF _ A(2) at upd _ A(3)])
    show "acc_ok A" using assms(1) by (simp add: A keeps_ok.get_account_closed)
    show "acc_view (started tx A) = sender_paid tx (acc_view (st_accounts st))"
      by (simp add: started_view [OF at] upd sender_paid_def)
  qed
qed

lemma failed_tx_view:
  assumes "acc_ok (st_accounts st)"
    and "validate_and_apply_with_status E st tx = (st', Inr (VALID, Some r))" "rc_status r = 0"
  shows "0 \<le> rc_gas_used r \<and> rc_gas_used r \<le> max 1 (tx_gas_limit tx)
    \<and> acc_view (st_accounts st') = (acc_view (st_accounts st))(tx_sender tx \<mapsto>
        gas_charged tx (account_at (acc_view (st_accounts st)) (tx_sender tx)) (rc_gas_used r))"
proof -
  from accepted_started [OF assms(1,2)] obtain A where A: "acc_ok A" "amounts_well_formed tx"
    "acc_view A (tx_sender tx) = Some (account_at (acc_view (st_accounts st)) (tx_sender tx))"
    "\<And>x. (acc_view A)(tx_sender tx \<mapsto> x) = (acc_view (st_accounts st))(tx_sender tx \<mapsto> x)"
    "apply_validated_tx E A tx = (st_accounts st', Inr r)" by metis
  from A(1,3,2,5) show ?thesis
    by (cases rule: apply_cases) (use assms(3) A(4) in \<open>auto simp: success_receipt_def\<close>)
qed

lemma transfer_view:
  assumes "acc_ok (st_accounts st)"
    and "validate_and_apply_with_status E st tx = (st', Inr (VALID, Some r))"
    and "receiver_of tx \<noteq> []" "data_bytes tx = []"
  shows "rc_status r = 1 \<and> rc_gas_used r = tx_gas_limit tx
    \<and> acc_view (st_accounts st') =
        (sender_paid tx (acc_view (st_accounts st)))(receiver_of tx \<mapsto>
           with_balance (tx_amount tx)
             (account_at (sender_paid tx (acc_view (st_accounts st))) (receiver_of tx)))"
proof -
  from accepted_started [OF assms(1,2)] obtain A where A: "acc_ok A"
    "acc_view A (tx_sender tx) = Some (account_at (acc_view (st_accounts st)) (tx_sender tx))"
    "acc_view (started tx A) = sender_paid tx (acc_view (st_accounts st))"
    "apply_validated_tx E A tx = (st_accounts st', Inr r)" by metis
  from accepted [OF assms(2)] have "amounts_well_formed tx" by metis
  from A(1,2) this A(4) show ?thesis
    by (cases rule: apply_cases)
      (use assms(3,4) in \<open>auto simp: success_receipt_def acc_view_add_balance get_account_at A(3) with_balance_def\<close>)
qed

lemma deploy_view:
  assumes "acc_ok (st_accounts st)"
    and "validate_and_apply_with_status E st tx = (st', Inr (VALID, Some r))"
    and "receiver_of tx = []"
    and "addr = derive_contract_address E (tx_sender tx) (tx_nonce tx)" "addr \<noteq> tx_sender tx"
  shows "rc_status r = (if int (length (data_bytes tx)) * GAS_PER_BYTE \<le> tx_gas_limit tx
        \<and> \<not> has_code (account_at (acc_view (st_accounts st)) addr) then 1 else 0)
    \<and> (rc_status r = 1 \<longrightarrow> rc_contract_address r = addr
        \<and> rc_gas_used r = int (length (data_bytes tx)) * GAS_PER_BYTE
        \<and> acc_view (st_accounts st') = (acc_view (st_accounts st))(
             tx_sender tx \<mapsto> with_balance (- tx_amount tx)
               (gas_charged tx (account_at (acc_view (st_accounts st)) (tx_sender tx)) (rc_gas_used r)),
             addr \<mapsto> \<lparr>acc_balance = acc_balance (account_at (acc_view (st_accounts st)) addr) + tx_amount tx,
               acc_nonce = 0, acc_code = tx_data tx, acc_storage = JObj []\<rparr>))"
proof -
  let ?S = "acc_view (st_accounts st)"
  from accepted_started [OF assms(1,2)] obtain A where A: "acc_ok A" "amounts_well_formed tx"
    "acc_view A (tx_sender tx) = Some (account_at ?S (tx_sender tx))"
    "acc_view (started tx A) = sender_paid tx ?S"
    "apply_validated_tx E A tx = (st_accounts st', Inr r)" by metis
  have at: "acc_view (started tx A) addr = ?S addr"
    using assms(5) by (simp add: A(4) sender_paid_def)
  have code: "has_code (account_at ?S addr) \<longleftrightarrow> (case ?S addr of None \<Rightarrow> False | Some x \<Rightarrow> has_code x)"
    by (auto simp: account_at_def empty_account_def has_code_def split: option.splits)
  from A(1,3,2,5) show ?thesis
  proof (cases rule: apply_cases)
    case rolled_back
    then show ?thesis using assms(3) code at
      by (auto simp: deploy_refused_def assms(4) [symmetric])
  next
    case (deployed addr' cg)
    have addr': "addr' = addr" using deployed assms(4) by simp
    have c: "\<not> has_code (account_at ?S addr)" using deployed(5) at
      by (auto simp: code addr' split: option.splits)
    have bal: "balance_of (started tx A) addr = acc_balance (account_at ?S addr)"
      by (simp add: balance_of_def at account_at_def empty_account_def split: option.splits)
    let ?K = "create_contract addr (tx_data tx) (tx_amount tx) (started tx A)"
    have "acc_view ?K = (sender_paid tx ?S)(addr \<mapsto>
        \<lparr>acc_balance = acc_balance (account_at ?S addr) + tx_amount tx,
               acc_nonce = 0, acc_code = tx_data tx, acc_storage = JObj []\<rparr>)"
      by (simp add: acc_view_create A(4) bal)
    then have "acc_view (refund_gas tx (tx_gas_limit tx - cg) ?K) = ?S(
             tx_sender tx \<mapsto> with_balance (- tx_amount tx)
               (gas_charged tx (account_at ?S (tx_sender tx)) cg),
             addr \<mapsto> \<lparr>acc_balance = acc_balance (account_at ?S addr) + tx_amount tx,
               acc_nonce = 0, acc_code = tx_data tx, acc_storage = JObj []\<rparr>)"
      using assms(5) deployed(4)
      by (auto simp: refund_gas_def acc_view_add_balance sender_paid_def with_balance_def
          gas_charged_def tx_cost_def algebra_simps fun_eq_iff)
    with deployed c show ?thesis by (simp add: addr' success_receipt_def)
  qed (use assms(3) in auto)
qed

interpretation keeps_nonce: op_closed "\<lambda>A. nonce_of A k = n" for k n
  by unfold_locales
    (auto simp: nonce_of_def view_simps empty_account_def split: option.splits if_splits)

lemma nonce_started:
  "acc_view A (tx_sender tx) \<noteq> None \<Longrightarrow>
   nonce_of (started tx A) k = nonce_of A k + (if k = tx_sender tx then 1 else 0)"
  by (auto simp: nonce_of_def started_view)

lemma nonce_view: "acc_view A = acc_view B \<Longrightarrow> nonce_of A k = nonce_of B k"
  by (simp add: nonce_of_def)

lemma nonce_refund: "nonce_of (refund_gas tx g A) k = nonce_of A k"
  by (simp add: refund_gas_def keeps_nonce.op_add_balance)

lemma nonces_view:
  assumes "acc_ok (st_accounts st)"
    and "validate_and_apply_with_status E st tx = (st', Inr (VALID, Some r))"
    and "receiver_of tx = [] \<longrightarrow> k \<noteq> derive_contract_address E (tx_sender tx) (tx_nonce tx)"
  shows "nonce_of (st_accounts st') k =
           nonce_of (st_accounts st) k + (if k = tx_sender tx then 1 else 0)"
proof -
  let ?S = "acc_view (st_accounts st)"
  from accepted [OF assms(2)] obtain A where A: "A = get_account (tx_sender tx) (st_accounts st)"
    "amounts_well_formed tx" "apply_validated_tx E A tx = (st_accounts st', Inr r)" by metis
  have ok: "acc_ok A" using assms(1) by (simp add: A(1) keeps_ok.get_account_closed)
  obtain a where a: "acc_view A (tx_sender tx) = Some a" using get_account_Some A(1) by blast
  have base: "nonce_of A k = nonce_of (st_accounts st) k"
    unfolding A(1) by (rule keeps_nonce.op_get_account) simp
  have st: "nonce_of (started tx A) k = nonce_of A k + (if k = tx_sender tx then 1 else 0)"
    using a by (intro nonce_started) auto
  from ok a A(2,3) have "nonce_of (st_accounts st') k = nonce_of (started tx A) k"
  proof (cases rule: apply_cases)
    case rolled_back
    then show ?thesis using a by (simp add: nonce_of_def started_view [OF a] gas_charged_def)
  next
    case (deployed addr cg)
    then have "k \<noteq> addr" using assms(3) by auto
    then have "nonce_of (create_contract addr (tx_data tx) (tx_amount tx) (started tx A)) k
        = nonce_of (started tx A) k" by (simp add: nonce_of_def acc_view_create)
    with deployed(6) show ?thesis by (metis nonce_refund nonce_view)
  next
    case (called J g ts sto)
    have "nonce_of J k = nonce_of (started tx A) k"
      using keeps_nonce.call_closed(1) [of "started tx A" k "nonce_of (started tx A) k"] called(3)
      by (metis fst_conv)
    with called(4) show ?thesis by (metis nonce_refund nonce_view)
  next
    case transferred
    have "nonce_of (add_balance (receiver_of tx) (tx_amount tx)
        (get_account (receiver_of tx) (started tx A))) k = nonce_of (started tx A) k"
      by (intro keeps_nonce.op_add_balance keeps_nonce.op_get_account) simp
    with transferred(3) show ?thesis by (metis nonce_view)
  qed
  with base st show ?thesis by simp
qed

definition solvent :: "accounts \<Rightarrow> bool" where
  "solvent A = list_all (\<lambda>(k, a). 0 \<le> acc_balance a) (acc_items A)"

lemma solvent_view:
  assumes "acc_ok A"
  shows "solvent A \<longleftrightarrow> (\<forall>k a. acc_view A k = Some a \<longrightarrow> 0 \<le> acc_balance a)"
proof -
  have "acc_view A k = Some a \<longleftrightarrow> (k, a) \<in> set (acc_items A)" for k a
    using acc_items_view [OF assms] by (metis map_of_eq_Some_iff)
  then show ?thesis by (auto simp: solvent_def list_all_iff)
qed

lemma solvent_at: "\<forall>k a. S k = Some a \<longrightarrow> 0 \<le> acc_balance a \<Longrightarrow> 0 \<le> acc_balance (account_at S k)"
  by (auto simp: account_at_def empty_account_def split: option.splits)

lemma gas_within_cost:
  assumes "amounts_well_formed tx" "g \<le> max 1 (tx_gas_limit tx)" "1 \<le> tx_gas_limit tx \<or> tx_fee_per_gas tx = 0"
  shows "g * tx_fee_per_gas tx \<le> tx_cost tx"
proof (cases "tx_fee_per_gas tx = 0")
  case False
  with assms have "g \<le> tx_gas_limit tx" by auto
  then have "g * tx_fee_per_gas tx \<le> tx_gas_limit tx * tx_fee_per_gas tx"
    using assms(1) by (intro mult_right_mono) (auto simp: amounts_well_formed_def)
  then show ?thesis using assms(1) by (auto simp: tx_cost_def amounts_well_formed_def)
qed (use assms(1) in \<open>auto simp: tx_cost_def amounts_well_formed_def\<close>)

lemma plain_tx_solvent:
  assumes "acc_ok (st_accounts st)" "solvent (st_accounts st)"
    and "validate_and_apply_with_status E st tx = (st', Inr (VALID, Some r))"
    and "1 \<le> tx_gas_limit tx \<or> tx_fee_per_gas tx = 0"
    and "receiver_of tx = [] \<or> data_bytes tx = [] \<or> rc_status r = 0"
    and "derive_contract_address E (tx_sender tx) (tx_nonce tx) \<noteq> tx_sender tx"
  shows "solvent (st_accounts st')"
proof -
  let ?S = "acc_view (st_accounts st)"
  from accepted [OF assms(3)] have wf: "amounts_well_formed tx"
    and bal: "tx_cost tx \<le> acc_balance (account_at ?S (tx_sender tx))"
    by (metis balance_of_def account_at_def empty_account_def account.select_convs(1) option.case_eq_if)+
  have ok': "acc_ok (st_accounts st')" using acc_ok_accounts [OF assms(1,3)] by blast
  have S: "\<forall>k a. ?S k = Some a \<longrightarrow> 0 \<le> acc_balance a"
    using assms(2) solvent_view [OF assms(1)] by blast
  have amt: "0 \<le> tx_amount tx" using wf by (simp add: amounts_well_formed_def)
  consider (failed) "rc_status r = 0" | (dep) "receiver_of tx = []" "rc_status r \<noteq> 0"
    | (tr) "receiver_of tx \<noteq> []" "data_bytes tx = []" using assms(5) by blast
  then show ?thesis unfolding solvent_view [OF ok']
  proof cases
    case failed
    from failed_tx_view [OF assms(1,3) failed] have f: "rc_gas_used r \<le> max 1 (tx_gas_limit tx)"
      "acc_view (st_accounts st') = ?S(tx_sender tx \<mapsto> gas_charged tx (account_at ?S (tx_sender tx)) (rc_gas_used r))"
      by auto
    from gas_within_cost [OF wf f(1) assms(4)] bal S
    show "\<forall>k a. acc_view (st_accounts st') k = Some a \<longrightarrow> 0 \<le> acc_balance a"
      by (auto simp: f(2) gas_charged_def)
  next
    case tr
    from transfer_view [OF assms(1,3) tr] S bal amt
    show "\<forall>k a. acc_view (st_accounts st') k = Some a \<longrightarrow> 0 \<le> acc_balance a"
      using solvent_at [OF S, of "receiver_of tx"]
      by (auto simp: sender_paid_def with_balance_def account_at_def)
  next
    case dep
    let ?addr = "derive_contract_address E (tx_sender tx) (tx_nonce tx)"
    from deploy_view [OF assms(1,3) dep(1) refl assms(6)] dep(2) have
      r: "rc_gas_used r \<le> tx_gas_limit tx" "acc_view (st_accounts st') = ?S(
             tx_sender tx \<mapsto> with_balance (- tx_amount tx)
               (gas_charged tx (account_at ?S (tx_sender tx)) (rc_gas_used r)),
             ?addr \<mapsto> \<lparr>acc_balance = acc_balance (account_at ?S ?addr) + tx_amount tx,
               acc_nonce = 0, acc_code = tx_data tx, acc_storage = JObj []\<rparr>)"
      by (auto split: if_splits)
    have "rc_gas_used r * tx_fee_per_gas tx + tx_amount tx \<le> tx_cost tx"
      using r(1) wf by (auto simp: tx_cost_def amounts_well_formed_def intro: mult_right_mono)
    with r bal S amt solvent_at [OF S, of ?addr]
    show "\<forall>k a. acc_view (st_accounts st') k = Some a \<longrightarrow> 0 \<le> acc_balance a"
      by (auto simp: with_balance_def gas_charged_def)
  qed
qed

subsection \<open>Contracts that call no other contract\<close>

primrec call_free :: "child \<Rightarrow> bool" where
  "call_free (Sends_call a p n k) = False"
| "call_free (Sends_return m) = True"
| "call_free Exits = True"
| "call_free Hangs = True"
| "call_free Leaves_model = True"

lemma serve_call_free: "call_free ch \<Longrightarrow> fst (serve_child ch h A) = A"
  by (cases ch) auto

lemma balance_of_add':
  "balance_of (add_balance k v A) x =
     balance_of A x + (if x = k \<and> acc_view A k \<noteq> None then v else 0)"
  by (auto simp: balance_of_def view_simps split: option.splits)

lemma balance_of_storage: "update_contract_storage k sto A = Inr A' \<Longrightarrow> balance_of A' x = balance_of A x"
  by (auto simp: update_contract_storage_def balance_of_def view_simps split: if_splits option.splits)

lemma pay_out_mono: "positive_transfers ts \<Longrightarrow> balance_of A x \<le> balance_of (pay_out ts A) x"
proof (induction ts A rule: pay_out.induct)
  case (2 to v ts A)
  then have "balance_of A x \<le> balance_of (add_balance to v (get_account to A)) x"
    by (auto simp: balance_of_add' positive_transfers_def)
  also have "\<dots> \<le> balance_of (pay_out ts (add_balance to v (get_account to A))) x"
    using 2 by (auto simp: positive_transfers_def)
  finally show ?case by simp
qed simp

text \<open>What a call needs of the code of the account \<open>c\<close>, run on its storage with this message: no
  message to the parent before the last one. Nothing is said of other codes and other calls.\<close>

definition run_call_free ::
  "'a ext_scheme \<Rightarrow> account \<Rightarrow> string \<Rightarrow> int \<Rightarrow> json \<Rightarrow> int \<Rightarrow> bool" where
  "run_call_free E a s v p gl =
     (case (acc_code a, py_dict (acc_storage a)) of
        (Some code, Inr sto) \<Rightarrow> call_free (worker_of E code sto s v p gl) | _ \<Rightarrow> True)"

definition tx_call_free :: "'a ext_scheme \<Rightarrow> state \<Rightarrow> transaction \<Rightarrow> bool" where
  "tx_call_free E st tx =
     (case acc_view (st_accounts st) (receiver_of tx) of
        None \<Rightarrow> True
      | Some a \<Rightarrow> run_call_free E a (tx_sender tx) (tx_amount tx) (JStr (data_bytes tx)) (tx_gas_limit tx))"

lemma exec_call_free:
  assumes "acc_view A c = Some a" "run_call_free E a s v p gl" "exec_contract E A c s p v gl d = (A', r)"
  shows "balance_of A' x = balance_of A x"
proof (cases "\<exists>sto code. runnable E A c d sto code")
  case False
  from exec_contract_skip [OF False assms(3)] show ?thesis by auto
next
  case True
  then obtain sto code where run: "runnable E A c d sto code" by blast
  then have "call_free (worker_of E code sto s v p gl)"
    using assms(1,2) by (auto simp: run_call_free_def runnable_def view_simps)
  from serve_call_free [OF this] assms(3) run have "A' = get_account c A"
    by (auto simp: exec_contract_run split: prod.splits) (metis fst_conv)
  then show ?thesis by simp
qed

lemma finish_call_covered:
  assumes "finish_call t s r v A (Exec_ok g ts sto) = (A', Inr (Exec_ok g ts sto))"
    and "positive_transfers ts" "acc_view A r \<noteq> None"
  shows "(if x = r then 0 else balance_of A x) \<le> balance_of A' x"
proof -
  from assms(1) obtain A1 where A1: "total_out ts \<le> balance_of A r"
    "update_contract_storage r sto A = Inr A1" "A' = pay_out ts (add_balance r (- total_out ts) A1)"
    by (auto simp: finish_call_def split: if_splits sum.splits)
  have "acc_view A1 r \<noteq> None" using keeps_domain.update_storage_closed [OF assms(3) A1(2)] .
  then have "(if x = r then 0 else balance_of A x) \<le> balance_of (add_balance r (- total_out ts) A1) x"
    using A1(1) by (auto simp: balance_of_add' balance_of_storage [OF A1(2)])
  also have "\<dots> \<le> balance_of A' x" unfolding A1(3) using assms(2) by (rule pay_out_mono)
  finally show ?thesis .
qed

lemma call_free_success:
  assumes E: "\<And>a. acc_view A r = Some a \<Longrightarrow> run_call_free E a s v p gl"
    and v: "0 \<le> v" and pos: "\<And>k. 0 \<le> balance_of A k"
    and run: "internal_call E A s r v p gl d True = (A', Inr (Exec_ok g ts sto))"
  shows "0 \<le> balance_of A' x"
proof -
  from run obtain ra sa where pre: "acc_view A r = Some ra" "has_code ra" "acc_view A s = Some sa"
    by (auto simp: internal_call.simps [of E A s r v p gl d True] acc_get_eq acc_getitem_def
        split: option.splits if_splits)
  define A4 where "A4 = add_balance r v (acc_touch s (acc_touch r A))"
  obtain A5 o5 where ex: "exec_contract E A4 r s p v gl d = (A5, o5)" by fastforce
  with run pre have "(case o5 of Inl e \<Rightarrow> (A5, Inl e) | Inr res \<Rightarrow> finish_call True s r v A5 res)
      = (A', Inr (Exec_ok g ts sto))"
    by (simp add: internal_call.simps [of E A s r v p gl d True] acc_get_eq acc_getitem_def
        A4_def split: sum.splits)
  then obtain res where res: "o5 = Inr res" "finish_call True s r v A5 res = (A', Inr (Exec_ok g ts sto))"
    by (auto split: sum.splits)
  with finish_call_result [OF res(2)] have r5: "res = Exec_ok g ts sto" by auto
  have A4: "acc_view A4 r = Some (ra\<lparr>acc_balance := acc_balance ra + v\<rparr>)"
    using pre by (simp add: A4_def view_simps)
  have free: "run_call_free E (ra\<lparr>acc_balance := acc_balance ra + v\<rparr>) s v p gl"
    using E [OF pre(1)] by (simp add: run_call_free_def)
  have dom: "acc_view A5 r \<noteq> None"
    using keeps_domain.call_closed(2) [of A4 r E r s p v gl d] ex pre
    by (auto simp: A4_def view_simps)
  have "positive_transfers ts"
    using exec_contract_ok [of E A4 r s p v gl d A5 g ts sto] ex res(1) r5 by simp
  with res r5 dom have "(if x = r then 0 else balance_of A5 x) \<le> balance_of A' x"
    by (intro finish_call_covered) auto
  moreover have "balance_of A5 x = balance_of A x + (if x = r then v else 0)"
    using exec_call_free [OF A4 free ex] pre by (simp add: A4_def balance_of_add')
  ultimately show ?thesis using pos [of x] by (auto split: if_splits)
qed

lemma solvent_balance: "acc_ok A \<Longrightarrow> solvent A \<longleftrightarrow> (\<forall>k. 0 \<le> balance_of A k)"
  by (auto simp: solvent_view balance_of_def split: option.splits)

lemma call_free_tx_solvent:
  assumes "acc_ok (st_accounts st)" "solvent (st_accounts st)"
    and "validate_and_apply_with_status E st tx = (st', Inr (VALID, Some r))"
    and "receiver_of tx \<noteq> []" "data_bytes tx \<noteq> []" "rc_status r \<noteq> 0" "tx_call_free E st tx"
  shows "solvent (st_accounts st')"
proof -
  let ?S = "acc_view (st_accounts st)"
  have ok': "acc_ok (st_accounts st')" using acc_ok_accounts [OF assms(1,3)] by blast
  from accepted [OF assms(3)] have bal: "tx_cost tx \<le> acc_balance (account_at ?S (tx_sender tx))"
    by (metis balance_of_def account_at_def empty_account_def account.select_convs(1) option.case_eq_if)
  have S: "\<forall>k a. ?S k = Some a \<longrightarrow> 0 \<le> acc_balance a"
    using assms(2) solvent_view [OF assms(1)] by blast
  from accepted_started [OF assms(1,3)] obtain A where A: "acc_ok A" "amounts_well_formed tx"
    "acc_view A (tx_sender tx) = Some (account_at ?S (tx_sender tx))"
    "acc_view (started tx A) = sender_paid tx ?S"
    "apply_validated_tx E A tx = (st_accounts st', Inr r)" by metis
  have amt: "0 \<le> tx_amount tx" "0 \<le> tx_fee_per_gas tx" using A(2) by (auto simp: amounts_well_formed_def)
  have pos: "0 \<le> balance_of (started tx A) k" for k
    using S bal by (auto simp: balance_of_def A(4) sender_paid_def split: option.splits)
  from A(1,3,2,5) show ?thesis
  proof (cases rule: apply_cases)
    case (called J g ts sto)
    have J: "0 \<le> balance_of J k" for k
    proof (rule call_free_success [OF _ amt(1) pos called(3)])
      fix a assume "acc_view (started tx A) (receiver_of tx) = Some a"
      then show "run_call_free E a (tx_sender tx) (tx_amount tx) (JStr (data_bytes tx)) (tx_gas_limit tx)"
        using assms(7) by (auto simp: A(4) sender_paid_def tx_call_free_def account_at_def run_call_free_def
            empty_account_def split: if_splits option.splits)
    qed
    have "0 \<le> balance_of (refund_gas tx (tx_gas_limit tx - g) J) k" for k
      using J [of k] amt by (auto simp: refund_gas_def balance_of_add')
    then show ?thesis using called(4) by (simp add: solvent_balance ok' balance_of_def)
  qed (use assms in auto)
qed

end
