(* ===== verification/StateGuarantees.thy ===== *)
theory StateGuarantees
  imports StateProps
begin

section \<open>Guarantees of transactions\<close>

text \<open>
  The properties of \<open>State\<close> that the rest of the node relies on, each with an instance on the
  accounts of \<open>Demo\<close>.
\<close>

subsection \<open>Conservation of coins\<close>

text \<open>C3: a transaction whose run stays in the model changes the sum of all balances by exactly
  minus the gas it is charged for (\<open>gas_used * fee_per_gas\<close>), which the block's miner is credited
  with; one that is not valid changes it by nothing. This covers contracts of any kind, their
  transfers out and their nested calls with amounts of any type but float, failed and negative
  ones included. It does not cover a run in which a float reaches an amount (a nan passes the
  test of the balance) or a contract gets hold of the worker's frame: such a run has no result
  here, while the code goes on.\<close>

theorem tx_conserves_supply:
  assumes "acc_ok (st_accounts st)" "validate_and_apply_with_status E st tx = (st', Inr (s, r))"
  shows "total_supply (st_accounts st') = total_supply (st_accounts st)
      - (case r of None \<Rightarrow> 0 | Some rc \<Rightarrow> rc_gas_used rc * tx_fee_per_gas tx)"
  using acc_ok_accounts [OF assms] by blast

definition keep_call :: transaction where
  "keep_call = demo_tx (Some ''bb'') 5 0 100 2 (Some ''x'')"

lemma keep_call_valid: "demo_valid keep_call"
  by code_simp

theorem tx_conserves_supply_witness:
  "total_supply (st_accounts (demo_run keep_call)) = total_supply (st_accounts demo_state)
     - rc_gas_used (demo_receipt keep_call) * 2 \<and> rc_gas_used (demo_receipt keep_call) = 21"
proof -
  have "tx_fee_per_gas keep_call = 2" "rc_gas_used (demo_receipt keep_call) = 21" by code_simp+
  then show ?thesis
    using tx_conserves_supply [OF demo_state_ok demo_run_eq [OF keep_call_valid]] by simp
qed

subsection \<open>Transactions that fail\<close>

text \<open>a transaction that is not \<open>VALID\<close> yields no receipt and leaves every account as it was;
  at most an empty account appears under the sender's address.\<close>

lemma rejected_tx_changes_nothing:
  assumes "validate_and_apply_with_status E st tx = (st', Inr (s, r))" "s \<noteq> VALID"
  shows "r = None \<and> st_chain_id st' = st_chain_id st
    \<and> (\<forall>k. acc_view (st_accounts st') k = acc_view (st_accounts st) k
         \<or> (k = tx_sender tx \<and> acc_view (st_accounts st) k = None
             \<and> acc_view (st_accounts st') k = Some empty_account))"
proof -
  from assms have "r = None"
    "st' = st \<or> st' = st\<lparr>st_accounts := get_account (tx_sender tx) (st_accounts st)\<rparr>"
    using verify_state [of E st tx] by (auto simp: validate_and_apply_with_status_def
        split: if_splits prod.splits sum.splits)
  then show ?thesis
    by (cases "acc_view (st_accounts st) (tx_sender tx)") (auto simp: view_simps split: if_splits)
qed

lemma rejected_tx_changes_nothing_witness:
  "\<exists>st'. validate_and_apply_with_status demo_ext demo_state (demo_tx (Some ''bb'') 5 7 100 2 None)
      = (st', Inr (FAILED, None))
    \<and> acc_view (st_accounts st') ''aa'' = acc_view demo_accounts ''aa''"
proof -
  let ?tx = "demo_tx (Some ''bb'') 5 7 100 2 None"
  let ?v = "validate_and_apply_with_status demo_ext demo_state ?tx"
  have 1: "snd ?v = Inr (FAILED, None)" by code_simp
  then have v: "?v = (fst ?v, Inr (FAILED, None))" by (metis prod.collapse)
  have "acc_view (st_accounts demo_state) ''aa'' \<noteq> None" "st_accounts demo_state = demo_accounts"
    by code_simp (simp add: demo_state_def)
  with rejected_tx_changes_nothing [OF v] v show ?thesis by auto
qed

text \<open>C12: a transaction that is accepted and fails (receipt status 0: a contract that raised, ran
  out of gas or crashed, a missing contract, an address collision) changes exactly one account,
  the sender's, by the gas charged and the nonce; what the contract did is undone. The gas
  charged is at most the limit, or 1 when the limit is 0.\<close>

theorem failed_tx_charges_gas_only:
  assumes "acc_ok (st_accounts st)"
    and "validate_and_apply_with_status E st tx = (st', Inr (VALID, Some r))" "rc_status r = 0"
  shows "0 \<le> rc_gas_used r \<and> rc_gas_used r \<le> max 1 (tx_gas_limit tx)
    \<and> acc_view (st_accounts st') = (acc_view (st_accounts st))(tx_sender tx \<mapsto>
        gas_charged tx (account_at (acc_view (st_accounts st)) (tx_sender tx)) (rc_gas_used r))"
  by (rule failed_tx_view [OF assms])

definition loop_call :: transaction where
  "loop_call = demo_tx (Some ''ff'') 5 0 100 2 (Some ''x'')"

lemma loop_call_valid: "demo_valid loop_call"
  by code_simp

theorem failed_tx_charges_gas_only_witness:
  "rc_status (demo_receipt loop_call) = 0 \<and> rc_gas_used (demo_receipt loop_call) = 100
    \<and> acc_view (st_accounts (demo_run loop_call)) =
        (acc_view demo_accounts)(''aa'' \<mapsto> (demo_account 800 None)\<lparr>acc_nonce := 1\<rparr>)"
proof -
  have f: "rc_status (demo_receipt loop_call) = 0" "rc_gas_used (demo_receipt loop_call) = 100"
    "tx_sender loop_call = ''aa''" "tx_fee_per_gas loop_call = 2" by code_simp+
  have s: "st_accounts demo_state = demo_accounts" by (simp add: demo_state_def)
  have a: "account_at (acc_view demo_accounts) ''aa'' = demo_account 1000 None"
    by (simp add: account_at_def demo_accounts_def)
  from failed_tx_charges_gas_only [OF demo_state_ok demo_run_eq [OF loop_call_valid] f(1)] f s a
  show ?thesis by (simp add: gas_charged_def demo_account_def)
qed

subsection \<open>Transfers and deployments\<close>

text \<open>C11: an accepted transaction with a receiver and no data succeeds; it moves the amount to the
  receiver, charges the whole gas limit to the sender, raises the sender's nonce, and changes
  nothing else, also when the sender pays itself.\<close>

theorem transfer_effect:
  assumes "acc_ok (st_accounts st)"
    and "validate_and_apply_with_status E st tx = (st', Inr (VALID, Some r))"
    and "receiver_of tx \<noteq> []" "data_bytes tx = []"
  shows "rc_status r = 1 \<and> rc_gas_used r = tx_gas_limit tx
    \<and> acc_view (st_accounts st') =
        (sender_paid tx (acc_view (st_accounts st)))(receiver_of tx \<mapsto>
           with_balance (tx_amount tx)
             (account_at (sender_paid tx (acc_view (st_accounts st))) (receiver_of tx)))"
  by (rule transfer_view [OF assms])

definition pay_bob :: transaction where
  "pay_bob = demo_tx (Some ''bb'') 5 0 10 2 None"

lemma pay_bob_valid: "demo_valid pay_bob"
  by code_simp

theorem transfer_effect_witness:
  "acc_view (st_accounts (demo_run pay_bob)) =
     (acc_view demo_accounts)(''aa'' \<mapsto> (demo_account 975 None)\<lparr>acc_nonce := 1\<rparr>,
       ''bb'' \<mapsto> demo_account 55 (Some ''keep''))"
proof -
  have f: "receiver_of pay_bob \<noteq> []" "data_bytes pay_bob = []" by code_simp+
  have g: "receiver_of pay_bob = ''bb''" "tx_sender pay_bob = ''aa''" "tx_cost pay_bob = 25"
    "tx_amount pay_bob = 5" by code_simp+
  have s: "st_accounts demo_state = demo_accounts" by (simp add: demo_state_def)
  have a: "account_at (acc_view demo_accounts) ''aa'' = demo_account 1000 None"
    "acc_view demo_accounts ''bb'' = Some (demo_account 50 (Some ''keep''))"
    by (simp_all add: account_at_def demo_accounts_def)
  from transfer_effect [OF demo_state_ok demo_run_eq [OF pay_bob_valid] f] g s a
  show ?thesis by (simp add: sender_paid_def account_at_def with_balance_def demo_account_def)
qed

text \<open>an accepted transaction without a receiver deploys its data as code: it succeeds exactly
  when the gas limit pays for the code's bytes and the derived address holds no code yet (and
  fails with the sender charged otherwise); then the new account holds the code, the amount on
  top of what the address held, nonce 0 and empty storage, the sender has paid the amount and
  the gas of the bytes, and nothing else changed.\<close>

lemma deploy_effect:
  assumes "acc_ok (st_accounts st)"
    and "validate_and_apply_with_status E st tx = (st', Inr (VALID, Some r))"
    and "receiver_of tx = []"
    and "addr = derive_contract_address E (tx_sender tx) (tx_nonce tx)" "addr \<noteq> tx_sender tx"
  shows "rc_status r = (if int (length (data_bytes tx)) * GAS_PER_BYTE \<le> tx_gas_limit tx
        \<and> \<not> has_code (account_at (acc_view (st_accounts st)) addr) then 1 else 0)
    \<and> (rc_status r = 1 \<longrightarrow> rc_contract_address r = addr
        \<and> rc_gas_used r = int (length (data_bytes tx)) * GAS_PER_BYTE
        \<and> acc_view (st_accounts st') = (acc_view (st_accounts st))(
             tx_sender tx \<mapsto> with_balance (- tx_amount tx)
               (gas_charged tx (account_at (acc_view (st_accounts st)) (tx_sender tx)) (rc_gas_used r)),
             addr \<mapsto> \<lparr>acc_balance = acc_balance (account_at (acc_view (st_accounts st)) addr) + tx_amount tx,
               acc_nonce = 0, acc_code = tx_data tx, acc_storage = JObj []\<rparr>))"
  by (rule deploy_view [OF assms])

definition deploy_keep :: transaction where
  "deploy_keep = demo_tx None 5 0 100 2 (Some ''keep'')"

lemma deploy_keep_valid: "demo_valid deploy_keep"
  by code_simp

lemma deploy_effect_witness:
  "rc_status (demo_receipt deploy_keep) = 1
    \<and> acc_view (st_accounts (demo_run deploy_keep)) =
        (acc_view demo_accounts)(''aa'' \<mapsto> (demo_account 915 None)\<lparr>acc_nonce := 1\<rparr>,
          replicate 40 (CHR ''e'') \<mapsto> demo_account 5 (Some ''keep''))"
proof -
  let ?a = "replicate 40 (CHR ''e'')"
  have f: "receiver_of deploy_keep = []"
    "?a = derive_contract_address demo_ext (tx_sender deploy_keep) (tx_nonce deploy_keep)"
    "?a \<noteq> tx_sender deploy_keep" by code_simp+
  have g: "tx_sender deploy_keep = ''aa''" "tx_amount deploy_keep = 5" "tx_data deploy_keep = Some ''keep''"
    "tx_gas_limit deploy_keep = 100" "tx_fee_per_gas deploy_keep = 2" "data_bytes deploy_keep = ''keep''"
    by code_simp+
  have s: "st_accounts demo_state = demo_accounts" by (simp add: demo_state_def)
  have "acc_view demo_accounts ?a = None" by code_simp
  then have a: "account_at (acc_view demo_accounts) ''aa'' = demo_account 1000 None"
    "account_at (acc_view demo_accounts) ?a = empty_account"
    by (simp_all add: account_at_def demo_accounts_def)
  from deploy_effect [OF demo_state_ok demo_run_eq [OF deploy_keep_valid] f] g s a
  show ?thesis
    by (simp add: with_balance_def gas_charged_def demo_account_def empty_account_def has_code_def
        GAS_PER_BYTE_def)
qed

subsection \<open>Nonces and replay\<close>

text \<open>an accepted transaction raises its sender's nonce by one, and no other nonce changes,
  whether it succeeds or fails and whatever contracts run; only the address of a contract that
  it deploys starts at nonce 0.\<close>

lemma nonces_advance:
  assumes "acc_ok (st_accounts st)"
    and "validate_and_apply_with_status E st tx = (st', Inr (VALID, Some r))"
    and "receiver_of tx = [] \<longrightarrow> k \<noteq> derive_contract_address E (tx_sender tx) (tx_nonce tx)"
  shows "nonce_of (st_accounts st') k =
           nonce_of (st_accounts st) k + (if k = tx_sender tx then 1 else 0)"
  by (rule nonces_view [OF assms])

lemma nonces_advance_witness:
  "nonce_of (st_accounts (demo_run keep_call)) ''aa'' = 1
    \<and> nonce_of (st_accounts (demo_run keep_call)) ''bb'' = 0"
proof -
  have r: "receiver_of keep_call \<noteq> []" "tx_sender keep_call = ''aa''" by code_simp+
  have n: "nonce_of (st_accounts demo_state) ''aa'' = 0" "nonce_of (st_accounts demo_state) ''bb'' = 0"
    by (simp_all add: nonce_of_def demo_state_def demo_accounts_def demo_account_def)
  show ?thesis
    using nonces_advance [OF demo_state_ok demo_run_eq [OF keep_call_valid], of "''aa''"]
      nonces_advance [OF demo_state_ok demo_run_eq [OF keep_call_valid], of "''bb''"] r n
    by simp
qed

text \<open>C13: no replay. A transaction that was accepted is never accepted again afterwards: in every
  state in which the sender's nonce has not gone back, it is refused with \<open>FAILED\<close>.\<close>

theorem no_replay:
  assumes "acc_ok (st_accounts st)"
    and "validate_and_apply_with_status E st tx = (st', Inr (VALID, Some r))"
    and "receiver_of tx = [] \<longrightarrow> tx_sender tx \<noteq> derive_contract_address E (tx_sender tx) (tx_nonce tx)"
    and "st_chain_id later = st_chain_id st'"
    and "nonce_of (st_accounts st') (tx_sender tx) \<le> nonce_of (st_accounts later) (tx_sender tx)"
  shows "snd (validate_and_apply_with_status E later tx) = Inr (FAILED, None)"
proof -
  from accepted [OF assms(2)] have a: "amounts_well_formed tx" "tx_verify E tx"
    "tx_chain_id tx = st_chain_id later"
    "nonce_of (get_account (tx_sender tx) (st_accounts st)) (tx_sender tx) = tx_nonce tx"
    using assms(4) by metis+
  have keep: "nonce_of (get_account k B) k = nonce_of B k" for k B
    by (rule keeps_nonce.op_get_account) simp
  have "nonce_of (st_accounts later) (tx_sender tx) \<noteq> tx_nonce tx"
    using nonces_view [OF assms(1,2,3)] assms(5) a(4) by (simp add: keep)
  with a show ?thesis
    by (simp add: validate_and_apply_with_status_def verify_transaction_logic_def Let_def keep)
qed

theorem no_replay_witness:
  "snd (validate_and_apply_with_status demo_ext (demo_run keep_call) keep_call) = Inr (FAILED, None)"
proof -
  have r: "receiver_of keep_call \<noteq> []" by code_simp
  then show ?thesis
    using no_replay [OF demo_state_ok demo_run_eq [OF keep_call_valid], of "demo_run keep_call"] by simp
qed

subsection \<open>Solvency, and what contracts can break\<close>

text \<open>C14: solvency. With a positive gas limit or a fee of zero, an accepted transaction (whose
  sender is not the address it would deploy to) makes no balance negative if it transfers,
  deploys or fails, and also if it calls a contract whose code, run on its storage with this
  message, calls no other contract. (For contracts that do, see \<open>failing_nested_call_mints\<close>.)\<close>

theorem solvency_kept:
  assumes "acc_ok (st_accounts st)" "solvent (st_accounts st)"
    and "validate_and_apply_with_status E st tx = (st', Inr (VALID, Some r))"
    and "1 \<le> tx_gas_limit tx \<or> tx_fee_per_gas tx = 0"
    and "receiver_of tx = [] \<or> data_bytes tx = [] \<or> rc_status r = 0 \<or> tx_call_free E st tx"
    and "derive_contract_address E (tx_sender tx) (tx_nonce tx) \<noteq> tx_sender tx"
  shows "solvent (st_accounts st')"
  using plain_tx_solvent [OF assms(1-4) _ assms(6)] call_free_tx_solvent [OF assms(1-3)] assms(5)
  by blast

theorem solvency_kept_witness:
  "solvent (st_accounts (demo_run keep_call)) \<and> tx_receiver keep_call = Some ''bb''
   \<and> tx_data keep_call = Some ''x'' \<and> rc_status (demo_receipt keep_call) = 1
   \<and> \<not> tx_call_free demo_ext demo_state (demo_tx (Some ''dd'') 5 0 100 0 (Some ''x''))"
proof -
  have f: "solvent (st_accounts demo_state)" "1 \<le> tx_gas_limit keep_call"
    "tx_receiver keep_call = Some ''bb''" "tx_data keep_call = Some ''x''"
    "rc_status (demo_receipt keep_call) = 1" "tx_call_free demo_ext demo_state keep_call"
    "derive_contract_address demo_ext (tx_sender keep_call) (tx_nonce keep_call) \<noteq> tx_sender keep_call"
    "\<not> tx_call_free demo_ext demo_state (demo_tx (Some ''dd'') 5 0 100 0 (Some ''x''))"
    by code_simp+
  then show ?thesis
    using solvency_kept [OF demo_state_ok _ demo_run_eq [OF keep_call_valid]] by blast
qed

end
