(* ===== verification/ContractGuarantees.thy ===== *)
theory ContractGuarantees
  imports StateProps
begin

section \<open>Guarantees and limits of contract execution and of the state root\<close>

text \<open>
  What holds of every contract execution (gas, the syntax check, the transfers that a worker
  can report), what a contract can do to the accounts when its calls are nested, and what the
  state root commits to.
\<close>

subsection \<open>Gas and transfers\<close>

text \<open>C23: the gas that a contract call is charged lies between 0 and the limit, however its
  nested calls end, for code that acts on the sandbox only by the opcodes it runs and the
  functions it is given; only a limit of 0 can be exceeded, by the one opcode that runs before
  the meter stops. A call that succeeds stays within the limit. Code that gets hold of the
  worker's frame can set the meter as it likes, and the static check does not keep it from that
  (\<open>frame_access_accepted\<close>): such a run has no result here.\<close>

theorem call_gas_bounded:
  assumes "internal_call E A s rcv v p gl d t = (A', Inr res)" and "0 \<le> gl"
  shows "0 \<le> exec_gas res \<and> exec_gas res \<le> max 1 gl \<and> (exec_success res \<longrightarrow> exec_gas res \<le> gl)"
  using internal_call_gas [OF assms] internal_call_ok_gas [of E A s rcv v p gl d t A'] assms(1)
  by (cases res) auto

definition demo_call :: "string \<Rightarrow> int \<Rightarrow> accounts \<times> (exn + exec_result)" where
  "demo_call rcv gl = internal_call demo_ext demo_accounts ''aa'' rcv 0 (JStr ''x'') gl 0 True"

theorem call_gas_bounded_witness:
  "\<exists>A' res. demo_call ''bb'' 100 = (A', Inr res) \<and> 0 \<le> exec_gas res \<and> exec_gas res \<le> 100
     \<and> exec_gas res = 21"
proof -
  have "map_sum id exec_gas (snd (demo_call ''bb'' 100)) = Inr 21" by code_simp
  then obtain A' res where r: "demo_call ''bb'' 100 = (A', Inr res)" "exec_gas res = 21"
    by (cases "demo_call ''bb'' 100"; cases "snd (demo_call ''bb'' 100)") auto
  with call_gas_bounded [OF r(1) [unfolded demo_call_def]] show ?thesis by auto
qed

definition checked_transfer :: "string \<times> int \<Rightarrow> bool" where
  "checked_transfer t =
     (0 < snd t \<and> length (utf8_decode (fst t)) \<in> {40, 64} \<and> py_int_of_str 16 (fst t) \<noteq> None)"

lemma transfer_out_checked: "transfer_out_args a n = Some t \<Longrightarrow> checked_transfer t"
  by (auto simp: transfer_out_args_def transfer_amount_def checked_transfer_def Let_def
      split: option.splits json.splits if_splits)

lemma worker_checked:
  "list_all checked_transfer ts \<Longrightarrow>
   returns_sat (\<lambda>r. list_all checked_transfer (ret_transfers r)) (safe_exec_worker b m ts gl)"
proof (induction b arbitrary: m ts)
  case (Transfer_out a n k)
  then show ?case
    by (cases "transfer_out_args a n") (auto dest: transfer_out_checked)
qed (auto split: prod.splits)

lemma exec_checked:
  assumes "exec_contract E A c s p v gl d = (A', Inr (Exec_ok g ts sto))"
  shows "list_all checked_transfer ts"
proof (cases "\<exists>sto code. runnable E A c d sto code")
  case False
  from exec_contract_skip [OF False assms] show ?thesis by auto
next
  case True
  then obtain sto' code where run: "runnable E A c d sto' code" by blast
  from exec_contract_served [OF run assms] obtain ce where
    s: "serve_child (worker_of E code sto' s v p gl) (sub_calls E c gl d) (get_account c A) = (A', ce)"
    and "settle_result gl ce = Exec_ok g ts sto" by metis
  then obtain st' g' where "ce = Got (Ret_success st' ts g')"
    by (auto simp: settle_result_def Let_def split: child_end.splits return_msg.splits
        option.splits if_splits)
  with s show ?thesis using serve_child_sat [OF worker_checked [of "[]"]] by fastforce
qed

text \<open>the transfers that a contract reports were all checked by \<open>transfer_out\<close>: a positive
  amount, and an address of 40 or 64 characters that \<open>int(address, 16)\<close> accepts.\<close>

lemma reported_transfers_checked:
  assumes "internal_call E A s rcv v p gl d t = (A', Inr (Exec_ok g ts sto))"
  shows "list_all checked_transfer ts"
  using internal_call_result [OF assms]
proof (elim disjE exE conjE)
  fix A4 A5 res5
  assume ex: "exec_contract E A4 rcv s p v gl d = (A5, Inr res5)"
    and f: "finish_call t s rcv v A5 res5 = (A', Inr (Exec_ok g ts sto))"
  from finish_call_result [OF f] ex show ?thesis by (auto dest: exec_checked)
qed auto

definition pay_accounts :: accounts where
  "pay_accounts = Plain [(''aa'', demo_account 9 None), (''bb'', demo_account 5 (Some ''pay''))]"

definition pay_call :: "accounts \<times> (exn + exec_result)" where
  "pay_call = internal_call demo_ext pay_accounts ''aa'' ''bb'' 0 (JStr ''x'') 100 0 True"

lemma reported_transfers_checked_witness:
  "\<exists>A'. pay_call = (A', Inr (Exec_ok 20 [(demo_address, 1)] (JObj [])))
    \<and> list_all checked_transfer [(demo_address, 1)] \<and> balance_of A' demo_address = 1"
proof -
  have "snd pay_call = Inr (Exec_ok 20 [(demo_address, 1)] (JObj []))"
    "balance_of (fst pay_call) demo_address = 1" by code_simp+
  moreover from this(1) have c: "pay_call = (fst pay_call, Inr (Exec_ok 20 [(demo_address, 1)] (JObj [])))"
    by (metis prod.collapse)
  ultimately show ?thesis
    using reported_transfers_checked [OF c [unfolded pay_call_def]] by (metis pay_call_def)
qed

subsection \<open>The syntax check\<close>

lemma has_dunder_iff: "has_dunder s \<longleftrightarrow> (\<exists>p q. s = p @ ''__'' @ q)"
proof
  show "has_dunder s \<Longrightarrow> \<exists>p q. s = p @ ''__'' @ q"
  proof (induction s rule: has_dunder.induct)
    case (1 c d cs)
    show ?case
    proof (cases "c = CHR ''_'' \<and> d = CHR ''_''")
      case True
      then have "c # d # cs = [] @ ''__'' @ cs" by simp
      then show ?thesis by blast
    next
      case False
      with 1 obtain p q where "d # cs = p @ ''__'' @ q" by auto
      then have "c # d # cs = (c # p) @ ''__'' @ q" by simp
      then show ?thesis by blast
    qed
  qed simp_all
next
  have "has_dunder (p @ ''__'' @ q)" for p q
  proof (induction p)
    case (Cons c p)
    then show ?case by (cases p) auto
  qed simp
  then show "\<exists>p q. s = p @ ''__'' @ q \<Longrightarrow> has_dunder s" by blast
qed

lemma rejected_node_kinds:
  "rejected_node n \<longleftrightarrow>
     (\<exists>v a. n = Attribute_node v a \<and> (take 2 a = ''__'' \<or> a = ''format'' \<or> a = ''format_map''))
   \<or> (\<exists>i. n = Name_node i \<and> take 2 i = ''__'')
   \<or> n = Import_node \<or> n = ImportFrom_node
   \<or> (\<exists>f args. n = Call_node (Name_node f) args
        \<and> (f = ''type'' \<or> f = ''getattr'' \<or> f = ''setattr'' \<or> f = ''delattr''))
   \<or> (\<exists>p q. n = Str_node (p @ ''__'' @ q))
   \<or> (\<exists>vs. n = JoinedStr_node vs)
   \<or> (\<exists>op l r. n = BinOp_node op l r \<and> (op = Mult \<or> op = Pow \<or> op = MatMult))"
proof (cases n)
  case (Call_node f args)
  then show ?thesis by (cases f) auto
next
  case (BinOp_node op l r)
  then show ?thesis by (cases op) auto
qed (auto simp: starts_dunder_def has_dunder_iff)

text \<open>C24: code passes the static check exactly when it parses and its tree has, at no depth, an
  attribute that begins with two underscores or is \<open>format\<close> or \<open>format_map\<close>, a name that begins
  with two underscores, an import, a direct call of \<open>type\<close>, \<open>getattr\<close>, \<open>setattr\<close> or \<open>delattr\<close>, a
  text that contains two underscores, a formatted string, or one of the operators \<open>*\<close>, \<open>**\<close> and
  \<open>@\<close>. A syntax error fails the check, every other exception of the parser leaves it.\<close>

theorem ast_check_complete:
  "(validate_code_ast E code = Inr True \<longleftrightarrow>
     (\<exists>tree. ast_parse E code = Inr tree \<and> \<not> (\<exists>n. in_tree n tree \<and>
        ((\<exists>v a. n = Attribute_node v a \<and> (take 2 a = ''__'' \<or> a = ''format'' \<or> a = ''format_map''))
         \<or> (\<exists>i. n = Name_node i \<and> take 2 i = ''__'')
         \<or> n = Import_node \<or> n = ImportFrom_node
         \<or> (\<exists>f args. n = Call_node (Name_node f) args
              \<and> (f = ''type'' \<or> f = ''getattr'' \<or> f = ''setattr'' \<or> f = ''delattr''))
         \<or> (\<exists>p q. n = Str_node (p @ ''__'' @ q))
         \<or> (\<exists>vs. n = JoinedStr_node vs)
         \<or> (\<exists>op l r. n = BinOp_node op l r \<and> (op = Mult \<or> op = Pow \<or> op = MatMult))))))
   \<and> (\<forall>e. validate_code_ast E code = Inl e \<longleftrightarrow> ast_parse E code = Inl (Parse_raised e))"
  unfolding validate_code_ast_iff rejected_node_kinds [symmetric]
  by (auto simp: validate_code_ast_def split: sum.splits parse_error.splits)

text \<open>
  What the check does not see: the frame of the worker. The program

    def f(l):
        g = (l.append(g.gi_frame.f_back.f_back.f_back) for i in range(1))
        list(g)
        l[0].f_locals['meter'].gas = 1000000
    f([])

  passes. While the generator runs, the frames behind it are those of \<open>f\<close>, of the contract and of
  \<open>_safe_exec_worker\<close>, whose local \<open>meter\<close> it sets.
\<close>

definition frame_access :: pyast where
  "frame_access = Other_node
     [Other_node [Other_node [Other_node []],
        Other_node [Name_node ''g'', Other_node
          [Call_node (Attribute_node (Name_node ''l'') ''append'')
             [Attribute_node (Attribute_node (Attribute_node (Attribute_node (Name_node ''g'')
                ''gi_frame'') ''f_back'') ''f_back'') ''f_back''],
           Other_node [Name_node ''i'', Call_node (Name_node ''range'') [Other_node []]]]],
        Other_node [Call_node (Name_node ''list'') [Name_node ''g'']],
        Other_node
          [Attribute_node (Other_node [Attribute_node (Other_node [Name_node ''l'', Other_node []])
             ''f_locals'', Str_node ''meter'']) ''gas'', Other_node []]],
      Other_node [Call_node (Name_node ''f'') [Other_node []]]]"

lemma frame_access_accepted:
  "ast_parse E code = Inr frame_access \<Longrightarrow> validate_code_ast E code = Inr True"
proof -
  have "list_all (\<lambda>n. \<not> rejected_node n) (ast_walk [frame_access])" by code_simp
  then show "ast_parse E code = Inr frame_access \<Longrightarrow> validate_code_ast E code = Inr True"
    by (simp add: validate_code_ast_def)
qed

subsection \<open>Nested calls\<close>

definition lend_state :: state where
  "lend_state = \<lparr>st_accounts = Plain
     [(''aa'', demo_account 1000 None), (''bb'', demo_account 0 (Some ''lend'')),
      (''cc'', demo_account 0 (Some ''keep'')), (''dd'', demo_account 10 (Some ''try''))],
     st_chain_id = ''main''\<rparr>"

definition run_on :: "state \<Rightarrow> transaction \<Rightarrow> state \<times> (exn + validation_status \<times> receipt option)" where
  "run_on st tx = validate_and_apply_with_status demo_ext st tx"

definition balances_after :: "state \<Rightarrow> transaction \<Rightarrow> string list \<Rightarrow> int list" where
  "balances_after st tx ks = map (balance_of (st_accounts (fst (run_on st tx)))) ks"

definition status_after :: "state \<Rightarrow> transaction \<Rightarrow> (validation_status \<times> int) option" where
  "status_after st tx =
     (case snd (run_on st tx) of Inr (s, Some r) \<Rightarrow> Some (s, rc_status r) | _ \<Rightarrow> None)"

text \<open>C40: an undone call can leave a negative balance. \<open>dd\<close> calls \<open>bb\<close> with its 10 coins, \<open>bb\<close>
  passes them on to \<open>cc\<close> and then raises. The undo gives \<open>dd\<close> its 10 coins back and takes them
  from \<open>bb\<close>, which no longer has them, while the inner call to \<open>cc\<close> stays: the transaction succeeds, \<open>cc\<close> and
  \<open>dd\<close> hold 10 coins each and \<open>bb\<close> holds minus 10.\<close>

lemma failing_nested_call_mints:
  "status_after lend_state (demo_tx (Some ''dd'') 0 0 100 0 (Some ''x'')) = Some (VALID, 1)
   \<and> balances_after lend_state (demo_tx (Some ''dd'') 0 0 100 0 (Some ''x''))
        [''aa'', ''bb'', ''cc'', ''dd''] = [1000, -10, 10, 10]"
  by code_simp

text \<open>\<open>call_contract\<close> does not check the sign of the amount. \<open>dd\<close> calls \<open>bb\<close> with the amount
  minus 50, and all of \<open>bb\<close>'s 50 coins are now in \<open>dd\<close>.\<close>

lemma negative_amount_drains:
  "status_after demo_state (demo_tx (Some ''dd'') 5 0 100 0 (Some ''x'')) = Some (VALID, 1)
   \<and> balances_after demo_state (demo_tx (Some ''dd'') 5 0 100 0 (Some ''x''))
        [''aa'', ''bb'', ''dd''] = [995, 0, 75]"
  by code_simp

end
