(* ===== verification/RootGuarantees.thy ===== *)
theory RootGuarantees
  imports StateProps
begin

section \<open>Guarantees of the journal and of the state root\<close>

text \<open>
  A journal is a transaction over its backing store: committed it is the store after the
  writes, dropped it leaves no trace. The state root is computed from the accounts that are not
  blank, whatever the layers and the order of insertion.
\<close>

subsection \<open>Transactions on the journal\<close>

text \<open>C10: reads and writes on a journal over \<open>A\<close> show the writes laid over \<open>A\<close>; \<open>commit\<close> makes
  exactly these the contents of the backing store, and \<open>rollback\<close> restores the contents that
  \<open>A\<close> had (the store is the map that \<open>store.run_map\<close> updates).\<close>

theorem journal_is_transaction:
  assumes "acc_ok A"
  shows "acc_view (store.run ops (journal_new A)) = store.run_map ops (acc_view A)
    \<and> acc_view (acc_backing (acc_commit (store.run ops (journal_new A)))) = store.run_map ops (acc_view A)
    \<and> acc_view (acc_backing (acc_rollback (store.run ops (journal_new A)))) = acc_view A"
  using store.transaction_isolated [OF assms] store.transaction_committed [OF assms]
    store.transaction_dropped [of ops A] store.run_layer [OF store.start_layer, of ops A]
  by (simp add: acc_rollback_backing)

definition demo_ops :: "(string \<times> account option) list" where
  "demo_ops = [(''aa'', None), (''bb'', Some (demo_account 1 None)), (''zz'', Some (demo_account 2 None))]"

theorem journal_is_transaction_witness:
  "acc_view (acc_backing (acc_commit (store.run demo_ops (journal_new demo_accounts)))) ''bb''
      = Some (demo_account 1 None)
   \<and> acc_view (acc_backing (acc_rollback (store.run demo_ops (journal_new demo_accounts)))) ''bb''
      = Some (demo_account 50 (Some ''keep''))"
proof -
  have "acc_ok demo_accounts" by (simp add: demo_accounts_def)
  from journal_is_transaction [OF this, of demo_ops] show ?thesis
    by (simp add: demo_ops_def demo_accounts_def)
qed

subsection \<open>The state root\<close>

definition live :: "accounts \<Rightarrow> string \<rightharpoonup> account" where
  "live A k = (case acc_view A k of None \<Rightarrow> None | Some a \<Rightarrow> if blank_account a then None else Some a)"

abbreviation not_blank :: "string \<times> account \<Rightarrow> bool" where
  "not_blank p \<equiv> \<not> blank_account (snd p)"

lemma trie_puts_not_blank: "trie_puts xs = trie_puts (filter not_blank xs)"
  by (induction xs rule: trie_puts.induct) (auto split: option.splits sum.splits)

lemma sort_key_unique:
  assumes "distinct (map fst xs)" "distinct (map fst ys)" "set xs = set ys"
  shows "sort_key fst xs = (sort_key fst ys :: (string \<times> account) list)"
proof (rule map_sorted_distinct_set_unique [of fst])
  show "inj_on fst (set (sort_key fst xs) \<union> set (sort_key fst ys))"
    using assms by (simp add: distinct_map)
qed (use assms in \<open>auto simp: distinct_map\<close>)

lemma live_items: "acc_ok A \<Longrightarrow> set (filter not_blank (acc_items A)) = {(k, a). live A k = Some a}"
proof -
  assume ok: "acc_ok A"
  have "(k, a) \<in> set (acc_items A) \<longleftrightarrow> acc_view A k = Some a" for k a
    using acc_items_view [OF ok] by (metis map_of_eq_Some_iff)
  then show ?thesis by (auto simp: live_def split: option.splits if_splits)
qed

lemma live_sorted:
  "acc_ok A \<Longrightarrow> trie_puts (sort_key fst (acc_items A))
     = trie_puts (sort_key fst (filter not_blank (acc_items A)))"
  by (subst trie_puts_not_blank) (simp add: filter_sort)

lemma state_root_live:
  assumes "acc_ok A" "acc_ok B" "live A = live B"
  shows "state_root cr A = state_root cr B"
proof -
  have d: "distinct (map fst (filter not_blank (acc_items C)))" if "acc_ok C" for C
    using acc_items_view [OF that] by (simp add: distinct_map_filter)
  have "sort_key fst (filter not_blank (acc_items A)) = sort_key fst (filter not_blank (acc_items B))"
    using assms(1,2) by (intro sort_key_unique d) (simp_all only: live_items assms(3))
  then show ?thesis by (simp add: state_root_def live_sorted assms(1,2))
qed

lemma state_root_view:
  "acc_ok A \<Longrightarrow> acc_ok B \<Longrightarrow> acc_view A = acc_view B \<Longrightarrow> state_root cr A = state_root cr B"
  by (rule state_root_live) (simp_all add: live_def fun_eq_iff)

lemma trie_puts_defined:
  "(\<exists>ps. trie_puts xs = Inr ps) \<longleftrightarrow> list_all (\<lambda>(k, a). blank_account a
     \<or> (fromhex k \<noteq> None \<and> json_dumps_sorted (account_json a) \<noteq> None)) xs"
proof (induction xs)
  case (Cons p xs)
  then show ?case by (cases p; cases "trie_puts xs") (auto split: option.splits)
qed simp

definition trie_ready :: "accounts \<Rightarrow> bool" where
  "trie_ready A = list_all (\<lambda>(k, a). blank_account a \<or> (fromhex k \<noteq> None \<and> serializable (acc_storage a)))
     (acc_items A)"

text \<open>the state root can be computed exactly when every account that is not blank has a
  hexadecimal address and a storage that JSON can represent.\<close>

lemma state_root_defined: "\<not> isl (state_root cr A) \<longleftrightarrow> trie_ready A"
proof -
  have ser: "json_dumps_sorted (account_json a) \<noteq> None \<longleftrightarrow> serializable (acc_storage a)" for a
    by (cases "acc_code a") (simp_all add: json_dumps_sorted_def account_json_def of_str_option_def)
  have "\<not> isl (state_root cr A) \<longleftrightarrow> (\<exists>ps. trie_puts (sort_key fst (acc_items A)) = Inr ps)"
    by (auto simp: state_root_def split: sum.splits)
  then show ?thesis
    by (simp only: trie_puts_defined ser trie_ready_def) (simp add: list_all_iff)
qed

lemma trie_puts_raises:
  "list_all (\<lambda>(k, a). serializable (acc_storage a)) xs \<Longrightarrow> trie_puts xs = Inl e \<Longrightarrow> e = ValueError"
proof (induction xs)
  case (Cons p xs)
  obtain k a where p: "p = (k, a)" by fastforce
  have "serializable (account_json a)" using Cons.prems(1)
    by (cases "acc_code a") (simp_all add: p account_json_def of_str_option_def)
  then show ?case using Cons
    by (auto simp: p json_dumps_sorted_def split: if_splits option.splits sum.splits)
qed simp

text \<open>With storages that JSON can represent the only exception is \<open>ValueError\<close>.\<close>

lemma state_root_raises:
  assumes "list_all (\<lambda>(k, a). serializable (acc_storage a)) (acc_items A)" "\<not> trie_ready A"
  shows "state_root cr A = Inl ValueError"
proof -
  have "list_all (\<lambda>(k, a). serializable (acc_storage a)) (sort_key fst (acc_items A))"
    using assms(1) by (simp add: list_all_iff)
  moreover obtain e where "state_root cr A = Inl e" using assms(2) state_root_defined [of cr A]
    by (cases "state_root cr A") auto
  ultimately show ?thesis using trie_puts_raises by (auto simp: state_root_def split: sum.splits)
qed

text \<open>C30: the state root is a function of the accounts that are not blank: two stores that agree
  on them have the same root, whatever journals they are made of, in whatever order the
  accounts were created, and whatever blank accounts look-ups have left behind.\<close>

theorem state_root_canonical:
  assumes "acc_ok A" "acc_ok B" "live A = live B"
  shows "state_root cr A = state_root cr B"
  by (rule state_root_live [OF assms])

theorem state_root_canonical_witness:
  "state_root demo_ext (get_account ''99'' (journal_new demo_accounts)) = state_root demo_ext demo_accounts
   \<and> \<not> (\<exists>e. state_root demo_ext demo_accounts = Inl e)"
proof
  have "live (get_account ''99'' (journal_new demo_accounts)) = live demo_accounts"
    by (auto simp: live_def fun_eq_iff view_simps store.start_view blank_account_def
        empty_account_def has_code_def demo_accounts_def split: option.splits)
  moreover have "acc_ok demo_accounts" by (simp add: demo_accounts_def)
  ultimately show "state_root demo_ext (get_account ''99'' (journal_new demo_accounts))
      = state_root demo_ext demo_accounts"
    by (intro state_root_canonical) (auto intro: keeps_ok.get_account_closed store.start_ok)
  have "trie_ready demo_accounts" by code_simp
  then have "\<not> isl (state_root demo_ext demo_accounts)" by (simp only: state_root_defined)
  then show "\<not> (\<exists>e. state_root demo_ext demo_accounts = Inl e)" by (cases "state_root demo_ext demo_accounts") auto
qed

definition pay_word :: transaction where
  "pay_word = demo_tx (Some ''bob'') 5 0 10 2 None"

text \<open>a receiver is not checked when a transaction is applied, only by the node that submits
  it. A transfer to the address \<open>bob\<close> is accepted and succeeds, and from then on the state root
  raises \<open>ValueError\<close>.\<close>

lemma accepted_transfer_breaks_state_root:
  "demo_valid pay_word \<and> rc_status (demo_receipt pay_word) = 1
   \<and> \<not> isl (state_root demo_ext demo_accounts)
   \<and> state_root demo_ext (st_accounts (demo_run pay_word)) = Inl ValueError"
proof -
  have "demo_valid pay_word \<and> rc_status (demo_receipt pay_word) = 1" by code_simp
  moreover have "trie_ready demo_accounts" by code_simp
  moreover have "let A = st_accounts (demo_run pay_word) in
      list_all (\<lambda>(k, a). serializable (acc_storage a)) (acc_items A) \<and> \<not> trie_ready A" by code_simp
  then have "state_root demo_ext (st_accounts (demo_run pay_word)) = Inl ValueError"
    unfolding Let_def by (elim conjE) (erule (1) state_root_raises)
  ultimately show ?thesis by (simp only: state_root_defined simp_thms)
qed

end
