(* ===== verification/JsonInj.thy ===== *)
theory JsonInj
  imports Json
begin

section \<open>The canonical form of a JSON value determines the value\<close>

text \<open>
  Signatures, identifiers and block hashes are computed over \<open>canonical_json_bytes\<close>. Here the
  canonical form is shown to be injective up to the order of the keys of objects: the escapes of
  strings, the numerals and the separators can be told apart.
\<close>

subsection \<open>Values with their keys in order\<close>

fun norm :: "json \<Rightarrow> json" where
  "norm (JArr xs) = JArr (map norm xs)"
| "norm (JObj kvs) = JObj (sort_key fst (map (\<lambda>(k, v). (k, norm v)) kvs))"
| "norm j = j"

text \<open>The text of a value without reordering keys.\<close>

fun plain :: "json \<Rightarrow> string" where
  "plain JNull = ''null''"
| "plain (JBool b) = (if b then ''true'' else ''false'')"
| "plain (JInt i) = py_str_int i"
| "plain (JStr s) = quote_str False s"
| "plain (JArr xs) = ''['' @ join '','' (map plain xs) @ '']''"
| "plain (JObj kvs) = ''{'' @ join '','' (map (\<lambda>(k, v). quote_str False k @ '':'' @ plain v) kvs) @ ''}''"
| "plain JOpaque = []"

lemma insort_key_map:
  assumes "\<And>x. fst (g x) = fst x"
  shows "insort_key fst (g x) (map g ys) = map g (insort_key fst x ys)"
  by (induction ys) (simp_all add: assms)

lemma sort_key_map:
  assumes "\<And>x. fst (g x) = fst x"
  shows "sort_key fst (map g xs) = map g (sort_key fst xs)"
  by (induction xs) (simp_all add: insort_key_map assms)

lemma canonical_norm: "canonical_json_dumps j = plain (norm j)"
proof -
  have "dumps_with canonical_style j = plain (norm j)"
  proof (induction canonical_style j rule: dumps_with.induct)
    case (5 xs)
    then show ?case by (simp add: canonical_style_def cong: map_cong)
  next
    case (6 kvs)
    let ?f = "\<lambda>(k, v). (k :: string, dumps_with canonical_style v)"
    let ?n = "\<lambda>(k, v). (k :: string, norm v)"
    have "sort_key fst (map ?f kvs) = map ?f (sort_key fst kvs)"
      "sort_key fst (map ?n kvs) = map ?n (sort_key fst kvs)"
      by (rule sort_key_map; simp add: split_beta)+
    then show ?case using 6
      by (auto simp: Let_def canonical_style_def split_beta intro!: arg_cong [where f = "join '',''"])
  qed (simp_all add: canonical_style_def)
  then show ?thesis by (simp add: canonical_json_dumps_def)
qed

lemma norm_serializable [simp]: "serializable (norm j) = serializable j"
  by (induction j rule: norm.induct) (auto simp: list_all_iff split_beta)

subsection \<open>Strings\<close>

text \<open>Reads one escaped character.\<close>

definition unesc :: "string \<Rightarrow> (char \<times> string) option" where
  "unesc s =
     (case s of
        [] \<Rightarrow> None
      | c # r \<Rightarrow>
          if c \<noteq> CHR 0x5C then Some (c, r)
          else (case r of
             [] \<Rightarrow> None
           | e # r' \<Rightarrow>
               if e = CHR ''b'' then Some (char_of (8::nat), r')
               else if e = CHR ''f'' then Some (char_of (12::nat), r')
               else if e = CHR ''n'' then Some (char_of (10::nat), r')
               else if e = CHR ''r'' then Some (char_of (13::nat), r')
               else if e = CHR ''t'' then Some (char_of (9::nat), r')
               else if e = CHR ''u'' then
                 (case (digit_val 16 (r' ! 2), digit_val 16 (r' ! 3)) of
                    (Some h, Some l) \<Rightarrow> Some (char_of (16 * h + l), drop 4 r') | _ \<Rightarrow> None)
               else Some (e, r')))"

lemma less_32_cases:
  "(n::nat) < 32 \<Longrightarrow> n \<in> {0,1,2,3,4,5,6,7,8,9,10,11,12,13,14,15,16,17,18,19,20,21,22,23,24,25,26,27,28,29,30,31}"
  unfolding insert_iff empty_iff by arith

lemma char_of_eq: "(of_char c :: nat) = n \<Longrightarrow> c = char_of n"
  by (metis char_of_char)

lemma unesc_control: "n < 32 \<Longrightarrow> unesc (esc_control n @ r) = Some (char_of n, r)"
  by (drule less_32_cases, elim insertE emptyE)
    (simp_all add: esc_control_def unesc_def u_escape_def hex4_def digit_def digit_val_def)

lemma unesc_esc: "unesc (esc_utf8 c @ r) = Some (c, r)"
proof -
  let ?n = "of_char c :: nat"
  consider (plain) "\<not> (?n < 32 \<or> ?n = 34 \<or> ?n = 92)" | (q) "?n = 34" | (b) "?n = 92" | (ctl) "?n < 32"
    by blast
  then show ?thesis
  proof cases
    case plain
    then have "c \<noteq> CHR 0x5C" by auto
    with plain show ?thesis by (simp add: esc_utf8_def Let_def unesc_def)
  next
    case q
    have "char_of (34::nat) = CHR 0x22" by code_simp
    with char_of_eq [OF q] show ?thesis by (simp add: esc_utf8_def esc_control_def unesc_def)
  next
    case b
    have "char_of (92::nat) = CHR 0x5C" by code_simp
    with char_of_eq [OF b] show ?thesis by (simp add: esc_utf8_def esc_control_def unesc_def)
  next
    case ctl
    then show ?thesis using unesc_control [OF ctl] by (simp add: esc_utf8_def Let_def)
  qed
qed

lemma esc_head: "\<exists>e es. esc_utf8 c = e # es \<and> e \<noteq> CHR 0x22"
proof (cases "esc_utf8 c")
  case Nil
  with unesc_esc [of c "[]"] show ?thesis by (simp add: unesc_def)
next
  case (Cons e es)
  then have "e \<noteq> CHR 0x22"
    by (auto simp: esc_utf8_def Let_def esc_control_def u_escape_def split: if_splits)
  with Cons show ?thesis by blast
qed

lemma escs_inj:
  "concat (map esc_utf8 s) @ CHR 0x22 # r = concat (map esc_utf8 t) @ CHR 0x22 # r' \<Longrightarrow> s = t \<and> r = r'"
proof (induction s arbitrary: t)
  case Nil
  show ?case
  proof (cases t)
    case (Cons d t')
    with esc_head [of d] Nil show ?thesis by auto
  qed (use Nil in simp)
next
  case (Cons c s)
  show ?case
  proof (cases t)
    case Nil
    with esc_head [of c] Cons.prems show ?thesis by auto
  next
    case (Cons d t')
    have "unesc (esc_utf8 c @ concat (map esc_utf8 s) @ CHR 0x22 # r)
        = unesc (esc_utf8 d @ concat (map esc_utf8 t') @ CHR 0x22 # r')"
      using Cons.prems Cons by simp
    then show ?thesis using Cons.IH [of t'] Cons by (simp add: unesc_esc)
  qed
qed

lemma quote_inj: "quote_str False s @ r = quote_str False t @ r' \<longleftrightarrow> s = t \<and> r = r'"
  using escs_inj [of s r t r'] by (auto simp: quote_str_def)

subsection \<open>Numerals\<close>

definition delimited :: "string \<Rightarrow> bool" where
  "delimited r \<longleftrightarrow> r = [] \<or> hd r \<in> {CHR '','', CHR '']'', CHR ''}''}"

definition num_char :: "char \<Rightarrow> bool" where
  "num_char c \<longleftrightarrow> c = CHR ''-'' \<or> c \<in> digit ` {d. d < 10}"

lemma num_chars: "c \<in> set (py_str_int i) \<Longrightarrow> num_char c"
  using set_show_base [of 10 i] set_show_base [of 10 "- i"]
  by (auto simp: py_str_int_def num_char_def split: if_splits)

lemma num_char_cases: "num_char c \<Longrightarrow> c \<in> set ''-0123456789''"
proof -
  have "\<forall>d < 10. digit d \<in> set ''-0123456789''"
  proof (intro allI impI)
    fix d :: nat assume "d < 10"
    then show "digit d \<in> set ''-0123456789''" using less_16_cases [of d]
      by (auto simp: digit_def)
  qed
  then show "num_char c \<Longrightarrow> c \<in> set ''-0123456789''" by (auto simp: num_char_def)
qed

lemma delim_not_num: "\<not> num_char (CHR '','')" "\<not> num_char (CHR '']'')" "\<not> num_char (CHR ''}'')"
  by (auto dest: num_char_cases)

lemma delimited_not_num: "delimited r \<Longrightarrow> takeWhile num_char r = []"
  using delim_not_num by (cases r) (auto simp: delimited_def)

lemma show_base_inj: "0 \<le> i \<Longrightarrow> 0 \<le> j \<Longrightarrow> show_base 10 i = show_base 10 j \<Longrightarrow> i = j"
  using read_show [of 10 i] read_show [of 10 j] by simp

lemma show_base_no_minus: "0 \<le> i \<Longrightarrow> show_base 10 i \<noteq> CHR ''-'' # s"
  using show_base_digits [of 10 i "CHR ''-''"] digit_not_special by (metis list.set_intros(1))

lemma py_str_int_inj: "py_str_int i = py_str_int j \<Longrightarrow> i = j"
  using show_base_inj [of i j] show_base_inj [of "- i" "- j"]
    show_base_no_minus [of i] show_base_no_minus [of j]
  by (auto simp: py_str_int_def split: if_splits) metis+

lemma num_inj:
  assumes "py_str_int i @ r = py_str_int j @ r'" "delimited r" "delimited r'"
  shows "i = j \<and> r = r'"
proof -
  have t: "takeWhile num_char (py_str_int k @ s) = py_str_int k" if "delimited s" for k s
    using delimited_not_num [OF that] by (subst takeWhile_append2) (auto dest: num_chars)
  have "py_str_int i = py_str_int j" using t [OF assms(2)] t [OF assms(3)] assms(1) by metis
  with assms(1) show ?thesis using py_str_int_inj by simp
qed

lemma py_str_int_head: "\<exists>c s. py_str_int i = c # s \<and> num_char c"
  using num_chars [of "hd (py_str_int i)" i]
  by (cases "py_str_int i") (auto simp: py_str_int_def split: if_splits)

subsection \<open>Lists of texts\<close>

definition starts_item :: "string \<Rightarrow> bool" where
  "starts_item s \<longleftrightarrow> s \<noteq> [] \<and> hd s \<notin> {CHR '','', CHR '']'', CHR ''}''}"

lemma join_step:
  "join '','' (x # xs) @ c # r = x @ (if xs = [] then c # r else CHR '','' # join '','' xs @ c # r)"
  by (cases xs) simp_all

lemma join_inj:
  assumes enc: "\<And>x y r r'. x \<in> set xs \<Longrightarrow> ok y \<Longrightarrow> enc x @ r = enc y @ r' \<Longrightarrow> delimited r \<Longrightarrow>
      delimited r' \<Longrightarrow> x = y \<and> r = r'"
    and op: "\<And>x. ok x \<Longrightarrow> starts_item (enc x)" and c: "c \<in> {CHR '']'', CHR ''}''}"
    and ok: "list_all ok xs" "list_all ok ys"
    and eq: "join '','' (map enc xs) @ c # r = join '','' (map enc ys) @ c # r'"
  shows "xs = ys \<and> r = r'"
  using enc ok eq
proof (induction xs arbitrary: ys)
  case Nil
  show ?case
  proof (cases ys)
    case (Cons y ys')
    then obtain e es where "enc y = e # es" "e \<noteq> c"
      using op [of y] Nil.prems(3) c by (auto simp: starts_item_def neq_Nil_conv)
    then show ?thesis using Nil.prems(4) Cons by (simp add: join_step del: join.simps(3))
  qed (use Nil.prems in simp)
next
  case (Cons x xs)
  show ?case
  proof (cases ys)
    case Nil
    obtain e es where "enc x = e # es" "e \<noteq> c"
      using op [of x] Cons.prems(2) c by (auto simp: starts_item_def neq_Nil_conv)
    then show ?thesis using Cons.prems(4) Nil by (simp add: join_step del: join.simps(3))
  next
    case ys: (Cons y ys')
    let ?tail = "\<lambda>zs t. if zs = [] then c # t else CHR '','' # join '','' (map enc zs) @ c # t"
    have "enc x @ ?tail xs r = enc y @ ?tail ys' r'"
      using Cons.prems(4) by (simp add: ys join_step del: join.simps(3))
    moreover have "delimited (?tail zs t)" for zs t using c by (auto simp: delimited_def)
    moreover have "ok y" using Cons.prems(3) ys by simp
    ultimately have "x = y \<and> ?tail xs r = ?tail ys' r'"
      by (intro Cons.prems(1)) simp_all
    then have "x = y" "?tail xs r = ?tail ys' r'" by simp_all
    have "c \<noteq> CHR '',''" using c by auto
    have "xs = ys' \<and> r = r'"
    proof (cases "xs = [] \<or> ys' = []")
      case True
      with \<open>?tail xs r = ?tail ys' r'\<close> \<open>c \<noteq> CHR '',''\<close> show ?thesis by (auto split: if_splits)
    next
      case False
      show ?thesis
      proof (rule Cons.IH)
        fix x' y' t t'
        assume "x' \<in> set xs" "ok y'" "enc x' @ t = enc y' @ t'" "delimited t" "delimited t'"
        then show "x' = y' \<and> t = t'" by (intro Cons.prems(1)) simp_all
      qed (use False Cons.prems(2,3) ys \<open>?tail xs r = ?tail ys' r'\<close> in simp_all)
    qed
    with \<open>x = y\<close> show ?thesis using ys by simp
  qed
qed

subsection \<open>Values\<close>

lemma starts_item_plain: "serializable j \<Longrightarrow> starts_item (plain j)"
proof (cases j)
  case (JInt i)
  then show ?thesis using py_str_int_head [of i] delim_not_num by (auto simp: starts_item_def)
qed (auto simp: starts_item_def quote_str_def)

definition kind :: "string \<Rightarrow> nat" where
  "kind s = (let c = hd s in
     if c = CHR ''n'' then 0 else if c = CHR ''t'' then 1 else if c = CHR ''f'' then 2
     else if c = CHR 0x22 then 3 else if c = CHR ''['' then 4 else if c = CHR ''{'' then 5 else 6)"

lemma kind_num: "kind (py_str_int i @ r) = 6"
  using py_str_int_head [of i] by (auto simp: kind_def dest!: num_char_cases)

fun json_kind :: "json \<Rightarrow> nat" where
  "json_kind JNull = 0"
| "json_kind (JBool b) = (if b then 1 else 2)"
| "json_kind (JInt i) = 6"
| "json_kind (JStr s) = 3"
| "json_kind (JArr xs) = 4"
| "json_kind (JObj kvs) = 5"
| "json_kind JOpaque = 7"

lemma kind_plain: "serializable j \<Longrightarrow> kind (plain j @ r) = json_kind j"
  using kind_num [of _ r] by (cases j) (simp_all add: kind_def quote_str_def)

lemma same_kind:
  "plain j @ r = plain j' @ r' \<Longrightarrow> serializable j \<Longrightarrow> serializable j' \<Longrightarrow> json_kind j = json_kind j'"
  by (metis kind_plain)

lemma plain_inj:
  "serializable j \<Longrightarrow> serializable j' \<Longrightarrow> delimited r \<Longrightarrow> delimited r' \<Longrightarrow>
   plain j @ r = plain j' @ r' \<Longrightarrow> j = j' \<and> r = r'"
proof (induction j arbitrary: j' r r')
  case JNull
  then have "j' = JNull" using same_kind [OF JNull(5) JNull(1,2)]
    by (cases j') (auto split: if_splits)
  with JNull show ?case by simp
next
  case (JBool b)
  then have "j' = JBool b" using same_kind [OF JBool(5) JBool(1,2)]
    by (cases j') (auto split: if_splits)
  with JBool show ?case by simp
next
  case (JInt i)
  then obtain i' where "j' = JInt i'" using same_kind [OF JInt(5) JInt(1,2)]
    by (cases j') (auto split: if_splits)
  with JInt num_inj [of i r i' r'] show ?case by simp
next
  case (JStr s)
  then obtain s' where "j' = JStr s'" using same_kind [OF JStr(5) JStr(1,2)]
    by (cases j') (auto split: if_splits)
  with JStr show ?case by (simp add: quote_inj)
next
  case (JArr xs)
  then obtain ys where j': "j' = JArr ys" using same_kind [OF JArr.prems(5) JArr.prems(1,2)]
    by (cases j') (auto split: if_splits)
  have "xs = ys \<and> r = r'"
  proof (rule join_inj [where enc = plain and ok = serializable and c = "CHR '']''"])
    fix x y t t' assume "x \<in> set xs" "serializable y" "plain x @ t = plain y @ t'" "delimited t" "delimited t'"
    with JArr.IH [of x y t t'] JArr.prems(1) show "x = y \<and> t = t'" by (simp add: list_all_iff)
  qed (use JArr.prems j' in \<open>auto simp: starts_item_plain\<close>)
  with j' show ?case by simp
next
  case (JObj kvs)
  then obtain lvs where j': "j' = JObj lvs" using same_kind [OF JObj.prems(5) JObj.prems(1,2)]
    by (cases j') (auto split: if_splits)
  let ?enc = "\<lambda>(k, v). quote_str False k @ '':'' @ plain v"
  have "kvs = lvs \<and> r = r'"
  proof (rule join_inj [where enc = ?enc and ok = "\<lambda>(k, v). serializable v" and c = "CHR ''}''"])
    fix x y t t' assume x: "x \<in> set kvs" and y: "(\<lambda>(k, v). serializable v) y"
      and e: "?enc x @ t = ?enc y @ t'" and d: "delimited t" "delimited t'"
    obtain k v l w where xy: "x = (k, v)" "y = (l, w)" by (cases x; cases y) auto
    from e have kl: "k = l" "plain v @ t = plain w @ t'" by (simp_all add: xy quote_inj)
    have "v \<in> Basic_BNFs.snds x" by (simp add: xy)
    with JObj.IH [of x v w t t'] x y d kl(2) JObj.prems(1) show "x = y \<and> t = t'"
      by (auto simp: list_all_iff xy kl)
  qed (use JObj.prems j' in \<open>auto simp: starts_item_def quote_str_def\<close>)
  with j' show ?case by simp
qed simp

lemma canonical_determines:
  assumes "serializable j" "serializable j'" "canonical_json_bytes j = canonical_json_bytes j'"
  shows "norm j = norm j'"
  using plain_inj [of "norm j" "norm j'" "[]" "[]"] assms
  by (simp add: canonical_json_bytes_def canonical_norm delimited_def)

text \<open>For objects: the same keys with the same values, up to the order of keys.\<close>

lemma norm_get:
  "dict_ok d \<Longrightarrow> dict_get (sort_key fst (map (\<lambda>(k, v). (k, norm v)) d)) k = map_option norm (dict_get d k)"
proof -
  assume d: "dict_ok d"
  let ?m = "map (\<lambda>(k, v). (k, norm v)) d"
  have m: "dict_ok ?m" using d by (simp add: o_def split_beta)
  have "distinct (map fst (sort_key fst ?m))"
    using m unfolding distinct_map [of fst] by (simp only: distinct_sort set_sort)
  with m have "dict_get (sort_key fst ?m) = dict_get ?m"
    by (subst map_of_inject_set) auto
  then show ?thesis by (simp add: map_of_map)
qed

lemma canonical_object:
  assumes "canonical_json_bytes (JObj d) = canonical_json_bytes (JObj e)"
    and "list_all (\<lambda>(k, v). serializable v) d" "list_all (\<lambda>(k, v). serializable v) e"
    and "dict_ok d" "dict_ok e"
  shows "map_option norm (dict_get d k) = map_option norm (dict_get e k)"
  using canonical_determines [of "JObj d" "JObj e"] assms norm_get [of d k] norm_get [of e k] by simp

lemma norm_scalar [simp]:
  "norm j = JInt i \<longleftrightarrow> j = JInt i" "norm j = JStr s \<longleftrightarrow> j = JStr s" "norm j = JNull \<longleftrightarrow> j = JNull"
  by (cases j; simp)+

end
