(* ===== verification/TxGuarantees.thy ===== *)
theory TxGuarantees
  imports JsonInj Demo
begin

section \<open>Guarantees of transactions as messages\<close>

text \<open>
  What a signature and an identifier commit to, that signing makes a transaction that verifies
  and can no longer be written, that the cached identifier is never stale, and when a
  transaction survives the way through its dictionary.
\<close>

subsection \<open>What is signed\<close>

lemma dict_ok_signing: "dict_ok (tx_to_signing_dict t)" "dict_ok (tx_to_dict t)"
  by (simp_all add: tx_to_signing_dict_def tx_to_dict_def)

lemma serializable_dicts:
  "list_all (\<lambda>(k, v). serializable v) (tx_to_signing_dict t)"
  "list_all (\<lambda>(k, v). serializable v) (tx_to_dict t)"
  by (auto simp: tx_to_signing_dict_def tx_to_dict_def of_str_option_def split: option.splits)

lemma of_str_option_inj: "norm (of_str_option a) = norm (of_str_option b) \<longleftrightarrow> a = b"
  "of_str_option a = of_str_option b \<longleftrightarrow> a = b"
  by (auto simp: of_str_option_def split: option.splits)

lemma signing_fields:
  "tx_to_signing_dict t = tx_to_signing_dict u \<longleftrightarrow>
     (\<forall>k \<in> {''sender'', ''receiver'', ''amount'', ''gas_limit'', ''fee_per_gas'', ''nonce'', ''data'',
             ''chain_id'', ''timestamp''}.
        map_option norm (dict_get (tx_to_signing_dict t) k) = map_option norm (dict_get (tx_to_signing_dict u) k))"
  by (auto simp: tx_to_signing_dict_def of_str_option_inj)

lemma dict_fields:
  "tx_to_dict t = tx_to_dict u \<longleftrightarrow>
     (\<forall>k \<in> {''sender'', ''receiver'', ''amount'', ''gas_limit'', ''fee_per_gas'', ''nonce'', ''data'',
             ''chain_id'', ''timestamp'', ''signature''}.
        map_option norm (dict_get (tx_to_dict t) k) = map_option norm (dict_get (tx_to_dict u) k))"
  by (auto simp: tx_to_dict_def tx_to_signing_dict_def of_str_option_inj)

text \<open>C33: the bytes that are signed determine every field of the transaction but the signature:
  two transactions have the same payload exactly when sender, receiver, amount, gas limit, fee per
  gas, nonce, data, chain identifier and time stamp are all equal.\<close>

theorem signed_bytes_determine_fields:
  "hash_payload t = hash_payload u \<longleftrightarrow>
     tx_sender t = tx_sender u \<and> tx_receiver t = tx_receiver u \<and> tx_amount t = tx_amount u
     \<and> tx_gas_limit t = tx_gas_limit u \<and> tx_fee_per_gas t = tx_fee_per_gas u \<and> tx_nonce t = tx_nonce u
     \<and> tx_data t = tx_data u \<and> tx_chain_id t = tx_chain_id u \<and> tx_timestamp t = tx_timestamp u"
  (is "_ \<longleftrightarrow> ?fields")
proof
  assume "hash_payload t = hash_payload u"
  then have "tx_to_signing_dict t = tx_to_signing_dict u"
    unfolding signing_fields hash_payload_def
    by (intro ballI canonical_object) (simp_all add: dict_ok_signing serializable_dicts)
  then show ?fields by (simp add: tx_to_signing_dict_def of_str_option_inj)
qed (simp add: hash_payload_def tx_to_signing_dict_def)

text \<open>as far as SHA-256 does not collide on the two texts, two transactions have the same
  identifier exactly when all their fields, signature included, are equal.\<close>

lemma tx_hash_identifies:
  assumes "inj_on (sha256_hex cr)
    {canonical_json_bytes (JObj (tx_to_dict t)), canonical_json_bytes (JObj (tx_to_dict u))}"
  shows "tx_hash cr t = tx_hash cr u \<longleftrightarrow> tx_to_dict t = tx_to_dict u"
proof
  assume "tx_hash cr t = tx_hash cr u"
  then have "canonical_json_bytes (JObj (tx_to_dict t)) = canonical_json_bytes (JObj (tx_to_dict u))"
    unfolding tx_hash_def canonical_json_hash_def by (rule inj_onD [OF assms]) simp_all
  then show "tx_to_dict t = tx_to_dict u" unfolding dict_fields
    by (intro ballI canonical_object) (simp_all add: dict_ok_signing serializable_dicts)
qed (simp add: tx_hash_def)

definition plain_crypto :: ext where
  "plain_crypto = demo_ext\<lparr>sha256_hex := (\<lambda>s. s)\<rparr>"

definition coin_tx :: "int \<Rightarrow> transaction" where
  "coin_tx amt = new_transaction 0 ''aa'' None amt 0 0 0 None ''main'' None (Some 5)"

lemma tx_hash_identifies_witness:
  "tx_hash plain_crypto (coin_tx 1) \<noteq> tx_hash plain_crypto (coin_tx 2)"
proof -
  have "inj_on (sha256_hex plain_crypto)
    {canonical_json_bytes (JObj (tx_to_dict (coin_tx 1))), canonical_json_bytes (JObj (tx_to_dict (coin_tx 2)))}"
    by (auto simp: inj_on_def plain_crypto_def)
  moreover have "tx_to_dict (coin_tx 1) \<noteq> tx_to_dict (coin_tx 2)"
    by (simp add: tx_to_dict_def tx_to_signing_dict_def coin_tx_def new_transaction_def)
  ultimately show ?thesis using tx_hash_identifies by blast
qed

text \<open>with a key whose signatures verify, \<open>sign\<close> on a transaction of that key's address makes
  it verify, changes none of the signed fields and seals it: every later attribute write raises
  \<open>AttributeError\<close>. For any other sender it raises \<open>ValueError\<close>.\<close>

lemma sign_makes_valid:
  assumes "ed25519_verify cr (ed25519_public cr sk) (hash_payload t) (ed25519_sign cr sk (hash_payload t))"
    and "ed25519_sign cr sk (hash_payload t) \<noteq> []" "\<not> tx_sealed t"
  shows "tx_sign cr sk t = (if ed25519_public cr sk \<noteq> tx_sender t then Inl ValueError
     else Inr (t\<lparr>tx_signature := Some (to_hex (ed25519_sign cr sk (hash_payload t))),
       tx_cached_id := None, tx_sealed := True\<rparr>))
   \<and> (\<forall>t'. tx_sign cr sk t = Inr t' \<longrightarrow> tx_verify cr t' \<and> tx_to_signing_dict t' = tx_to_signing_dict t
        \<and> (\<forall>w. tx_setattr w t' = Inl AttributeError))"
  using assms
  by (auto simp: tx_sign_def tx_setattr_def tx_verify_def fromhex_to_hex to_hex_nil
      tx_to_signing_dict_def hash_payload_def)

lemma sign_makes_valid_witness:
  "\<exists>t'. tx_sign demo_ext ''aa'' (new_transaction 0 ''aa'' None 1 0 0 0 None ''main'' None (Some 5)) = Inr t'
     \<and> tx_verify demo_ext t' \<and> tx_setattr (Set_amount 9) t' = Inl AttributeError"
proof -
  let ?t = "new_transaction 0 ''aa'' None 1 0 0 0 None ''main'' None (Some 5)"
  have l: "ed25519_verify demo_ext (ed25519_public demo_ext ''aa'') (hash_payload ?t)
      (ed25519_sign demo_ext ''aa'' (hash_payload ?t))"
    "ed25519_sign demo_ext ''aa'' (hash_payload ?t) \<noteq> []" "\<not> tx_sealed ?t"
    "ed25519_public demo_ext ''aa'' = tx_sender ?t"
    by (simp_all add: demo_ext_def demo_sig_def new_transaction_def)
  from sign_makes_valid [OF l(1-3)] l(4) show ?thesis by auto
qed

subsection \<open>The identifier cache and the seal\<close>

datatype tx_op = Write tx_write | Read_id | Sign string

fun tx_step :: "'a crypto_scheme \<Rightarrow> tx_op \<Rightarrow> transaction \<Rightarrow> transaction" where
  "tx_step cr (Write w) t = (case tx_setattr w t of Inl e \<Rightarrow> t | Inr t' \<Rightarrow> t')"
| "tx_step cr Read_id t = snd (tx_id_step cr t)"
| "tx_step cr (Sign sk) t = (case tx_sign cr sk t of Inl e \<Rightarrow> t | Inr t' \<Rightarrow> t')"

definition tx_run :: "'a crypto_scheme \<Rightarrow> tx_op list \<Rightarrow> transaction \<Rightarrow> transaction" where
  "tx_run cr ops t = fold (tx_step cr) ops t"

lemma tx_step_cache: "tx_cache_ok cr t \<Longrightarrow> tx_cache_ok cr (tx_step cr op t)"
  by (cases op) (auto simp: tx_cache_ok_setattr tx_cache_ok_id_step tx_cache_ok_sign split: sum.splits)

lemma tx_step_sealed:
  "tx_sealed t \<Longrightarrow> tx_sealed (tx_step cr op t) \<and> tx_to_dict (tx_step cr op t) = tx_to_dict t"
  by (cases op) (auto simp: tx_setattr_def tx_sign_def tx_id_step_def tx_to_dict_def
      tx_to_signing_dict_def split: option.splits if_splits sum.splits)

text \<open>whatever is done to a transaction after it is built (attribute writes, reads of its
  identifier, signing, in any order), the identifier it reports is the hash of its present
  contents.\<close>

lemma tx_id_never_stale:
  "tx_id cr (tx_run cr ops (new_transaction now s rv a n gl f d c sg ts))
     = tx_hash cr (tx_run cr ops (new_transaction now s rv a n gl f d c sg ts))"
proof -
  have "tx_cache_ok cr (fold (tx_step cr) ops t)" if "tx_cache_ok cr t" for t
    using that by (induction ops arbitrary: t) (simp_all add: tx_step_cache)
  then show ?thesis unfolding tx_run_def by (intro tx_id_is_hash) (simp add: tx_cache_ok_new)
qed

text \<open>once a transaction is sealed nothing changes its contents any more.\<close>

lemma sealed_for_good:
  assumes "tx_sealed t"
  shows "tx_sealed (tx_run cr ops t) \<and> tx_to_dict (tx_run cr ops t) = tx_to_dict t"
  using assms unfolding tx_run_def
proof (induction ops arbitrary: t)
  case (Cons op ops)
  from tx_step_sealed [OF Cons.prems, of cr op] Cons.IH [of "tx_step cr op t"] show ?case by simp
qed simp

lemma sealed_for_good_witness:
  "tx_to_dict (tx_run demo_ext [Read_id, Write (Set_amount 9), Sign ''aa''] (demo_tx None 1 0 0 0 None))
     = tx_to_dict (demo_tx None 1 0 0 0 None)"
proof -
  have "tx_sealed (demo_tx None 1 0 0 0 None)" by code_simp
  then show ?thesis by (rule sealed_for_good [THEN conjunct2])
qed

subsection \<open>The round trip through the dictionary\<close>

definition reread :: "transaction \<Rightarrow> transaction" where
  "reread t = t\<lparr>tx_timestamp := normalize_ts (tx_timestamp t), tx_cached_id := None, tx_sealed := False\<rparr>"

lemma from_dict_to_dict: "tx_from_dict now (tx_to_dict t) = Inr (reread t)"
  by (cases "tx_receiver t"; cases "tx_data t"; cases "tx_signature t")
    (simp_all add: tx_from_dict_def tx_to_dict_def tx_to_signing_dict_def of_str_option_def
      dec_default_def new_transaction_def reread_def)

text \<open>\<open>from_dict\<close> reads back what \<open>to_dict\<close> wrote, as an unsealed transaction with an empty
  cache, but for the time stamp, which is normalized again: the contents survive exactly when
  the time stamp is 0 or at least \<open>10^12\<close>.\<close>

lemma tx_round_trip:
  "\<exists>t'. tx_from_dict now (tx_to_dict t) = Inr t' \<and> tx_sealed t' = False \<and> tx_cached_id t' = None
     \<and> (tx_to_dict t' = tx_to_dict t \<longleftrightarrow> tx_timestamp t = 0 \<or> 10 ^ 12 \<le> tx_timestamp t)"
  unfolding from_dict_to_dict
  by (auto simp: reread_def tx_to_dict_def tx_to_signing_dict_def normalize_ts_def)

definition early_tx :: transaction where
  "early_tx = (let t = new_transaction 0 ''aa'' None 1 0 0 0 None ''main'' None (Some 86400)
     in case tx_sign demo_ext ''aa'' t of Inl _ \<Rightarrow> t | Inr t' \<Rightarrow> t')"

text \<open>a transaction made with a time stamp of 1970 in seconds is signed and verifies; what a
  peer reads from its dictionary no longer does.\<close>

lemma early_timestamp_breaks_signature:
  "tx_verify demo_ext early_tx
   \<and> (case tx_from_dict 0 (tx_to_dict early_tx) of Inr t' \<Rightarrow> \<not> tx_verify demo_ext t' | Inl _ \<Rightarrow> False)"
  by code_simp

end
