(* ===== verification/Blocks.thy ===== *)
theory Blocks
  imports JsonInj Receipt
begin

section \<open>Blocks (block.py)\<close>

text \<open>
  The Merkle root over identifiers of transactions and hashes of receipts, the class \<open>Block\<close> of
  \<open>minichain/block.py\<close> with its header, its hash, its dictionary forms and the checks that
  \<open>from_dict\<close> and \<open>canonical_payload\<close> make.
\<close>

subsection \<open>Merkle root\<close>

text \<open>An odd level is filled up with its last hash, then neighbours are hashed together.\<close>

definition padded :: "string list \<Rightarrow> string list" where
  "padded hs = (if odd (length hs) then hs @ [last hs] else hs)"

definition next_level :: "'a crypto_scheme \<Rightarrow> string list \<Rightarrow> string list" where
  "next_level cr hs =
     map (\<lambda>i. sha256_hex cr (hs ! (2 * i) @ hs ! (2 * i + 1))) [0..<length hs div 2]"

lemma length_next_level [simp]: "length (next_level cr hs) = length hs div 2"
  by (simp add: next_level_def)

lemma length_padded: "length (padded hs) = 2 * ((length hs + 1) div 2)"
  by (auto simp: padded_def)

function merkle_loop :: "'a crypto_scheme \<Rightarrow> string list \<Rightarrow> string list" where
  "merkle_loop cr hs =
     (if length hs > 1 then merkle_loop cr (next_level cr (padded hs)) else hs)"
  by pat_completeness auto
termination
  by (relation "measure (\<lambda>(cr, hs). length hs)") (auto simp: length_padded)

declare merkle_loop.simps [simp del]

definition merkle_tree :: "'a crypto_scheme \<Rightarrow> string list \<Rightarrow> string option" where
  "merkle_tree cr hs = (if hs = [] then None else Some (hd (merkle_loop cr hs)))"

definition merkle_root :: "'a crypto_scheme \<Rightarrow> transaction list \<Rightarrow> string option" where
  "merkle_root cr txs = (if txs = [] then None else merkle_tree cr (map (tx_id cr) txs))"

definition receipt_hash :: "'a crypto_scheme \<Rightarrow> receipt \<Rightarrow> string" where
  "receipt_hash cr r = canonical_json_hash cr (JObj (receipt_to_dict r))"

definition calculate_receipt_root :: "'a crypto_scheme \<Rightarrow> receipt list \<Rightarrow> string option" where
  "calculate_receipt_root cr rs = (if rs = [] then None else merkle_tree cr (map (receipt_hash cr) rs))"

subsection \<open>The class\<close>

record block =
  bl_index :: int
  bl_previous_hash :: string
  bl_transactions :: "transaction list"
  bl_receipts :: "receipt list"
  bl_miner :: "string option"
  bl_timestamp :: int
  bl_target :: int
  bl_nonce :: int
  bl_hash :: "string option"
  bl_state_root :: "string option"
  bl_receipt_root :: "string option"
  bl_merkle_root :: "string option"

text \<open>\<open>now\<close> is \<open>round(time.time() * 1000)\<close>, read when the time stamp is 0.\<close>

definition new_block ::
  "'a crypto_scheme \<Rightarrow> int \<Rightarrow> int \<Rightarrow> string \<Rightarrow> int \<Rightarrow> transaction list \<Rightarrow> int \<Rightarrow> string option
     \<Rightarrow> string option \<Rightarrow> receipt list \<Rightarrow> string option \<Rightarrow> block" where
  "new_block cr now idx prev tgt txs ts sr rr rcs miner =
     \<lparr>bl_index = idx, bl_previous_hash = prev, bl_transactions = txs, bl_receipts = rcs,
      bl_miner = miner, bl_timestamp = (if ts = 0 then now else ts), bl_target = tgt, bl_nonce = 0,
      bl_hash = None, bl_state_root = sr,
      bl_receipt_root = (if rr = None \<and> rcs \<noteq> [] then calculate_receipt_root cr rcs else rr),
      bl_merkle_root = merkle_root cr txs\<rparr>"

definition to_header_dict :: "block \<Rightarrow> json dict" where
  "to_header_dict b =
     [(''index'', JInt (bl_index b)), (''previous_hash'', JStr (bl_previous_hash b)),
      (''merkle_root'', of_str_option (bl_merkle_root b)),
      (''state_root'', of_str_option (bl_state_root b)),
      (''receipt_root'', of_str_option (bl_receipt_root b)),
      (''timestamp'', JInt (bl_timestamp b)), (''target'', JStr (py_hex (bl_target b))),
      (''nonce'', JInt (bl_nonce b))]
     @ (case bl_miner b of None \<Rightarrow> [] | Some m \<Rightarrow> [(''miner'', JStr m)])"

definition to_body_dict :: "block \<Rightarrow> json dict" where
  "to_body_dict b =
     [(''transactions'', JArr (map (\<lambda>t. JObj (tx_to_dict t)) (bl_transactions b))),
      (''receipts'', JArr (map (\<lambda>r. JObj (receipt_to_dict r)) (bl_receipts b)))]"

definition block_to_dict :: "block \<Rightarrow> json dict" where
  "block_to_dict b =
     dict_set ''hash'' (of_str_option (bl_hash b)) (dict_update (to_header_dict b) (to_body_dict b))"

definition compute_hash :: "'a crypto_scheme \<Rightarrow> block \<Rightarrow> string" where
  "compute_hash cr b = canonical_json_hash cr (JObj (to_header_dict b))"

subsection \<open>Reading a payload\<close>

text \<open>\<open>int(v)\<close> of a JSON value.\<close>

fun py_int :: "json \<Rightarrow> int decoded" where
  "py_int (JInt i) = Inr i"
| "py_int (JBool b) = Inr (if b then 1 else 0)"
| "py_int (JStr s) =
     (case py_int_of_str 10 s of None \<Rightarrow> Inl (Raised ValueError) | Some i \<Rightarrow> Inr i)"
| "py_int JOpaque = Inl Unmodelled"
| "py_int _ = Inl (Raised TypeError)"

text \<open>A list of objects, each read with \<open>f\<close>; an element that is not an object has no fields.\<close>

fun dec_objects :: "(json dict \<Rightarrow> 'b decoded) \<Rightarrow> json list \<Rightarrow> 'b list decoded" where
  "dec_objects f [] = Inr []"
| "dec_objects f (JObj d # xs) =
     decode_bind (f d) (\<lambda>x. decode_bind (dec_objects f xs) (\<lambda>ys. Inr (x # ys)))"
| "dec_objects f (JOpaque # xs) = Inl Unmodelled"
| "dec_objects f (_ # xs) = Inl (Raised TypeError)"

definition dec_object_list :: "(json dict \<Rightarrow> 'b decoded) \<Rightarrow> json option \<Rightarrow> 'b list decoded" where
  "dec_object_list f x = (case x of None \<Rightarrow> Inr [] | Some (JArr xs) \<Rightarrow> dec_objects f xs | Some _ \<Rightarrow> Inl Unmodelled)"

definition parse_target :: "json option \<Rightarrow> int decoded" where
  "parse_target x =
     (case x of
        None \<Rightarrow> Inl (Raised ValueError)
      | Some JNull \<Rightarrow> Inl (Raised ValueError)
      | Some v \<Rightarrow>
          decode_bind (case v of JStr s \<Rightarrow> (case py_int_of_str 16 s of None \<Rightarrow> Inl (Raised ValueError)
                                                                       | Some i \<Rightarrow> Inr i)
                                | _ \<Rightarrow> py_int v) (\<lambda>t.
          if t \<le> 0 \<or> t > MAX_TARGET then Inl (Raised ValueError) else Inr t))"

definition parse_timestamp :: "json option \<Rightarrow> int decoded" where
  "parse_timestamp x = (case x of None \<Rightarrow> Inr 0 | Some JNull \<Rightarrow> Inr 0 | Some v \<Rightarrow> py_int v)"

text \<open>The three checks at the end of \<open>from_dict\<close>; \<open>merkle_root\<close> and \<open>receipt_root\<close> of the
  payload are compared as values.\<close>

definition check_block :: "'a crypto_scheme \<Rightarrow> json dict \<Rightarrow> block \<Rightarrow> block decoded" where
  "check_block cr p b =
     (if (case bl_hash b of None \<Rightarrow> False | Some h \<Rightarrow> h \<noteq> [] \<and> h \<noteq> compute_hash cr b)
      then Inl (Raised ValueError)
      else if (case dict_get p ''merkle_root'' of None \<Rightarrow> False
                 | Some v \<Rightarrow> v \<noteq> of_str_option (bl_merkle_root b)) then Inl (Raised ValueError)
      else if (case dict_get p ''receipt_root'' of None \<Rightarrow> False
                 | Some v \<Rightarrow> v \<noteq> of_str_option (calculate_receipt_root cr (bl_receipts b)))
      then Inl (Raised ValueError)
      else Inr b)"

text \<open>The elements of \<open>transactions\<close> and \<open>receipts\<close> are read at the clock \<open>now\<close>; a missing
  \<open>index\<close> or \<open>previous_hash\<close> is \<open>KeyError\<close>, a false \<open>nonce\<close> is 0.\<close>

definition block_from_dict :: "'a crypto_scheme \<Rightarrow> int \<Rightarrow> json dict \<Rightarrow> block decoded" where
  "block_from_dict cr now p =
     decode_bind (dec_object_list (tx_from_dict now) (dict_get p ''transactions'')) (\<lambda>txs.
     decode_bind (dec_object_list receipt_from_dict (dict_get p ''receipts'')) (\<lambda>rcs.
     decode_bind (parse_target (dict_get p ''target'')) (\<lambda>tgt.
     decode_bind (parse_timestamp (dict_get p ''timestamp'')) (\<lambda>ts.
     decode_bind (case dict_get p ''index'' of None \<Rightarrow> Inl (Raised KeyError) | Some v \<Rightarrow> py_int v) (\<lambda>idx.
     decode_bind (dec_str (dict_get p ''previous_hash'')) (\<lambda>prev.
     decode_bind (dec_str_opt (dict_get p ''state_root'')) (\<lambda>sr.
     decode_bind (dec_str_opt (dict_get p ''receipt_root'')) (\<lambda>rr.
     decode_bind (dec_str_opt (dict_get p ''miner'')) (\<lambda>miner.
     decode_bind (py_int (get_or p ''nonce'' (JInt 0))) (\<lambda>n.
     decode_bind (dec_str_opt (dict_get p ''hash'')) (\<lambda>h.
       check_block cr p ((new_block cr now idx prev tgt txs ts sr rr rcs miner)\<lparr>bl_nonce := n, bl_hash := h\<rparr>))))))))))))"

definition canonical_payload :: "'a crypto_scheme \<Rightarrow> block \<Rightarrow> exn + string" where
  "canonical_payload cr b =
     (case bl_hash b of
        None \<Rightarrow> Inl ValueError
      | Some h \<Rightarrow>
          if h = [] \<or> h \<noteq> compute_hash cr b then Inl ValueError
          else Inr (canonical_json_bytes (JObj (block_to_dict b))))"

end
