(* ===== verification/BlockGuarantees.thy ===== *)
theory BlockGuarantees
  imports Blocks TxGuarantees
begin

section \<open>Guarantees of blocks\<close>

text \<open>
  What a Merkle root and a block hash commit to, when a block survives the way through its
  dictionary, and what \<open>from_dict\<close> has checked of every block that it returns.
\<close>

subsection \<open>The Merkle root\<close>

definition level_inputs :: "string list \<Rightarrow> string list" where
  "level_inputs hs = map (\<lambda>i. hs ! (2 * i) @ hs ! (2 * i + 1)) [0..<length hs div 2]"

lemma next_level_inputs: "next_level cr hs = map (sha256_hex cr) (level_inputs hs)"
  by (simp add: next_level_def level_inputs_def)

text \<open>All texts that are hashed for the root of \<open>hs\<close>.\<close>

function merkle_inputs :: "'a crypto_scheme \<Rightarrow> string list \<Rightarrow> string list" where
  "merkle_inputs cr hs =
     (if length hs > 1
      then level_inputs (padded hs) @ merkle_inputs cr (next_level cr (padded hs)) else [])"
  by pat_completeness auto
termination
  by (relation "measure (\<lambda>(cr, hs). length hs)") (auto simp: length_padded)

declare merkle_inputs.simps [simp del]

lemma nth_even_odd:
  assumes "length xs = 2 * n" "length ys = 2 * n"
    and "\<And>i. i < n \<Longrightarrow> xs ! (2 * i) = ys ! (2 * i) \<and> xs ! (2 * i + 1) = ys ! (2 * i + 1)"
  shows "xs = ys"
proof (rule nth_equalityI)
  fix i assume "i < length xs"
  with assms(1) have d: "i div 2 < n" by linarith
  from assms(3) [OF d] show "xs ! i = ys ! i"
    by (cases "even i") (auto elim!: evenE oddE)
qed (simp add: assms)

lemma level_inputs_inj:
  assumes "level_inputs xs = level_inputs ys" "length xs = 2 * n" "length ys = 2 * n"
    and "\<forall>h \<in> set xs. length h = 64" "\<forall>h \<in> set ys. length h = 64"
  shows "xs = ys"
proof (rule nth_even_odd [OF assms(2,3)])
  fix i assume i: "i < n"
  have "xs ! (2 * i) @ xs ! (2 * i + 1) = ys ! (2 * i) @ ys ! (2 * i + 1)"
    using arg_cong [OF assms(1), of "\<lambda>zs. zs ! i"] i assms(2,3) by (simp add: level_inputs_def)
  moreover have "length (xs ! (2 * i)) = 64" "length (ys ! (2 * i)) = 64" using assms(2-5) i by auto
  ultimately show "xs ! (2 * i) = ys ! (2 * i) \<and> xs ! (2 * i + 1) = ys ! (2 * i + 1)" by simp
qed

lemma padded_inj: "length xs = length ys \<Longrightarrow> padded xs = padded ys \<Longrightarrow> xs = ys"
  by (auto simp: padded_def split: if_splits)

lemma padded_set: "xs \<noteq> [] \<Longrightarrow> set (padded xs) = set xs"
  by (auto simp: padded_def)

lemma merkle_loop_inj:
  assumes "\<forall>s. length (sha256_hex cr s) = 64"
    and "xs \<noteq> []" "length xs = length ys" "\<forall>h \<in> set xs. length h = 64" "\<forall>h \<in> set ys. length h = 64"
    and "inj_on (sha256_hex cr) (set (merkle_inputs cr xs) \<union> set (merkle_inputs cr ys))"
    and "hd (merkle_loop cr xs) = hd (merkle_loop cr ys)"
  shows "xs = ys"
  using assms
proof (induction cr xs arbitrary: ys rule: merkle_loop.induct)
  case (1 cr xs)
  show ?case
  proof (cases "length xs > 1")
    case False
    with 1 obtain x y where "xs = [x]" "ys = [y]"
      by (cases xs; cases ys) auto
    with 1 show ?thesis by (simp add: merkle_loop.simps)
  next
    case True
    let ?px = "padded xs" and ?py = "padded ys"
    have py: "1 < length ys" using True 1 by simp
    obtain n where n: "length ?px = 2 * n" "length ?py = 2 * n" using 1(4) by (simp add: length_padded)
    have n0: "n > 0" using n(1) True by (auto simp: padded_def split: if_splits)
    have sub: "set (merkle_inputs cr xs) = set (level_inputs ?px) \<union> set (merkle_inputs cr (next_level cr ?px))"
      "set (merkle_inputs cr ys) = set (level_inputs ?py) \<union> set (merkle_inputs cr (next_level cr ?py))"
      using True py by (simp_all add: merkle_inputs.simps [of cr xs] merkle_inputs.simps [of cr ys])
    have "next_level cr ?px = next_level cr ?py"
    proof (rule 1(1) [OF True])
      show "next_level cr ?px \<noteq> []" using n n0 by (simp flip: length_greater_0_conv)
      show "inj_on (sha256_hex cr) (set (merkle_inputs cr (next_level cr ?px))
          \<union> set (merkle_inputs cr (next_level cr ?py)))"
        using 1(7) sub by (auto intro: inj_on_subset)
      show "hd (merkle_loop cr (next_level cr ?px)) = hd (merkle_loop cr (next_level cr ?py))"
        using 1(8) True py by (simp add: merkle_loop.simps [of cr xs] merkle_loop.simps [of cr ys])
    qed (use n in \<open>auto simp: next_level_inputs level_inputs_def 1(2)\<close>)
    then have m: "map (sha256_hex cr) (level_inputs ?px) = map (sha256_hex cr) (level_inputs ?py)"
      by (simp only: next_level_inputs)
    have i: "inj_on (sha256_hex cr) (set (level_inputs ?px) \<union> set (level_inputs ?py))"
      by (rule inj_on_subset [OF 1(7)]) (unfold sub, blast)
    have "level_inputs ?px = level_inputs ?py" by (rule inj_on_map_eq_map [OF i, THEN iffD1, OF m])
    moreover have "set ?px = set xs" "set ?py = set ys"
      using 1(3) py by (auto intro!: padded_set)
    ultimately have "?px = ?py" using level_inputs_inj n 1(5,6) by metis
    with 1(4) show ?thesis by (rule padded_inj)
  qed
qed

text \<open>the Merkle root commits to the list: lists of the same length of 64-character hashes with
  the same root are equal, as far as SHA-256 does not collide on the texts hashed for the two
  roots.\<close>

lemma merkle_root_binds:
  assumes "\<forall>s. length (sha256_hex cr s) = 64" "length xs = length ys"
    and "\<forall>h \<in> set xs. length h = 64" "\<forall>h \<in> set ys. length h = 64"
    and "inj_on (sha256_hex cr) (set (merkle_inputs cr xs) \<union> set (merkle_inputs cr ys))"
    and "merkle_tree cr xs = merkle_tree cr ys"
  shows "xs = ys"
proof (cases "xs = []")
  case False
  then have "ys \<noteq> []" using assms(2) by auto
  with False assms merkle_loop_inj [OF assms(1) False assms(2-5)] show ?thesis
    by (simp add: merkle_tree_def)
qed (use assms(2) in simp)

definition letter :: "char \<Rightarrow> string" where
  "letter c = replicate 64 c"

definition pair_crypto :: ext where
  "pair_crypto = demo_ext\<lparr>sha256_hex := (\<lambda>s. letter (if s = letter (CHR ''1'') @ letter (CHR ''2'')
     then CHR ''c'' else CHR ''d''))\<rparr>"

lemma merkle_inputs_short: "merkle_inputs cr [a] = []" "merkle_inputs cr [a, b] = [a @ b]"
  by (simp_all add: merkle_inputs.simps [of cr "[a]"] merkle_inputs.simps [of cr "[a, b]"]
      merkle_inputs.simps [of cr "next_level cr [a, b]"] padded_def level_inputs_def)

lemma merkle_root_binds_witness:
  "merkle_tree pair_crypto [letter (CHR ''1''), letter (CHR ''2'')]
     \<noteq> merkle_tree pair_crypto [letter (CHR ''2''), letter (CHR ''1'')]"
proof
  let ?x = "[letter (CHR ''1''), letter (CHR ''2'')]" and ?y = "[letter (CHR ''2''), letter (CHR ''1'')]"
  assume e: "merkle_tree pair_crypto ?x = merkle_tree pair_crypto ?y"
  let ?p = "letter (CHR ''1'') @ letter (CHR ''2'')" and ?q = "letter (CHR ''2'') @ letter (CHR ''1'')"
  have ne: "?q \<noteq> ?p" "letter (CHR ''1'') \<noteq> letter (CHR ''2'')" "letter (CHR ''d'') \<noteq> letter (CHR ''c'')"
    by code_simp+
  have h: "sha256_hex pair_crypto ?p = letter (CHR ''c'')" "sha256_hex pair_crypto ?q = letter (CHR ''d'')"
    using ne(1) by (simp_all add: pair_crypto_def)
  have len: "\<forall>s. length (sha256_hex pair_crypto s) = 64" "length (letter x) = 64" for x
    by (simp_all add: pair_crypto_def letter_def)
  have "inj_on (sha256_hex pair_crypto) {?p, ?q}"
    using h ne(3) by (auto simp: inj_on_def)
  then have "inj_on (sha256_hex pair_crypto)
      (set (merkle_inputs pair_crypto ?x) \<union> set (merkle_inputs pair_crypto ?y))"
    by (simp only: merkle_inputs_short list.set Un_insert_left Un_insert_right Un_empty_left Un_empty_right
        insert_commute)
  then have "?x = ?y"
    by (rule merkle_root_binds [OF len(1) _ _ _ _ e, rotated 3]) (simp_all add: len(2))
  with ne(2) show False by simp
qed

text \<open>without the length the root does not commit to the list: a list of odd length greater
  than 1 and the same list with its last element twice have the same root.\<close>

lemma merkle_root_duplicate:
  assumes "odd (length xs)" "length xs > 1"
  shows "merkle_tree cr (xs @ [last xs]) = merkle_tree cr xs"
proof -
  have "padded (xs @ [last xs]) = padded xs" using assms(1) by (simp add: padded_def)
  with assms(2) show ?thesis
    by (auto simp: merkle_tree_def merkle_loop.simps [of cr xs] merkle_loop.simps [of cr "xs @ [last xs]"])
qed

lemma merkle_root_duplicate_witness:
  "merkle_tree demo_ext [''a'', ''b'', ''c'', ''c''] = merkle_tree demo_ext [''a'', ''b'', ''c'']"
  using merkle_root_duplicate [of "[''a'', ''b'', ''c'']" demo_ext] by simp

subsection \<open>The block hash\<close>

lemma dict_ok_header: "dict_ok (to_header_dict b)"
  by (simp add: to_header_dict_def split: option.splits)

lemma serializable_header: "list_all (\<lambda>(k, v). serializable v) (to_header_dict b)"
  by (auto simp: to_header_dict_def of_str_option_def split: option.splits)

lemma header_fields:
  "to_header_dict b = to_header_dict c \<longleftrightarrow>
     (\<forall>k \<in> {''index'', ''previous_hash'', ''merkle_root'', ''state_root'', ''receipt_root'', ''timestamp'',
             ''target'', ''nonce'', ''miner''}.
        map_option norm (dict_get (to_header_dict b) k) = map_option norm (dict_get (to_header_dict c) k))"
  by (cases "bl_miner b"; cases "bl_miner c")
    (simp_all add: to_header_dict_def of_str_option_inj conj_ac)

lemma py_hex_inj: "0 \<le> i \<Longrightarrow> 0 \<le> j \<Longrightarrow> py_hex i = py_hex j \<Longrightarrow> i = j"
  by (metis py_int_of_hex option.inject)

text \<open>C31: the block hash commits to the whole header, target included: as far as SHA-256 does not
  collide on the two headers, two blocks with positive targets have the same hash exactly when
  all header fields agree.\<close>

theorem block_hash_binds:
  assumes "inj_on (sha256_hex cr)
      {canonical_json_bytes (JObj (to_header_dict b)), canonical_json_bytes (JObj (to_header_dict c))}"
    and "0 < bl_target b" "0 < bl_target c"
  shows "compute_hash cr b = compute_hash cr c \<longleftrightarrow>
     bl_index b = bl_index c \<and> bl_previous_hash b = bl_previous_hash c
     \<and> bl_merkle_root b = bl_merkle_root c \<and> bl_state_root b = bl_state_root c
     \<and> bl_receipt_root b = bl_receipt_root c \<and> bl_timestamp b = bl_timestamp c
     \<and> bl_target b = bl_target c \<and> bl_nonce b = bl_nonce c \<and> bl_miner b = bl_miner c"
    (is "_ = ?fields")
proof -
  have "to_header_dict b = to_header_dict c \<longleftrightarrow> ?fields"
    using py_hex_inj [of "bl_target b" "bl_target c"] assms(2,3)
    by (cases "bl_miner b"; cases "bl_miner c") (auto simp: to_header_dict_def of_str_option_inj)
  moreover have "to_header_dict b = to_header_dict c" if "compute_hash cr b = compute_hash cr c"
  proof -
    have "canonical_json_bytes (JObj (to_header_dict b)) = canonical_json_bytes (JObj (to_header_dict c))"
      using that unfolding compute_hash_def canonical_json_hash_def by (rule inj_onD [OF assms(1)]) simp_all
    then show ?thesis unfolding header_fields
      by (intro ballI canonical_object) (simp_all add: dict_ok_header serializable_header)
  qed
  ultimately show ?thesis by (auto simp: compute_hash_def)
qed

definition demo_block :: "string option \<Rightarrow> block" where
  "demo_block miner = new_block plain_crypto 0 1 ''0'' 5 [] 7 None None [] miner"

theorem block_hash_binds_witness:
  "compute_hash plain_crypto (demo_block None) \<noteq> compute_hash plain_crypto (demo_block (Some ''aa''))"
proof -
  have "inj_on (sha256_hex plain_crypto)
      {canonical_json_bytes (JObj (to_header_dict (demo_block None))),
       canonical_json_bytes (JObj (to_header_dict (demo_block (Some ''aa''))))}"
    by (auto simp: inj_on_def plain_crypto_def)
  then show ?thesis
    by (subst block_hash_binds) (simp_all add: demo_block_def new_block_def)
qed

subsection \<open>The round trip through the dictionary\<close>

lemma block_to_dict_get:
  "dict_get (block_to_dict b) k =
     (if k = ''hash'' then Some (of_str_option (bl_hash b))
      else if k = ''transactions'' then Some (JArr (map (\<lambda>t. JObj (tx_to_dict t)) (bl_transactions b)))
      else if k = ''receipts'' then Some (JArr (map (\<lambda>r. JObj (receipt_to_dict r)) (bl_receipts b)))
      else dict_get (to_header_dict b) k)"
  by (simp add: block_to_dict_def dict_get_update to_body_dict_def)

lemma header_get:
  "dict_get (to_header_dict b) ''index'' = Some (JInt (bl_index b))"
  "dict_get (to_header_dict b) ''previous_hash'' = Some (JStr (bl_previous_hash b))"
  "dict_get (to_header_dict b) ''merkle_root'' = Some (of_str_option (bl_merkle_root b))"
  "dict_get (to_header_dict b) ''state_root'' = Some (of_str_option (bl_state_root b))"
  "dict_get (to_header_dict b) ''receipt_root'' = Some (of_str_option (bl_receipt_root b))"
  "dict_get (to_header_dict b) ''timestamp'' = Some (JInt (bl_timestamp b))"
  "dict_get (to_header_dict b) ''target'' = Some (JStr (py_hex (bl_target b)))"
  "dict_get (to_header_dict b) ''nonce'' = Some (JInt (bl_nonce b))"
  "dict_get (to_header_dict b) ''miner'' = map_option JStr (bl_miner b)"
  by (simp_all add: to_header_dict_def split: option.splits)

lemma dec_of_str_option [simp]: "dec_str_opt (Some (of_str_option s)) = Inr s"
  by (cases s) (simp_all add: of_str_option_def)

lemma dec_JStr_option [simp]: "dec_str_opt (map_option JStr s) = Inr s"
  by (cases s) simp_all

lemma dec_objects_txs: "dec_objects (tx_from_dict now) (map (\<lambda>t. JObj (tx_to_dict t)) ts) = Inr (map reread ts)"
  by (induction ts) (simp_all add: from_dict_to_dict)

lemma dec_objects_receipts: "dec_objects receipt_from_dict (map (\<lambda>r. JObj (receipt_to_dict r)) rs) = Inr rs"
  by (induction rs) simp_all

definition tx_stable :: "'a crypto_scheme \<Rightarrow> transaction \<Rightarrow> bool" where
  "tx_stable cr t = (tx_cache_ok cr t \<and> (tx_timestamp t = 0 \<or> 10 ^ 12 \<le> tx_timestamp t))"

lemma tx_id_reread: "tx_stable cr t \<Longrightarrow> tx_id cr (reread t) = tx_id cr t"
proof -
  assume t: "tx_stable cr t"
  then have "reread t = t\<lparr>tx_cached_id := None, tx_sealed := False\<rparr>"
    by (auto simp: reread_def tx_stable_def normalize_ts_def)
  with t show ?thesis by (simp add: tx_stable_def tx_id_is_hash tx_cache_ok_def)
qed

text \<open>A block as the node makes it: mined, or not mined yet.\<close>

definition block_ready :: "'a crypto_scheme \<Rightarrow> block \<Rightarrow> bool" where
  "block_ready cr b =
     (bl_merkle_root b = merkle_root cr (bl_transactions b)
      \<and> bl_receipt_root b = calculate_receipt_root cr (bl_receipts b)
      \<and> 0 < bl_target b \<and> bl_target b \<le> MAX_TARGET \<and> bl_timestamp b \<noteq> 0
      \<and> (bl_hash b = None \<or> bl_hash b = Some (compute_hash cr b))
      \<and> list_all (tx_stable cr) (bl_transactions b))"

text \<open>The same without the condition on the time stamps of the transactions, which is stated apart:
  reading normalizes a time stamp once more, and leaves 0 and what counts as milliseconds.\<close>

definition block_made :: "'a crypto_scheme \<Rightarrow> block \<Rightarrow> bool" where
  "block_made cr b =
     (bl_merkle_root b = merkle_root cr (bl_transactions b)
      \<and> bl_receipt_root b = calculate_receipt_root cr (bl_receipts b)
      \<and> 0 < bl_target b \<and> bl_target b \<le> MAX_TARGET \<and> bl_timestamp b \<noteq> 0
      \<and> (bl_hash b = None \<or> bl_hash b = Some (compute_hash cr b))
      \<and> list_all (tx_cache_ok cr) (bl_transactions b))"

definition settled_stamps :: "block \<Rightarrow> bool" where
  "settled_stamps b = list_all (\<lambda>t. tx_timestamp t = 0 \<or> 10 ^ 12 \<le> tx_timestamp t) (bl_transactions b)"

lemma block_ready_iff: "block_ready cr b \<longleftrightarrow> block_made cr b \<and> settled_stamps b"
  by (auto simp: block_ready_def block_made_def settled_stamps_def tx_stable_def list_all_iff)

lemma new_block_ready:
  "0 < tgt \<Longrightarrow> tgt \<le> MAX_TARGET \<Longrightarrow> ts \<noteq> 0 \<Longrightarrow> list_all (tx_stable cr) txs \<Longrightarrow> rr \<in> {None, calculate_receipt_root cr rcs}
   \<Longrightarrow> block_ready cr (new_block cr now idx prev tgt txs ts sr rr rcs miner)"
  by (auto simp: block_ready_def new_block_def calculate_receipt_root_def)

lemma merkle_root_reread: "list_all (tx_stable cr) ts \<Longrightarrow> merkle_root cr (map reread ts) = merkle_root cr ts"
proof -
  assume "list_all (tx_stable cr) ts"
  then have "map (tx_id cr) (map reread ts) = map (tx_id cr) ts"
    by (auto simp: list_all_iff tx_id_reread)
  then show ?thesis by (simp add: merkle_root_def del: map_map)
qed

lemma compute_hash_body: "compute_hash cr (b\<lparr>bl_transactions := ts\<rparr>) = compute_hash cr b"
  by (simp add: compute_hash_def to_header_dict_def)

lemma parse_target_hex: "0 < t \<Longrightarrow> t \<le> MAX_TARGET \<Longrightarrow> parse_target (Some (JStr (py_hex t))) = Inr t"
  by (simp add: parse_target_def py_int_of_hex)

text \<open>What \<open>from_dict\<close> makes of the dictionary of a block before the last checks, and their outcome.\<close>

lemma block_from_made:
  assumes "block_made cr b"
  shows "block_from_dict cr now (block_to_dict b) =
     (if merkle_root cr (map reread (bl_transactions b)) = merkle_root cr (bl_transactions b)
      then Inr (b\<lparr>bl_transactions := map reread (bl_transactions b)\<rparr>) else Inl (Raised ValueError))"
proof -
  let ?c = "b\<lparr>bl_transactions := map reread (bl_transactions b)\<rparr>"
  let ?n = "(new_block cr now (bl_index b) (bl_previous_hash b) (bl_target b) (map reread (bl_transactions b))
      (bl_timestamp b) (bl_state_root b) (bl_receipt_root b) (bl_receipts b) (bl_miner b))
      \<lparr>bl_nonce := bl_nonce b, bl_hash := bl_hash b\<rparr>"
  have r: "bl_merkle_root b = merkle_root cr (bl_transactions b)"
    "bl_receipt_root b = calculate_receipt_root cr (bl_receipts b)" "0 < bl_target b"
    "bl_target b \<le> MAX_TARGET" "bl_timestamp b \<noteq> 0"
    "bl_hash b = None \<or> bl_hash b = Some (compute_hash cr b)"
    using assms by (auto simp: block_made_def)
  have n: "?n = ?c\<lparr>bl_merkle_root := merkle_root cr (map reread (bl_transactions b))\<rparr>"
    using r by (simp add: new_block_def calculate_receipt_root_def)
  have "py_int (get_or (block_to_dict b) ''nonce'' (JInt 0)) = Inr (bl_nonce b)"
    by (simp add: get_or_def block_to_dict_get header_get)
  then have x: "block_from_dict cr now (block_to_dict b) = check_block cr (block_to_dict b) ?n"
    using r(3,4)
    by (simp add: block_from_dict_def block_to_dict_get header_get dec_object_list_def dec_objects_txs
        dec_objects_receipts parse_target_hex parse_timestamp_def)
  show ?thesis
  proof (cases "merkle_root cr (map reread (bl_transactions b)) = merkle_root cr (bl_transactions b)")
    case True
    then have "?n = ?c" by (simp add: n flip: r(1))
    then have "block_from_dict cr now (block_to_dict b) = check_block cr (block_to_dict b) ?c" by (simp only: x)
    also have "\<dots> = Inr ?c"
      using r(2,6) by (auto simp: check_block_def block_to_dict_get header_get compute_hash_body)
    finally show ?thesis using True by simp
  next
    case False
    then show ?thesis using r(1)
      by (simp only: x n) (simp add: check_block_def block_to_dict_get header_get of_str_option_inj)
  qed
qed

lemma settled_root:
  "block_made cr b \<Longrightarrow> settled_stamps b \<Longrightarrow>
     merkle_root cr (map reread (bl_transactions b)) = merkle_root cr (bl_transactions b)"
  by (intro merkle_root_reread) (auto simp: block_made_def settled_stamps_def tx_stable_def list_all_iff)

lemma block_reread:
  assumes "block_ready cr b"
  shows "block_from_dict cr now (block_to_dict b) = Inr (b\<lparr>bl_transactions := map reread (bl_transactions b)\<rparr>)"
  using assms block_from_made [of cr b now] settled_root [of cr b] by (simp add: block_ready_iff)

lemma check_block_ok: "check_block cr p c = Inr b \<Longrightarrow> b = c
    \<and> \<not> (case bl_hash b of None \<Rightarrow> False | Some h \<Rightarrow> h \<noteq> [] \<and> h \<noteq> compute_hash cr b)
    \<and> \<not> (case dict_get p ''merkle_root'' of None \<Rightarrow> False | Some v \<Rightarrow> v \<noteq> of_str_option (bl_merkle_root b))
    \<and> \<not> (case dict_get p ''receipt_root'' of None \<Rightarrow> False
       | Some v \<Rightarrow> v \<noteq> of_str_option (calculate_receipt_root cr (bl_receipts b)))"
  by (simp only: check_block_def split: if_splits) blast+

text \<open>C32: reading back the dictionary of a block. A block with its own Merkle and receipt roots, a
  target in range, a time stamp other than 0 and its own hash or none (the form in which nodes
  make blocks, mined or not) is read with every field as it was and its transactions without
  seal and identifier cache, if every transaction's time stamp is 0 or at least 10^12, which
  reading leaves alone. Without this last condition (a transaction made with a time before
  September 2001 in seconds can be mined) the time stamps are multiplied by 1000 again, and the
  block is refused with \<open>ValueError\<close> unless the changed transactions happen to have the same Merkle root.\<close>

theorem block_round_trip:
  assumes "bl_merkle_root b = merkle_root cr (bl_transactions b)"
    and "bl_receipt_root b = calculate_receipt_root cr (bl_receipts b)"
    and "0 < bl_target b" "bl_target b \<le> MAX_TARGET" "bl_timestamp b \<noteq> 0"
    and "bl_hash b = None \<or> bl_hash b = Some (compute_hash cr b)"
    and "\<forall>t \<in> set (bl_transactions b). tx_cache_ok cr t"
  shows "((\<forall>t \<in> set (bl_transactions b). tx_timestamp t = 0 \<or> 10 ^ 12 \<le> tx_timestamp t) \<longrightarrow>
      block_from_dict cr now (block_to_dict b) = Inr (b\<lparr>bl_transactions := map reread (bl_transactions b)\<rparr>))
    \<and> (merkle_root cr (map reread (bl_transactions b)) \<noteq> merkle_root cr (bl_transactions b) \<longrightarrow>
      block_from_dict cr now (block_to_dict b) = Inl (Raised ValueError))"
proof -
  have m: "block_made cr b" using assms by (simp add: block_made_def list_all_iff)
  show ?thesis using block_from_made [OF m, of now] settled_root [OF m] by (simp add: settled_stamps_def list_all_iff)
qed

definition mined_demo :: block where
  "mined_demo = (let b = new_block plain_crypto 0 1 ''0'' 5 [coin_tx 0] 7 None None [] (Some ''aa'')
     in b\<lparr>bl_transactions := [(coin_tx 0)\<lparr>tx_timestamp := 0\<rparr>],
          bl_merkle_root := merkle_root plain_crypto [(coin_tx 0)\<lparr>tx_timestamp := 0\<rparr>]\<rparr>)"

lemma mined_demo_ready: "block_ready plain_crypto mined_demo"
  by (simp add: block_ready_def mined_demo_def new_block_def coin_tx_def new_transaction_def tx_stable_def
      tx_cache_ok_def calculate_receipt_root_def MAX_TARGET_def)

lemma mined_demo_reread: "block_from_dict plain_crypto 9 (block_to_dict mined_demo) = Inr mined_demo"
  using block_reread [OF mined_demo_ready, of 9]
  by (simp add: mined_demo_def new_block_def coin_tx_def new_transaction_def reread_def normalize_ts_def)

text \<open>The same with a transaction of the first second of 1970.\<close>

definition early_demo :: block where
  "early_demo = (let t = (coin_tx 0)\<lparr>tx_timestamp := 1\<rparr> in
     mined_demo\<lparr>bl_transactions := [t], bl_merkle_root := merkle_root plain_crypto [t]\<rparr>)"

theorem block_round_trip_witness:
  "block_from_dict plain_crypto 9 (block_to_dict mined_demo) = Inr mined_demo
   \<and> block_from_dict plain_crypto 9 (block_to_dict early_demo) = Inl (Raised ValueError)"
proof
  show "block_from_dict plain_crypto 9 (block_to_dict mined_demo) = Inr mined_demo"
    using block_round_trip [of mined_demo plain_crypto 9] mined_demo_ready
    by (simp add: block_ready_iff block_made_def list_all_iff)
      (simp add: mined_demo_def new_block_def coin_tx_def new_transaction_def reread_def normalize_ts_def)
  have "merkle_root plain_crypto (map reread (bl_transactions early_demo)) \<noteq> merkle_root plain_crypto (bl_transactions early_demo)"
    by code_simp
  moreover have "block_made plain_crypto early_demo" using mined_demo_ready
    by (auto simp: block_ready_iff block_made_def early_demo_def Let_def coin_tx_def new_transaction_def tx_cache_ok_def)
      (auto simp: mined_demo_def new_block_def Let_def)
  ultimately show "block_from_dict plain_crypto 9 (block_to_dict early_demo) = Inl (Raised ValueError)"
    using block_round_trip [of early_demo plain_crypto 9] by (simp add: block_made_def list_all_iff)
qed

text \<open>every block that \<open>from_dict\<close> returns has a target in range, a Merkle root of its own
  transactions, a hash that is missing, empty or the hash of its header, and the roots that the
  payload names are the roots of what the payload holds. It does not check the proof of work.\<close>

lemma from_dict_checked:
  assumes "block_from_dict cr now p = Inr b"
  shows "0 < bl_target b \<and> bl_target b \<le> MAX_TARGET
    \<and> bl_merkle_root b = merkle_root cr (bl_transactions b)
    \<and> bl_hash b \<in> {None, Some [], Some (compute_hash cr b)}
    \<and> dict_get p ''merkle_root'' \<in> {None, Some (of_str_option (merkle_root cr (bl_transactions b)))}
    \<and> dict_get p ''receipt_root'' \<in> {None, Some (of_str_option (calculate_receipt_root cr (bl_receipts b)))}"
proof -
  from assms obtain idx prev tgt txs ts sr rr rcs miner n h where
    t: "parse_target (dict_get p ''target'') = Inr tgt" and
    c: "check_block cr p ((new_block cr now idx prev tgt txs ts sr rr rcs miner)\<lparr>bl_nonce := n, bl_hash := h\<rparr>) = Inr b"
    by (auto simp: block_from_dict_def decode_bind_Inr)
  have "0 < tgt \<and> tgt \<le> MAX_TARGET" using t
    by (auto simp: parse_target_def decode_bind_Inr split: option.splits json.splits if_splits)
  note tgt = this
  let ?b = "(new_block cr now idx prev tgt txs ts sr rr rcs miner)\<lparr>bl_nonce := n, bl_hash := h\<rparr>"
  note k = check_block_ok [OF c]
  have b: "b = ?b" using k by simp
  have f: "bl_target b = tgt" "bl_merkle_root b = merkle_root cr (bl_transactions b)"
    by (simp_all add: b new_block_def)
  show ?thesis using tgt k f(1) unfolding f(2) by (auto split: option.splits)
qed

lemma from_dict_checked_witness:
  "bl_merkle_root mined_demo = merkle_root plain_crypto (bl_transactions mined_demo) \<and> 0 < bl_target mined_demo"
  using from_dict_checked [OF mined_demo_reread] by blast

end
