(* ===== verification/Pow.thy ===== *)
theory Pow
  imports Blocks
begin

section \<open>Mining (pow.py)\<close>

text \<open>
  The search of \<open>mine_block\<close> of \<open>minichain/pow.py\<close>. Its inputs from outside are parameters:
  \<open>start\<close> is the random nonce it starts from, \<open>late n\<close> says that the timeout has passed when
  nonce \<open>n\<close> is about to be tried, and \<open>stop n h\<close> that the progress callback returned \<open>False\<close>
  for nonce \<open>n\<close> with hash \<open>h\<close>. The loop ends because at most \<open>max_nonce\<close> nonces are tried.
\<close>

datatype mining_stop = Max_nonce | Timeout | Cancelled

datatype mine_outcome = Mined int string | Exceeded mining_stop | Not_a_number

text \<open>\<open>calculate_hash\<close> of the header dictionary with the nonce written into it.\<close>

definition calculate_hash :: "'a crypto_scheme \<Rightarrow> json dict \<Rightarrow> string" where
  "calculate_hash cr d = canonical_json_hash cr (JObj d)"

definition nonce_hash :: "'a crypto_scheme \<Rightarrow> json dict \<Rightarrow> int \<Rightarrow> string" where
  "nonce_hash cr hdr n = calculate_hash cr (dict_set ''nonce'' (JInt n) hdr)"

function mine_loop ::
  "'a crypto_scheme \<Rightarrow> json dict \<Rightarrow> int \<Rightarrow> int \<Rightarrow> (int \<Rightarrow> bool) \<Rightarrow> (int \<Rightarrow> string \<Rightarrow> bool) \<Rightarrow> int \<Rightarrow> int
     \<Rightarrow> mine_outcome" where
  "mine_loop cr hdr target max_nonce late stop start n =
     (if n - start \<ge> max_nonce then Exceeded Max_nonce
      else if late n then Exceeded Timeout
      else let h = nonce_hash cr hdr n in
        case py_int_of_str 16 h of
          None \<Rightarrow> Not_a_number
        | Some v \<Rightarrow>
            if v < target then Mined n h
            else if stop n h then Exceeded Cancelled
            else mine_loop cr hdr target max_nonce late stop start (n + 1))"
  by pat_completeness auto
termination
  by (relation "measure (\<lambda>(cr, hdr, target, max_nonce, late, stop, start, n). nat (max_nonce - (n - start)))") auto

declare mine_loop.simps [simp del]

text \<open>The block object is written only on success, but for its target.\<close>

definition mine_block ::
  "'a crypto_scheme \<Rightarrow> block \<Rightarrow> int option \<Rightarrow> int option \<Rightarrow> (int \<Rightarrow> bool) \<Rightarrow> (int \<Rightarrow> string \<Rightarrow> bool) \<Rightarrow> int
     \<Rightarrow> block \<times> (exn + mine_outcome)" where
  "mine_block cr b target max_nonce late stop start =
     (let m = (case max_nonce of None \<Rightarrow> int MINING_MAX_NONCE | Some m \<Rightarrow> m);
          t = (case target of None \<Rightarrow> bl_target b | Some t \<Rightarrow> t) in
      if t \<le> 0 then (b, Inl ValueError)
      else let b1 = b\<lparr>bl_target := t\<rparr> in
        case mine_loop cr (to_header_dict b1) t m late stop start start of
          Mined n h \<Rightarrow> (b1\<lparr>bl_nonce := n, bl_hash := Some h\<rparr>, Inr (Mined n h))
        | Exceeded r \<Rightarrow> (b1, Inr (Exceeded r))
        | Not_a_number \<Rightarrow> (b1, Inl ValueError))"

subsection \<open>What the search finds\<close>

definition hits :: "'a crypto_scheme \<Rightarrow> json dict \<Rightarrow> int \<Rightarrow> int \<Rightarrow> bool" where
  "hits cr hdr target n =
     (case py_int_of_str 16 (nonce_hash cr hdr n) of None \<Rightarrow> False | Some v \<Rightarrow> v < target)"

lemma mine_loop_Mined:
  "mine_loop cr hdr target m late stop start n = Mined k h \<Longrightarrow>
     n \<le> k \<and> k - start < m \<and> h = nonce_hash cr hdr k \<and> hits cr hdr target k
     \<and> (\<forall>i. n \<le> i \<and> i < k \<longrightarrow> \<not> hits cr hdr target i) \<and> (\<forall>i. n \<le> i \<and> i \<le> k \<longrightarrow> \<not> late i)"
proof (induction cr hdr target m late stop start n rule: mine_loop.induct)
  case (1 cr hdr target m late stop start n)
  show ?case
  proof (cases "(case py_int_of_str 16 (nonce_hash cr hdr n) of None \<Rightarrow> False | Some v \<Rightarrow> \<not> v < target)
      \<and> \<not> stop n (nonce_hash cr hdr n) \<and> \<not> late n \<and> \<not> n - start \<ge> m")
    case False
    with 1(2) show ?thesis
      by (subst (asm) mine_loop.simps) (auto simp: Let_def hits_def split: if_splits option.splits)
  next
    case True
    then obtain v where v: "py_int_of_str 16 (nonce_hash cr hdr n) = Some v" "v \<ge> target"
      "\<not> stop n (nonce_hash cr hdr n)" "\<not> late n" "\<not> n - start \<ge> m" by (auto split: option.splits)
    then have "mine_loop cr hdr target m late stop start n = mine_loop cr hdr target m late stop start (n + 1)"
      by (subst mine_loop.simps) (auto simp: Let_def)
    with 1 v have ih: "n + 1 \<le> k \<and> k - start < m \<and> h = nonce_hash cr hdr k \<and> hits cr hdr target k
      \<and> (\<forall>i. n + 1 \<le> i \<and> i < k \<longrightarrow> \<not> hits cr hdr target i) \<and> (\<forall>i. n + 1 \<le> i \<and> i \<le> k \<longrightarrow> \<not> late i)"
      by auto
    have "\<not> hits cr hdr target n" using v by (simp add: hits_def)
    then have "\<not> hits cr hdr target i" if "n \<le> i" "i < k" for i
      using ih that by (cases "i = n") auto
    moreover have "\<not> late i" if "n \<le> i" "i \<le> k" for i
      using ih that v(4) by (cases "i = n") auto
    ultimately show ?thesis using ih by auto
  qed
qed

lemma mine_loop_exhausted:
  assumes "\<And>i. start \<le> i \<Longrightarrow> i < start + m \<Longrightarrow> \<not> late i \<and> \<not> stop i (nonce_hash cr hdr i)
      \<and> (\<exists>v. py_int_of_str 16 (nonce_hash cr hdr i) = Some v \<and> v \<ge> target)"
    and "start \<le> n"
  shows "mine_loop cr hdr target m late stop start n = Exceeded Max_nonce"
  using assms
proof (induction cr hdr target m late stop start n rule: mine_loop.induct)
  case (1 cr hdr target m late stop start n)
  show ?case
  proof (cases "n - start \<ge> m")
    case False
    with 1(2) [of n] 1(3) obtain v where v: "\<not> late n" "\<not> stop n (nonce_hash cr hdr n)"
      "py_int_of_str 16 (nonce_hash cr hdr n) = Some v" "v \<ge> target" by auto
    with False have "mine_loop cr hdr target m late stop start n = mine_loop cr hdr target m late stop start (n + 1)"
      by (subst mine_loop.simps) (auto simp: Let_def)
    with 1 False v show ?thesis by auto
  qed (subst mine_loop.simps, simp)
qed

lemma mine_loop_found:
  assumes "start \<le> k" "k - start < m" "hits cr hdr target k"
    and "\<And>i. start \<le> i \<Longrightarrow> i \<le> k \<Longrightarrow> \<not> late i \<and> \<not> stop i (nonce_hash cr hdr i)
      \<and> (\<exists>v. py_int_of_str 16 (nonce_hash cr hdr i) = Some v)"
    and "start \<le> n" "n \<le> k"
  shows "\<exists>j h. mine_loop cr hdr target m late stop start n = Mined j h"
  using assms
proof (induction cr hdr target m late stop start n rule: mine_loop.induct)
  case (1 cr hdr target m late stop start n)
  from 1(5) [of n] 1(6,7) obtain v where v: "\<not> late n" "\<not> stop n (nonce_hash cr hdr n)"
    "py_int_of_str 16 (nonce_hash cr hdr n) = Some v" by auto
  have lt: "\<not> n - start \<ge> m" using 1(3,7) by linarith
  show ?case
  proof (cases "v < target")
    case True
    with v lt show ?thesis by (subst mine_loop.simps) (simp add: Let_def)
  next
    case False
    with v have "n \<noteq> k" using 1(4) by (auto simp: hits_def)
    from v lt False have "mine_loop cr hdr target m late stop start n = mine_loop cr hdr target m late stop start (n + 1)"
      by (subst mine_loop.simps) (auto simp: Let_def)
    moreover have "\<exists>j h. mine_loop cr hdr target m late stop start (n + 1) = Mined j h"
      by (rule 1(1) [OF lt v(1) refl v(3)]) (use False v 1(2-7) \<open>n \<noteq> k\<close> in auto)
    ultimately show ?thesis by simp
  qed
qed

lemma header_nonce: "dict_set ''nonce'' (JInt n) (to_header_dict b) = to_header_dict (b\<lparr>bl_nonce := n\<rparr>)"
  by (cases "bl_miner b") (simp_all add: to_header_dict_def)

lemma nonce_hash_block: "nonce_hash cr (to_header_dict b) n = compute_hash cr (b\<lparr>bl_nonce := n\<rparr>)"
  by (simp add: nonce_hash_def calculate_hash_def compute_hash_def header_nonce)

lemma compute_hash_hash: "compute_hash cr (b\<lparr>bl_hash := h\<rparr>) = compute_hash cr b"
  by (simp add: compute_hash_def to_header_dict_def)

end
