(* ===== verification/PowGuarantees.thy ===== *)
theory PowGuarantees
  imports Pow BlockGuarantees
begin

section \<open>Guarantees of mining\<close>

lemma hits_block:
  "hits cr (to_header_dict b) t n \<longleftrightarrow>
     (\<exists>v. py_int_of_str 16 (compute_hash cr (b\<lparr>bl_nonce := n\<rparr>)) = Some v \<and> v < t)"
  by (auto simp: hits_def nonce_hash_block split: option.splits)

definition satisfies_pow :: "'a crypto_scheme \<Rightarrow> block \<Rightarrow> bool" where
  "satisfies_pow cr b =
     (bl_hash b = Some (compute_hash cr b)
      \<and> (case py_int_of_str 16 (compute_hash cr b) of None \<Rightarrow> False | Some v \<Rightarrow> v < bl_target b))"

text \<open>C21: a block that \<open>mine_block\<close> returns as mined carries the hash of its header, which is
  below its target; only target, nonce and hash were written; the nonce is the first one from
  the start on whose hash is below the target, and fewer than \<open>max_nonce\<close> nonces were passed.\<close>

theorem mined_block_valid:
  assumes "mine_block cr b target max_nonce late stop start = (b', Inr (Mined n h))"
  shows "satisfies_pow cr b' \<and> 0 < bl_target b'
    \<and> b' = b\<lparr>bl_target := bl_target b', bl_nonce := n, bl_hash := Some h\<rparr>
    \<and> start \<le> n \<and> n - start < (case max_nonce of None \<Rightarrow> int MINING_MAX_NONCE | Some m \<Rightarrow> m)
    \<and> list_all (\<lambda>i. case py_int_of_str 16 (compute_hash cr (b'\<lparr>bl_nonce := i\<rparr>)) of
          None \<Rightarrow> True | Some v \<Rightarrow> bl_target b' \<le> v) [start..n - 1]"
proof -
  let ?m = "case max_nonce of None \<Rightarrow> int MINING_MAX_NONCE | Some m \<Rightarrow> m"
  let ?t = "case target of None \<Rightarrow> bl_target b | Some t \<Rightarrow> t"
  let ?b1 = "b\<lparr>bl_target := ?t\<rparr>"
  from assms have t: "0 < ?t" and b': "b' = ?b1\<lparr>bl_nonce := n, bl_hash := Some h\<rparr>"
    and l: "mine_loop cr (to_header_dict ?b1) ?t ?m late stop start start = Mined n h"
    by (auto simp: mine_block_def Let_def split: if_splits mine_outcome.splits)
  from mine_loop_Mined [OF l] have n: "start \<le> n" "n - start < ?m" "h = compute_hash cr (?b1\<lparr>bl_nonce := n\<rparr>)"
    "hits cr (to_header_dict ?b1) ?t n" "\<forall>i. start \<le> i \<and> i < n \<longrightarrow> \<not> hits cr (to_header_dict ?b1) ?t i"
    by (auto simp: nonce_hash_block)
  have hash: "compute_hash cr (b'\<lparr>bl_nonce := i\<rparr>) = compute_hash cr (?b1\<lparr>bl_nonce := i\<rparr>)" for i
    by (simp add: b' compute_hash_def to_header_dict_def)
  have "compute_hash cr b' = compute_hash cr (?b1\<lparr>bl_nonce := n\<rparr>)" 
    by (simp add: b' compute_hash_def to_header_dict_def)
  then have "satisfies_pow cr b'" using n(3,4)
    by (auto simp: satisfies_pow_def hits_block b' compute_hash_hash)
  moreover have "list_all (\<lambda>i. case py_int_of_str 16 (compute_hash cr (b'\<lparr>bl_nonce := i\<rparr>)) of
          None \<Rightarrow> True | Some v \<Rightarrow> bl_target b' \<le> v) [start..n - 1]"
    unfolding list_all_iff
  proof
    fix i assume "i \<in> set [start..n - 1]"
    then have "\<not> hits cr (to_header_dict ?b1) ?t i" using n(5) by auto
    then show "case py_int_of_str 16 (compute_hash cr (b'\<lparr>bl_nonce := i\<rparr>)) of
          None \<Rightarrow> True | Some v \<Rightarrow> bl_target b' \<le> v"
      unfolding hash hits_block by (auto simp: b' split: option.splits)
  qed
  ultimately show ?thesis using n(1,2) t by (simp add: b')
qed

text \<open>A hash that depends on the input's length only on the nonce's digits.\<close>

definition easy_block :: block where
  "easy_block = new_block demo_ext 0 1 ''0'' 152 [] 7 None None [] None"

theorem mined_block_valid_witness:
  "\<exists>b' n h. mine_block demo_ext easy_block None (Some 5) (\<lambda>_. False) (\<lambda>_ _. False) 0 = (b', Inr (Mined n h))
     \<and> satisfies_pow demo_ext b'"
proof -
  let ?r = "mine_block demo_ext easy_block None (Some 5) (\<lambda>_. False) (\<lambda>_ _. False) 0"
  have "case snd ?r of Inr (Mined n h) \<Rightarrow> True | _ \<Rightarrow> False" by code_simp
  then obtain n h where "snd ?r = Inr (Mined n h)" by (auto split: sum.splits mine_outcome.splits)
  then have "?r = (fst ?r, Inr (Mined n h))" by (metis prod.collapse)
  from this mined_block_valid [OF this] show ?thesis by blast
qed

text \<open>C22: the search is complete: when the hashes are numbers, time does not run out and the
  callback does not cancel, \<open>mine_block\<close> returns a mined block exactly when one of the
  \<open>max_nonce\<close> nonces from the start on hits the target; otherwise it stops with \<open>max_nonce
  exceeded\<close>, and the block is as it was but for the target.\<close>

theorem mining_complete:
  assumes "0 < t" "\<forall>i. \<not> late i" "\<forall>i h. \<not> stop i h"
    and "\<forall>i. py_int_of_str 16 (compute_hash cr (b\<lparr>bl_target := t, bl_nonce := i\<rparr>)) \<noteq> None"
  shows "(\<exists>k. start \<le> k \<and> k < start + m \<and> hits cr (to_header_dict (b\<lparr>bl_target := t\<rparr>)) t k)
      = (\<exists>b' n h. mine_block cr b (Some t) (Some m) late stop start = (b', Inr (Mined n h)))
    \<and> ((\<exists>b' n h. mine_block cr b (Some t) (Some m) late stop start = (b', Inr (Mined n h)))
       \<or> mine_block cr b (Some t) (Some m) late stop start = (b\<lparr>bl_target := t\<rparr>, Inr (Exceeded Max_nonce)))"
proof -
  let ?b1 = "b\<lparr>bl_target := t\<rparr>"
  let ?l = "mine_loop cr (to_header_dict ?b1) t m late stop start start"
  have num: "\<exists>v. py_int_of_str 16 (nonce_hash cr (to_header_dict ?b1) i) = Some v" for i
    using assms(4) by (simp add: nonce_hash_block) 
  have run: "mine_block cr b (Some t) (Some m) late stop start =
     (case ?l of Mined n h \<Rightarrow> (?b1\<lparr>bl_nonce := n, bl_hash := Some h\<rparr>, Inr (Mined n h))
        | Exceeded r \<Rightarrow> (?b1, Inr (Exceeded r)) | Not_a_number \<Rightarrow> (?b1, Inl ValueError))"
    using assms(1) by (simp add: mine_block_def Let_def)
  show ?thesis
  proof (cases "\<exists>k. start \<le> k \<and> k < start + m \<and> hits cr (to_header_dict ?b1) t k")
    case True
    then obtain k where k: "start \<le> k" "k - start < m" "hits cr (to_header_dict ?b1) t k" by auto
    have "\<exists>j h. ?l = Mined j h"
      by (rule mine_loop_found [OF k]) (use assms(2,3) num k in auto)
    with True run show ?thesis by auto
  next
    case False
    have "?l = Exceeded Max_nonce"
    proof (rule mine_loop_exhausted)
      fix i assume i: "start \<le> i" "i < start + m"
      from num [of i] obtain v where v: "py_int_of_str 16 (nonce_hash cr (to_header_dict ?b1) i) = Some v" by blast
      with False i have "v \<ge> t" by (auto simp: hits_def)
      with v assms(2,3) show "\<not> late i \<and> \<not> stop i (nonce_hash cr (to_header_dict ?b1) i)
          \<and> (\<exists>v. py_int_of_str 16 (nonce_hash cr (to_header_dict ?b1) i) = Some v \<and> v \<ge> t)" by auto
    qed simp
    with False run show ?thesis by simp
  qed
qed

lemma demo_hash_value: "py_int_of_str 16 (demo_hash s) = Some (int (length s))"
proof -
  let ?s = "show_base 16 (int (length s))"
  have digits: "\<exists>d < 16. c = digit d" if "c \<in> set ?s" for c
    using show_base_digits [of 16 "int (length s)" c] that by simp
  obtain c cs where s: "?s = c # cs" by (cases ?s) auto
  have "c \<in> set ?s" "last ?s \<in> set ?s" using s by auto
  with digits obtain d e where d: "d < 16" "c = digit d" and e: "e < 16" "last ?s = digit e" by metis
  have sp: "strip ?s = ?s"
    using s d e digit_not_special [of d] digit_not_special [of e] by (intro strip_id) auto
  have "take 2 ?s \<noteq> ''0x'' \<and> take 2 ?s \<noteq> ''0X''"
  proof -
    have "CHR ''x'' \<notin> set ?s \<and> CHR ''X'' \<notin> set ?s" using digits digit_not_special by metis
    moreover have "CHR ''x'' \<in> set ?s" if "take 2 ?s = ''0x''"
      using that by (metis in_set_takeD list.set_intros)
    moreover have "CHR ''X'' \<in> set ?s" if "take 2 ?s = ''0X''"
      using that by (metis in_set_takeD list.set_intros)
    ultimately show ?thesis by blast
  qed
  then have dp: "drop_prefix16 16 ?s = ?s" by (simp only: drop_prefix16_def) simp
  show ?thesis using s d sp dp digit_not_special [of d] read_show [of 16 "int (length s)"]
    by (simp add: demo_hash_def py_int_of_str_def read_unsigned_def)
qed

theorem mining_complete_witness:
  "mine_block demo_ext easy_block (Some 1) (Some 3) (\<lambda>_. False) (\<lambda>_ _. False) 0
     = (easy_block\<lparr>bl_target := 1\<rparr>, Inr (Exceeded Max_nonce))"
proof -
  let ?b = "easy_block\<lparr>bl_target := 1\<rparr>"
  have len: "canonical_json_bytes (JObj d) \<noteq> []" for d
    by (simp add: canonical_json_bytes_def canonical_norm)
  have val: "py_int_of_str 16 (compute_hash demo_ext c)
      = Some (int (length (canonical_json_bytes (JObj (to_header_dict c)))))" for c
    by (simp add: compute_hash_def canonical_json_hash_def demo_ext_def demo_hash_value)
  have "\<not> hits demo_ext (to_header_dict ?b) 1 k" for k
    using len by (simp add: hits_block val)
  with mining_complete [of 1 "\<lambda>_. False" "\<lambda>_ _. False" demo_ext easy_block 0 3] show ?thesis
    by (auto simp: val)
qed

end
