(* ===== verification/Floats.thy ===== *)
theory Floats
  imports Prelude
begin

section \<open>Floating point numbers\<close>

text \<open>
  Python's \<open>float\<close> is IEEE double precision. The two places of the code that compute with
  floats (the fee bump of the mempool and the average block time of the chain) stay far inside
  the range of exponents, so a float is here a pair \<open>(m, e)\<close> for \<open>m * 2^e\<close> and every operation
  is the exact result rounded to 53 bits, halves to the even neighbour. Infinities, NaN,
  underflow and overflow are not modelled. An \<open>int\<close> takes part in an operation as the float
  nearest to it; comparisons of an \<open>int\<close> with a \<open>float\<close> are exact, as in Python.
\<close>

type_synonym dbl = "int \<times> int"

function bit_len :: "int \<Rightarrow> nat" where
  "bit_len m = (if m \<le> 0 then 0 else Suc (bit_len (m div 2)))"
  by pat_completeness auto
termination by (relation "measure nat") auto

declare bit_len.simps [simp del]

definition half_even :: "int \<Rightarrow> nat \<Rightarrow> int" where
  "half_even a k =
     (let q = a div 2 ^ k; r = a mod 2 ^ k
      in if 2 * r > 2 ^ k \<or> (2 * r = 2 ^ k \<and> odd q) then q + 1 else q)"

definition rnd :: "dbl \<Rightarrow> dbl" where
  "rnd x =
     (case x of (m, e) \<Rightarrow>
        let k = bit_len \<bar>m\<bar> - 53 in (sgn m * half_even \<bar>m\<bar> k, e + int k))"

definition dbl_of_int :: "int \<Rightarrow> dbl" where
  "dbl_of_int i = rnd (i, 0)"

definition dbl_mul :: "dbl \<Rightarrow> dbl \<Rightarrow> dbl" where
  "dbl_mul x y = rnd (fst x * fst y, snd x + snd y)"

definition dbl_add :: "dbl \<Rightarrow> dbl \<Rightarrow> dbl" where
  "dbl_add x y =
     (let e = min (snd x) (snd y)
      in rnd (fst x * 2 ^ nat (snd x - e) + fst y * 2 ^ nat (snd y - e), e))"

definition dbl_neg :: "dbl \<Rightarrow> dbl" where
  "dbl_neg x = (- fst x, snd x)"

text \<open>\<open>int(x)\<close>: towards zero.\<close>

definition dbl_trunc :: "dbl \<Rightarrow> int" where
  "dbl_trunc x =
     (if 0 \<le> snd x then fst x * 2 ^ nat (snd x)
      else sgn (fst x) * (\<bar>fst x\<bar> div 2 ^ nat (- snd x)))"

definition int_le_dbl :: "int \<Rightarrow> dbl \<Rightarrow> bool" where
  "int_le_dbl i x =
     (if 0 \<le> snd x then i \<le> fst x * 2 ^ nat (snd x) else i * 2 ^ nat (- snd x) \<le> fst x)"

text \<open>The literal \<open>1.1\<close>.\<close>

definition dbl_1_1 :: dbl where
  "dbl_1_1 = (4953959590107546, - 52)"

subsection \<open>Rounding\<close>

lemma half_even_0 [simp]: "half_even a 0 = a"
  by (simp add: half_even_def)

lemma bit_len_bound: "0 \<le> m \<Longrightarrow> m < 2 ^ bit_len m"
proof (induction m rule: bit_len.induct)
  case (1 m)
  show ?case
  proof (cases "m \<le> 0")
    case False
    then have "m div 2 < 2 ^ bit_len (m div 2)" using 1 by (simp add: pos_imp_zdiv_nonneg_iff)
    then show ?thesis using False by (subst bit_len.simps) simp
  qed (use 1 in \<open>simp add: bit_len.simps\<close>)
qed

lemma bit_len_least: "0 < m \<Longrightarrow> 2 ^ (bit_len m - 1) \<le> m"
proof (induction m rule: bit_len.induct)
  case (1 m)
  show ?case
  proof (cases "m = 1")
    case True
    then show ?thesis by (simp add: bit_len.simps)
  next
    case False
    with 1(2) have p: "0 < m div 2" by (simp add: pos_imp_zdiv_pos_iff)
    then have "bit_len (m div 2) \<noteq> 0" by (subst bit_len.simps) simp
    then obtain n where n: "bit_len (m div 2) = Suc n" by (cases "bit_len (m div 2)") auto
    have "2 ^ n \<le> m div 2" using 1 p n by simp
    then have "2 ^ Suc n \<le> m" by simp
    then show ?thesis using 1(2) n by (subst bit_len.simps) simp
  qed
qed

lemma bit_len_small: "0 \<le> m \<Longrightarrow> m < 2 ^ n \<Longrightarrow> bit_len m \<le> n"
proof (rule ccontr)
  assume m: "0 \<le> m" "m < 2 ^ n" "\<not> bit_len m \<le> n"
  then have "0 < m" by (cases "m = 0") (auto simp: bit_len.simps)
  moreover have "(2::int) ^ n \<le> 2 ^ (bit_len m - 1)" using m(3) by (intro power_increasing) auto
  ultimately have "2 ^ n \<le> m" using bit_len_least [of m] by linarith
  with m(2) show False by simp
qed

lemma rnd_exact: "\<bar>m\<bar> < 2 ^ 53 \<Longrightarrow> rnd (m, e) = (m, e)"
  using bit_len_small [of "\<bar>m\<bar>" 53] by (simp add: rnd_def Let_def sgn_mult_abs)

text \<open>The rounded mantissa is off by at most half a unit of the last kept place.\<close>

lemma half_even_error: "\<bar>half_even a k * 2 ^ k - a\<bar> * 2 \<le> 2 ^ k"
proof -
  define p :: int where "p = 2 ^ k"
  define q where "q = a div p"
  define r where "r = a mod p"
  have p0: "0 < p" by (simp add: p_def)
  have a: "a = q * p + r" by (simp add: q_def r_def)
  have r: "0 \<le> r" "r < p" using p0 by (simp_all add: r_def)
  have h: "half_even a k = (if 2 * r > p \<or> (2 * r = p \<and> odd q) then q + 1 else q)"
    by (simp add: half_even_def Let_def p_def q_def r_def)
  have "half_even a k * p - a = (if 2 * r > p \<or> (2 * r = p \<and> odd q) then p - r else - r)"
    unfolding h using a by (auto simp: distrib_right)
  then show ?thesis using r by (auto simp flip: p_def split: if_splits)
qed

text \<open>The relative error of a rounding is at most \<open>2^-53\<close>.\<close>

lemma rnd_lower:
  assumes "0 \<le> a"
  obtains b k where "rnd (a, e) = (b, e + int k)" "0 \<le> b" "a * (2 ^ 53 - 1) \<le> b * 2 ^ k * 2 ^ 53"
proof (cases "a = 0")
  case True
  with that [of 0 0] show ?thesis by (simp add: rnd_exact)
next
  case False
  define k where "k = bit_len a - 53"
  have r: "rnd (a, e) = (half_even a k, e + int k)" using assms False by (simp add: rnd_def k_def Let_def)
  have pos: "0 \<le> half_even a k" using assms by (simp add: half_even_def Let_def pos_imp_zdiv_nonneg_iff)
  have "a * (2 ^ 53 - 1) \<le> half_even a k * 2 ^ k * 2 ^ 53"
  proof (cases "k = 0")
    case True
    then show ?thesis using assms by simp
  next
    case k: False
    then have "bit_len a - 1 = k + 52" by (simp add: k_def)
    with bit_len_least [of a] assms False have big: "2 ^ k * 2 ^ 52 \<le> a" by (simp add: power_add)
    have "(a - half_even a k * 2 ^ k) * 2 \<le> 2 ^ k" using half_even_error [of a k]
      by (simp add: abs_if split: if_splits)
    with big show ?thesis by simp
  qed
  with that r pos show ?thesis by blast
qed

lemma times_1_1_ge:
  assumes "0 \<le> old" "\<not> int_le_dbl new (dbl_mul (dbl_of_int old) dbl_1_1)"
  shows "old < new"
proof -
  obtain b1 k1 where 1: "rnd (old, 0) = (b1, 0 + int k1)" "0 \<le> b1" "old * (2 ^ 53 - 1) \<le> b1 * 2 ^ k1 * 2 ^ 53"
    using rnd_lower [OF assms(1)] by metis
  let ?M = "4953959590107546 :: int"
  have "0 \<le> b1 * ?M" using 1(2) by simp
  then obtain b2 k2 where 2: "rnd (b1 * ?M, int k1 - 52) = (b2, int k1 - 52 + int k2)" "0 \<le> b2"
    "b1 * ?M * (2 ^ 53 - 1) \<le> b2 * 2 ^ k2 * 2 ^ 53"
    using rnd_lower by metis
  define s where "s = int k1 - 52 + int k2"
  have x: "dbl_mul (dbl_of_int old) dbl_1_1 = (b2, s)"
    using 1(1) 2(1) by (simp add: dbl_mul_def dbl_of_int_def dbl_1_1_def s_def)
  have "old * (2 ^ 53 - 1) * (?M * (2 ^ 53 - 1)) \<le> b1 * 2 ^ k1 * 2 ^ 53 * (?M * (2 ^ 53 - 1))"
    using 1(3) by (intro mult_right_mono) simp_all
  also have "\<dots> = b1 * ?M * (2 ^ 53 - 1) * (2 ^ k1 * 2 ^ 53)" by (simp only: mult_ac)
  also have "\<dots> \<le> b2 * 2 ^ k2 * 2 ^ 53 * (2 ^ k1 * 2 ^ 53)"
    using 2(3) by (intro mult_right_mono) simp_all
  finally have "old * (2 ^ 53 - 1) * (?M * (2 ^ 53 - 1)) \<le> b2 * 2 ^ (k1 + k2) * (2 ^ 53 * 2 ^ 53)"
    by (simp only: power_add mult_ac)
  moreover have "old * 2 ^ 52 * (2 ^ 53 * 2 ^ 53) \<le> old * (2 ^ 53 - 1) * (?M * (2 ^ 53 - 1))"
    using assms(1) by simp
  ultimately have "old * 2 ^ 52 * (2 ^ 53 * 2 ^ 53) \<le> b2 * 2 ^ (k1 + k2) * (2 ^ 53 * 2 ^ 53)"
    by (rule order_trans [rotated])
  then have ge: "old * 2 ^ 52 \<le> b2 * 2 ^ (k1 + k2)" by (rule mult_right_le_imp_le) simp
  show ?thesis
  proof (cases "0 \<le> s")
    case True
    then have "nat s + 52 = k1 + k2" by (simp add: s_def)
    then have "b2 * 2 ^ (k1 + k2) = b2 * 2 ^ nat s * 2 ^ 52" by (metis mult.assoc power_add)
    with ge have "old \<le> b2 * 2 ^ nat s" by simp
    with assms(2) True x show ?thesis by (simp add: int_le_dbl_def)
  next
    case False
    then have "nat (- s) + (k1 + k2) = 52" by (simp add: s_def)
    then have e: "(2::int) ^ nat (- s) * 2 ^ (k1 + k2) = 2 ^ 52" by (metis power_add)
    from assms(2) False x have "b2 < new * 2 ^ nat (- s)" by (simp add: int_le_dbl_def)
    then have "b2 * 2 ^ (k1 + k2) < new * 2 ^ nat (- s) * 2 ^ (k1 + k2)" by (intro mult_strict_right_mono) simp_all
    also have "\<dots> = new * 2 ^ 52" by (simp only: mult.assoc e)
    finally show ?thesis using ge by simp
  qed
qed

end
