(* ===== verification/Mempool.thy ===== *)
theory Mempool
  imports Tx Floats
begin

section \<open>The mempool (mempool.py)\<close>

text \<open>
  The class \<open>Mempool\<close> of \<open>minichain/mempool.py\<close>: a list of transactions in which every sender's
  nonces ascend, with replacement of a transaction by a newer one with a higher fee. The lock
  makes each operation atomic. (A comparison of identifiers fills the cache of the two
  transactions with the value it would compute anyway; the model leaves the cache alone.)
\<close>

record mempool =
  mp_list :: "transaction list"
  mp_max_size :: int
  mp_per_block :: int

definition new_mempool :: "int option \<Rightarrow> int option \<Rightarrow> mempool" where
  "new_mempool max_size per_block =
     \<lparr>mp_list = [],
      mp_max_size = (case max_size of None \<Rightarrow> int MEMPOOL_MAX_SIZE | Some n \<Rightarrow> n),
      mp_per_block = (case per_block of None \<Rightarrow> int MEMPOOL_TX_PER_BLOCK | Some n \<Rightarrow> n)\<rparr>"

subsection \<open>Adding\<close>

text \<open>The loop over \<open>enumerate(self._list)\<close>: \<open>existing_idx\<close>, \<open>i_min\<close> and \<open>i_max\<close>.\<close>

fun scan_list :: "transaction \<Rightarrow> nat \<Rightarrow> transaction list \<Rightarrow> nat option \<times> nat \<times> nat \<Rightarrow> nat option \<times> nat \<times> nat" where
  "scan_list tx i [] acc = acc"
| "scan_list tx i (e # es) (existing_idx, i_min, i_max) =
     scan_list tx (Suc i) es
       (if tx_sender e = tx_sender tx then
          if tx_nonce e = tx_nonce tx then (Some i, i_min, i_max)
          else if tx_nonce e < tx_nonce tx then (existing_idx, max i_min (i + 1), i_max)
          else (existing_idx, i_min, min i_max i)
        else (existing_idx, i_min, i_max))"

text \<open>The first position in \<open>[i_min, i_max)\<close> with a lower fee, or \<open>i_max\<close>.\<close>

fun insert_pos :: "transaction list \<Rightarrow> transaction \<Rightarrow> nat list \<Rightarrow> nat \<Rightarrow> nat" where
  "insert_pos xs tx [] i_max = i_max"
| "insert_pos xs tx (j # js) i_max =
     (if tx_fee_per_gas (xs ! j) < tx_fee_per_gas tx then j else insert_pos xs tx js i_max)"

definition list_insert :: "'a list \<Rightarrow> nat \<Rightarrow> 'a \<Rightarrow> 'a list" where
  "list_insert xs i x = take i xs @ x # drop i xs"

definition list_pop :: "'a list \<Rightarrow> nat \<Rightarrow> 'a list" where
  "list_pop xs i = take i xs @ drop (Suc i) xs"

text \<open>\<open>new_fee <= old_fee * 1.1\<close>.\<close>

definition fee_too_low :: "int \<Rightarrow> int \<Rightarrow> bool" where
  "fee_too_low new_fee old_fee = int_le_dbl new_fee (dbl_mul (dbl_of_int old_fee) dbl_1_1)"

definition place :: "transaction list \<Rightarrow> transaction \<Rightarrow> nat \<Rightarrow> nat \<Rightarrow> transaction list" where
  "place xs tx i_min i_max =
     (let lo = min i_min i_max in list_insert xs (insert_pos xs tx [lo..<i_max] i_max) tx)"

definition add_transaction :: "'a crypto_scheme \<Rightarrow> transaction \<Rightarrow> mempool \<Rightarrow> mempool \<times> bool" where
  "add_transaction cr tx mp =
     (if \<not> tx_verify cr tx then (mp, False)
      else case scan_list tx 0 (mp_list mp) (None, 0, length (mp_list mp)) of
        (None, i_min, i_max) \<Rightarrow>
          if int (length (mp_list mp)) \<ge> mp_max_size mp then (mp, False)
          else (mp\<lparr>mp_list := place (mp_list mp) tx i_min i_max\<rparr>, True)
      | (Some ix, i_min, i_max) \<Rightarrow>
          let old = mp_list mp ! ix in
          if tx_id cr old = tx_id cr tx then (mp, False)
          else if tx_timestamp tx \<le> tx_timestamp old then (mp, False)
          else if fee_too_low (tx_fee_per_gas tx) (tx_fee_per_gas old) then (mp, False)
          else (mp\<lparr>mp_list := place (list_pop (mp_list mp) ix) tx
                    (if i_min > ix then i_min - 1 else i_min) (if i_max > ix then i_max - 1 else i_max)\<rparr>, True))"

subsection \<open>Reading and removing\<close>

definition get_transactions_for_block :: "mempool \<Rightarrow> transaction list" where
  "get_transactions_for_block mp = py_prefix (mp_list mp) (mp_per_block mp)"

definition tx_key :: "transaction \<Rightarrow> string \<times> int" where
  "tx_key t = (tx_sender t, tx_nonce t)"

definition remove_transactions :: "transaction list \<Rightarrow> mempool \<Rightarrow> mempool" where
  "remove_transactions txs mp =
     mp\<lparr>mp_list := filter (\<lambda>t. tx_key t \<notin> set (map tx_key txs)) (mp_list mp)\<rparr>"

definition mempool_len :: "mempool \<Rightarrow> nat" where
  "mempool_len mp = length (mp_list mp)"

subsection \<open>The invariant\<close>

text \<open>Every sender's nonces strictly ascend along the list (so no key occurs twice), every
  transaction verifies, and the list is not longer than \<open>max_size\<close>.\<close>

definition before :: "transaction \<Rightarrow> transaction \<Rightarrow> bool" where
  "before a b \<longleftrightarrow> (tx_sender a = tx_sender b \<longrightarrow> tx_nonce a < tx_nonce b)"

definition mempool_ok :: "'a crypto_scheme \<Rightarrow> mempool \<Rightarrow> bool" where
  "mempool_ok cr mp = (sorted_wrt before (mp_list mp) \<and> list_all (tx_verify cr) (mp_list mp)
     \<and> (mp_list mp = [] \<or> int (length (mp_list mp)) \<le> mp_max_size mp))"

subsection \<open>Positions\<close>

text \<open>What the scan has found out about the first \<open>n\<close> elements.\<close>

definition scanned :: "transaction \<Rightarrow> transaction list \<Rightarrow> nat \<Rightarrow> nat option \<times> nat \<times> nat \<Rightarrow> bool" where
  "scanned tx xs n r \<longleftrightarrow> (case r of (ex, lo, hi) \<Rightarrow>
     lo \<le> n \<and> hi \<le> length xs
     \<and> (case ex of None \<Rightarrow> \<forall>i < n. tx_key (xs ! i) \<noteq> tx_key tx
         | Some j \<Rightarrow> j < n \<and> tx_key (xs ! j) = tx_key tx)
     \<and> (\<forall>i < n. tx_sender (xs ! i) = tx_sender tx \<longrightarrow>
          (tx_nonce (xs ! i) < tx_nonce tx \<longrightarrow> i < lo) \<and> (tx_nonce (xs ! i) > tx_nonce tx \<longrightarrow> hi \<le> i))
     \<and> (lo = 0 \<or> (tx_sender (xs ! (lo - 1)) = tx_sender tx \<and> tx_nonce (xs ! (lo - 1)) < tx_nonce tx))
     \<and> (hi = length xs \<or> (hi < n \<and> tx_sender (xs ! hi) = tx_sender tx \<and> tx_nonce (xs ! hi) > tx_nonce tx)))"

lemma scanned_step:
  assumes "scanned tx xs n (ex, lo, hi)" "n < length xs" "xs ! n = e"
  shows "scanned tx xs (Suc n) (if tx_sender e = tx_sender tx then
          if tx_nonce e = tx_nonce tx then (Some n, lo, hi)
          else if tx_nonce e < tx_nonce tx then (ex, max lo (n + 1), hi)
          else (ex, lo, min hi n)
        else (ex, lo, hi))"
  using assms
  by (auto simp: scanned_def tx_key_def less_Suc_eq min_def max_def split: option.splits)

lemma scanned_list:
  "scanned tx xs n r \<Longrightarrow> drop n xs = es \<Longrightarrow> n \<le> length xs \<Longrightarrow> scanned tx xs (length xs) (scan_list tx n es r)"
proof (induction tx n es r rule: scan_list.induct)
  case (1 tx i acc)
  then show ?case by simp
next
  case (2 tx i e es ex lo hi)
  from 2(3) have i: "i < length xs" "xs ! i = e" "drop (Suc i) xs = es"
    by (metis drop_eq_Nil list.distinct(1) not_le, metis hd_drop_conv_nth drop_eq_Nil list.distinct(1) list.sel(1) not_le,
        metis drop_Suc tl_drop list.sel(3))
  from 2(1) [OF scanned_step [OF 2(2) i(1,2)] i(3)] i(1) show ?case by simp
qed

lemma scan_result: "scanned tx xs (length xs) (scan_list tx 0 xs (None, 0, length xs))"
  by (rule scanned_list) (simp_all add: scanned_def)

lemma insert_pos_range: "list_all (\<lambda>j. lo \<le> j \<and> j < hi) js \<Longrightarrow> lo \<le> hi \<Longrightarrow>
    lo \<le> insert_pos xs tx js hi \<and> insert_pos xs tx js hi \<le> hi"
  by (induction js) auto

lemma sorted_insert:
  assumes "sorted_wrt P xs" "\<And>i. i < k \<Longrightarrow> i < length xs \<Longrightarrow> P (xs ! i) x"
    and "\<And>i. k \<le> i \<Longrightarrow> i < length xs \<Longrightarrow> P x (xs ! i)"
  shows "sorted_wrt P (list_insert xs k x)"
proof -
  have "sorted_wrt P (take k xs @ drop k xs)" using assms(1) by simp
  moreover have "P y x" if "y \<in> set (take k xs)" for y
    using that assms(2) by (auto simp: in_set_conv_nth)
  moreover have "P x y" if "y \<in> set (drop k xs)" for y
    using that assms(3) by (auto simp: in_set_conv_nth)
  ultimately show ?thesis unfolding list_insert_def sorted_wrt_append by auto
qed

lemma sorted_pop: "sorted_wrt P xs \<Longrightarrow> sorted_wrt P (list_pop xs k)"
proof -
  assume "sorted_wrt P xs"
  then have "sorted_wrt P (take k xs @ drop k xs)" by simp
  moreover have "set (drop (Suc k) xs) \<subseteq> set (drop k xs)" by (rule set_drop_subset_set_drop) simp
  moreover have "sorted_wrt P (drop (Suc k) xs)" using \<open>sorted_wrt P xs\<close> by (rule sorted_wrt_drop)
  ultimately show ?thesis unfolding list_pop_def sorted_wrt_append by auto
qed

lemma list_pop_nth: "k < length xs \<Longrightarrow> i < length xs - 1 \<Longrightarrow> list_pop xs k ! i = (if i < k then xs ! i else xs ! Suc i)"
  by (auto simp: list_pop_def nth_append min_def)

lemma length_list_pop: "k < length xs \<Longrightarrow> length (list_pop xs k) = length xs - 1"
  by (simp add: list_pop_def)

lemma set_list_insert: "k \<le> length xs \<Longrightarrow> set (list_insert xs k x) = insert x (set xs)"
  unfolding list_insert_def by (metis append_take_drop_id list.simps(15) set_append Un_insert_right)

lemma length_list_insert: "k \<le> length xs \<Longrightarrow> length (list_insert xs k x) = Suc (length xs)"
  by (simp add: list_insert_def)

text \<open>Placing is correct between bounds that separate lower from higher nonces.\<close>

lemma place_sorted:
  assumes "sorted_wrt before xs" "lo \<le> hi" "hi \<le> length xs"
    and "\<And>i. i < length xs \<Longrightarrow> tx_sender (xs ! i) = tx_sender tx \<Longrightarrow>
          (tx_nonce (xs ! i) < tx_nonce tx \<and> i < lo) \<or> (tx_nonce (xs ! i) > tx_nonce tx \<and> hi \<le> i)"
  shows "sorted_wrt before (place xs tx lo hi)"
proof -
  let ?k = "insert_pos xs tx [min lo hi..<hi] hi"
  have k: "lo \<le> ?k" "?k \<le> hi" using insert_pos_range [of lo hi "[min lo hi..<hi]" xs tx] assms(2)
    by (auto simp: list_all_iff)
  show ?thesis unfolding place_def Let_def
  proof (rule sorted_insert [OF assms(1)])
    fix i assume "i < ?k" "i < length xs"
    then show "before (xs ! i) tx" using assms(4) [of i] k by (fastforce simp: before_def)
  next
    fix i assume i: "?k \<le> i" "i < length xs"
    show "before tx (xs ! i)" unfolding before_def
    proof
      assume "tx_sender tx = tx_sender (xs ! i)"
      moreover have "\<not> i < lo" using i(1) k(1) by simp
      ultimately show "tx_nonce tx < tx_nonce (xs ! i)" using assms(4) [OF i(2)] by auto
    qed
  qed
qed

lemma place_props:
  assumes "lo \<le> hi" "hi \<le> length xs"
  shows "set (place xs tx lo hi) = insert tx (set xs)" "length (place xs tx lo hi) = Suc (length xs)"
proof -
  have "insert_pos xs tx [min lo hi..<hi] hi \<le> length xs"
    using insert_pos_range [of lo hi "[min lo hi..<hi]" xs tx] assms by (auto simp: list_all_iff)
  then show "set (place xs tx lo hi) = insert tx (set xs)" "length (place xs tx lo hi) = Suc (length xs)"
    by (simp_all add: place_def Let_def set_list_insert length_list_insert)
qed

subsection \<open>What adding does\<close>

lemma sorted_before_nth:
  "sorted_wrt before xs \<Longrightarrow> i < j \<Longrightarrow> j < length xs \<Longrightarrow> tx_sender (xs ! i) = tx_sender (xs ! j) \<Longrightarrow>
     tx_nonce (xs ! i) < tx_nonce (xs ! j)"
  by (auto simp: sorted_wrt_iff_nth_less before_def)

text \<open>The bounds that the scan returns, for a list whose nonces ascend.\<close>

lemma scan_bounds:
  assumes "sorted_wrt before xs" "scan_list tx 0 xs (None, 0, length xs) = (ex, lo, hi)"
  shows "lo \<le> hi \<and> hi \<le> length xs
    \<and> (\<forall>i < length xs. tx_sender (xs ! i) = tx_sender tx \<longrightarrow>
          (tx_nonce (xs ! i) < tx_nonce tx \<and> i < lo) \<or> (tx_nonce (xs ! i) > tx_nonce tx \<and> hi \<le> i)
          \<or> (tx_nonce (xs ! i) = tx_nonce tx \<and> ex = Some i \<and> lo \<le> i \<and> i < hi))
    \<and> (case ex of None \<Rightarrow> \<forall>t \<in> set xs. tx_key t \<noteq> tx_key tx
         | Some j \<Rightarrow> j < length xs \<and> tx_key (xs ! j) = tx_key tx)"
proof -
  from scan_result [of tx xs] assms(2) have s: "scanned tx xs (length xs) (ex, lo, hi)" by simp
  then have lo: "lo = 0 \<or> (lo - 1 < length xs \<and> tx_sender (xs ! (lo - 1)) = tx_sender tx \<and> tx_nonce (xs ! (lo - 1)) < tx_nonce tx)"
    and hi: "hi = length xs \<or> (hi < length xs \<and> tx_sender (xs ! hi) = tx_sender tx \<and> tx_nonce (xs ! hi) > tx_nonce tx)"
    and le: "lo \<le> length xs" "hi \<le> length xs"
    and bounds: "\<And>i. i < length xs \<Longrightarrow> tx_sender (xs ! i) = tx_sender tx \<Longrightarrow>
          (tx_nonce (xs ! i) < tx_nonce tx \<longrightarrow> i < lo) \<and> (tx_nonce (xs ! i) > tx_nonce tx \<longrightarrow> hi \<le> i)"
    and ex: "case ex of None \<Rightarrow> \<forall>i < length xs. tx_key (xs ! i) \<noteq> tx_key tx
         | Some j \<Rightarrow> j < length xs \<and> tx_key (xs ! j) = tx_key tx"
    by (auto simp: scanned_def)
  note asc = sorted_before_nth [OF assms(1)]
  have lohi: "lo \<le> hi"
  proof (rule ccontr)
    assume "\<not> lo \<le> hi"
    then have "hi \<le> lo - 1" "lo \<noteq> 0" "hi \<noteq> length xs" using le by auto
    then show False using lo hi asc [of hi "lo - 1"] by (cases "hi = lo - 1") auto
  qed
  have eq: "ex = Some i \<and> lo \<le> i \<and> i < hi"
    if i: "i < length xs" "tx_sender (xs ! i) = tx_sender tx" "tx_nonce (xs ! i) = tx_nonce tx" for i
  proof -
    from ex i obtain j where j: "ex = Some j" "j < length xs" "tx_sender (xs ! j) = tx_sender tx"
      "tx_nonce (xs ! j) = tx_nonce tx" by (cases ex) (auto simp: tx_key_def)
    have "i = j" using asc [of i j] asc [of j i] i j by (cases i j rule: linorder_cases) auto
    moreover have "lo \<le> i"
    proof (rule ccontr)
      assume "\<not> lo \<le> i"
      then have "i \<le> lo - 1" "lo \<noteq> 0" by auto
      then show False using lo asc [of i "lo - 1"] i by (cases "i = lo - 1") auto
    qed
    moreover have "i < hi"
    proof (rule ccontr)
      assume "\<not> i < hi"
      then show False using hi asc [of hi i] i by (cases "i = hi") auto
    qed
    ultimately show ?thesis using j by simp
  qed
  have "(tx_nonce (xs ! i) < tx_nonce tx \<and> i < lo) \<or> (tx_nonce (xs ! i) > tx_nonce tx \<and> hi \<le> i)
          \<or> (tx_nonce (xs ! i) = tx_nonce tx \<and> ex = Some i \<and> lo \<le> i \<and> i < hi)"
    if "i < length xs" "tx_sender (xs ! i) = tx_sender tx" for i
    using bounds [OF that] eq [OF that] by linarith
  moreover have "case ex of None \<Rightarrow> \<forall>t \<in> set xs. tx_key t \<noteq> tx_key tx
         | Some j \<Rightarrow> j < length xs \<and> tx_key (xs ! j) = tx_key tx"
    using ex by (auto simp: in_set_conv_nth split: option.splits)
  ultimately show ?thesis using lohi le by blast
qed

text \<open>The two ways in which \<open>add_transaction\<close> succeeds.\<close>

lemma add_cases:
  assumes "sorted_wrt before (mp_list mp)" "add_transaction cr tx mp = (mp', True)"
  obtains (added) lo hi where "tx_verify cr tx" "\<forall>t \<in> set (mp_list mp). tx_key t \<noteq> tx_key tx"
      "int (length (mp_list mp)) < mp_max_size mp" "mp' = mp\<lparr>mp_list := place (mp_list mp) tx lo hi\<rparr>"
      "lo \<le> hi" "hi \<le> length (mp_list mp)" "sorted_wrt before (place (mp_list mp) tx lo hi)"
      "scan_list tx 0 (mp_list mp) (None, 0, length (mp_list mp)) = (None, lo, hi)"
    | (replaced) ix old lo hi where "tx_verify cr tx" "ix < length (mp_list mp)" "old = mp_list mp ! ix"
      "tx_key old = tx_key tx" "tx_timestamp old < tx_timestamp tx"
      "\<not> fee_too_low (tx_fee_per_gas tx) (tx_fee_per_gas old)"
      "mp' = mp\<lparr>mp_list := place (list_pop (mp_list mp) ix) tx lo hi\<rparr>"
      "lo \<le> hi" "hi \<le> length (list_pop (mp_list mp) ix)"
      "sorted_wrt before (place (list_pop (mp_list mp) ix) tx lo hi)"
proof -
  let ?xs = "mp_list mp"
  obtain ex lo hi where r: "scan_list tx 0 ?xs (None, 0, length ?xs) = (ex, lo, hi)"
    by (cases "scan_list tx 0 ?xs (None, 0, length ?xs)") auto
  note b = scan_bounds [OF assms(1) r]
  show thesis
  proof (cases ex)
    case None
    have "sorted_wrt before (place ?xs tx lo hi)"
      by (rule place_sorted) (use assms(1) b None in auto)
    with None assms(2) r b show ?thesis
      by (intro added [of lo hi]) (auto simp: add_transaction_def split: if_splits)
  next
    case (Some ix)
    let ?ys = "list_pop ?xs ix" and ?hi = "hi - 1"
    have ix: "ix < length ?xs" "tx_key (?xs ! ix) = tx_key tx" using b Some by auto
    with b Some have range: "lo \<le> ix" "ix < hi" by (auto simp: tx_key_def)
    have "sorted_wrt before (place ?ys tx lo ?hi)"
    proof (rule place_sorted)
      fix i assume i: "i < length ?ys" "tx_sender (?ys ! i) = tx_sender tx"
      define j where "j = (if i < ix then i else Suc i)"
      have j: "j < length ?xs" "?ys ! i = ?xs ! j" "j \<noteq> ix"
        using i ix by (auto simp: j_def list_pop_nth length_list_pop)
      have "(tx_nonce (?xs ! j) < tx_nonce tx \<and> j < lo) \<or> (tx_nonce (?xs ! j) > tx_nonce tx \<and> hi \<le> j)"
        using b j i Some by auto
      then show "(tx_nonce (?ys ! i) < tx_nonce tx \<and> i < lo) \<or> (tx_nonce (?ys ! i) > tx_nonce tx \<and> ?hi \<le> i)"
        using j range by (auto simp: j_def split: if_splits)
    qed (use range b ix in \<open>auto simp: sorted_pop assms(1) length_list_pop\<close>)
    with Some assms(2) r ix range b show ?thesis
      by (intro replaced [of ix "?xs ! ix" lo ?hi])
        (auto simp: add_transaction_def Let_def length_list_pop split: if_splits)
  qed
qed

lemma set_list_pop: "set (list_pop xs k) \<subseteq> set xs"
  unfolding list_pop_def by (auto dest: in_set_takeD in_set_dropD)

lemma add_transaction_ok:
  assumes "mempool_ok cr mp"
  shows "mempool_ok cr (fst (add_transaction cr tx mp))"
proof (cases "snd (add_transaction cr tx mp)")
  case False
  then have "fst (add_transaction cr tx mp) = mp"
    by (auto simp: add_transaction_def Let_def split: if_splits prod.splits option.splits)
  with assms show ?thesis by simp
next
  case True
  then obtain mp' where mp': "add_transaction cr tx mp = (mp', True)" by (metis prod.collapse)
  from assms have ok: "sorted_wrt before (mp_list mp)" "list_all (tx_verify cr) (mp_list mp)"
    "mp_list mp = [] \<or> int (length (mp_list mp)) \<le> mp_max_size mp" by (auto simp: mempool_ok_def)
  from ok(1) mp' show ?thesis
  proof (cases rule: add_cases)
    case (added lo hi)
    with ok(2) place_props [OF added(5,6), of tx] mp' show ?thesis
      by (auto simp: mempool_ok_def list_all_iff)
  next
    case (replaced ix old lo hi)
    have "mp_list mp \<noteq> []" using replaced(2) by auto
    with ok(2,3) replaced place_props [OF replaced(8,9), of tx] mp' set_list_pop [of "mp_list mp" ix] show ?thesis
      by (auto simp: mempool_ok_def list_all_iff length_list_pop)
  qed
qed

lemma remove_transactions_ok: "mempool_ok cr mp \<Longrightarrow> mempool_ok cr (remove_transactions txs mp)"
proof -
  assume ok: "mempool_ok cr mp"
  let ?l = "mp_list (remove_transactions txs mp)"
  have "length ?l \<le> length (mp_list mp)" by (simp add: remove_transactions_def)
  moreover have "mp_list mp = [] \<or> int (length (mp_list mp)) \<le> mp_max_size mp"
    using ok by (simp add: mempool_ok_def)
  ultimately have "?l = [] \<or> int (length ?l) \<le> mp_max_size mp"
    by (cases "mp_list mp = []") auto
  with ok show ?thesis
    by (simp add: mempool_ok_def remove_transactions_def list_all_iff sorted_wrt_filter)
qed

lemma new_mempool_ok: "mempool_ok cr (new_mempool s k)"
  by (simp add: mempool_ok_def new_mempool_def)

end
