(* ===== verification/MempoolGuarantees.thy ===== *)
theory MempoolGuarantees
  imports Mempool Demo
begin

section \<open>Guarantees of the mempool\<close>

datatype mempool_op = Add transaction | Remove "transaction list"

fun mempool_step :: "'a crypto_scheme \<Rightarrow> mempool_op \<Rightarrow> mempool \<Rightarrow> mempool" where
  "mempool_step cr (Add tx) mp = fst (add_transaction cr tx mp)"
| "mempool_step cr (Remove txs) mp = remove_transactions txs mp"

definition mempool_run :: "'a crypto_scheme \<Rightarrow> mempool_op list \<Rightarrow> mempool \<Rightarrow> mempool" where
  "mempool_run cr ops mp = fold (mempool_step cr) ops mp"

lemma mempool_run_ok: "mempool_ok cr mp \<Longrightarrow> mempool_ok cr (mempool_run cr ops mp)"
  unfolding mempool_run_def
proof (induction ops arbitrary: mp)
  case (Cons op ops)
  have "mempool_ok cr (mempool_step cr op mp)"
    using Cons.prems by (cases op) (simp_all add: add_transaction_ok remove_transactions_ok)
  with Cons.IH show ?case by simp
qed simp

text \<open>C15: after any sequence of additions and removals, every transaction in the mempool verifies,
  the nonces of every sender strictly ascend along the list (so no sender has two transactions
  with one nonce), and the list is not longer than the configured size.\<close>

theorem mempool_invariant:
  "mempool_ok cr (mempool_run cr ops (new_mempool max_size per_block))"
  by (rule mempool_run_ok [OF new_mempool_ok])

definition same_key :: "transaction \<Rightarrow> transaction \<Rightarrow> bool" where
  "same_key t u = (tx_key u = tx_key t)"

text \<open>C16: a transaction that is refused changes nothing. One that is accepted is in the list
  afterwards, and the list otherwise lost exactly the transaction with the same sender and nonce;
  that one was older, and if its fee was not negative, its fee was strictly lower.\<close>

theorem add_transaction_effect:
  assumes "mempool_ok cr mp" "add_transaction cr tx mp = (mp', b)"
  shows "(if b then set (mp_list mp') = insert tx (set (filter (\<lambda>t. \<not> same_key tx t) (mp_list mp)))
        \<and> mp_max_size mp' = mp_max_size mp \<and> mp_per_block mp' = mp_per_block mp
      else mp' = mp)
    \<and> (b \<longrightarrow> list_all (\<lambda>t. tx_timestamp t < tx_timestamp tx \<and> (tx_fee_per_gas t < 0 \<or> tx_fee_per_gas t < tx_fee_per_gas tx))
        (filter (same_key tx) (mp_list mp)))"
proof (cases b)
  case False
  with assms(2) have "mp' = mp"
    by (auto simp: add_transaction_def Let_def split: if_splits prod.splits option.splits)
  with False show ?thesis by simp
next
  case True
  let ?xs = "mp_list mp"
  have s: "sorted_wrt before ?xs" using assms(1) by (simp add: mempool_ok_def)
  from s assms(2) [unfolded True eqTrueI [OF True]] show ?thesis
  proof (cases rule: add_cases)
    case (added lo hi)
    then have "filter (\<lambda>t. \<not> same_key tx t) ?xs = ?xs" "filter (same_key tx) ?xs = []"
      by (auto simp: same_key_def filter_id_conv filter_empty_conv)
    with True added place_props [OF added(5,6), of tx] show ?thesis by simp
  next
    case (replaced ix old lo hi)
    have uniq: "?xs ! i = old" if "i < length ?xs" "tx_key (?xs ! i) = tx_key tx" for i
      using sorted_before_nth [OF s, of i ix] sorted_before_nth [OF s, of ix i] replaced that
      by (cases i ix rule: linorder_cases) (auto simp: tx_key_def)
    have pop: "set (list_pop ?xs ix) = set (filter (\<lambda>t. \<not> same_key tx t) ?xs)"
    proof (intro subset_antisym subsetI)
      fix t assume "t \<in> set (list_pop ?xs ix)"
      then obtain i where i: "i < length ?xs - 1" "t = (if i < ix then ?xs ! i else ?xs ! Suc i)"
        using replaced(2) by (metis in_set_conv_nth length_list_pop list_pop_nth)
      define j where "j = (if i < ix then i else Suc i)"
      have j: "j < length ?xs" "t = ?xs ! j" "j \<noteq> ix" using i by (auto simp: j_def)
      have "tx_key t \<noteq> tx_key tx"
        using sorted_before_nth [OF s, of j ix] sorted_before_nth [OF s, of ix j] j replaced(2-4)
        by (cases j ix rule: linorder_cases) (auto simp: tx_key_def)
      with j show "t \<in> set (filter (\<lambda>t. \<not> same_key tx t) ?xs)" by (auto simp: same_key_def)
    next
      fix t assume "t \<in> set (filter (\<lambda>t. \<not> same_key tx t) ?xs)"
      then obtain j where j: "j < length ?xs" "t = ?xs ! j" "tx_key t \<noteq> tx_key tx"
        by (auto simp: same_key_def in_set_conv_nth)
      then have "j \<noteq> ix" using replaced by auto
      define i where "i = (if j < ix then j else j - 1)"
      have "i < length (list_pop ?xs ix)" "list_pop ?xs ix ! i = t"
        using j \<open>j \<noteq> ix\<close> replaced(2) by (auto simp: i_def list_pop_nth length_list_pop)
      then show "t \<in> set (list_pop ?xs ix)" by (metis nth_mem)
    qed
    have "tx_fee_per_gas old < 0 \<or> tx_fee_per_gas old < tx_fee_per_gas tx"
      using times_1_1_ge [OF _ replaced(6) [unfolded fee_too_low_def]] by linarith
    moreover have "t = old" if "t \<in> set ?xs" "same_key tx t" for t
      using uniq that by (auto simp: in_set_conv_nth same_key_def)
    ultimately show ?thesis using True replaced pop place_props [OF replaced(8,9), of tx]
      by (auto simp: list_all_iff)
  qed
qed

definition pool_ext :: ext where
  "pool_ext = demo_ext\<lparr>sha256_hex := (\<lambda>s. s)\<rparr>"

definition pool_tx :: "string \<Rightarrow> int \<Rightarrow> int \<Rightarrow> int \<Rightarrow> transaction" where
  "pool_tx s n fee ts =
     (let t = new_transaction 0 s None 0 n 0 fee None ''main'' None (Some (10 ^ 12 + ts))
      in case tx_sign pool_ext s t of Inl _ \<Rightarrow> t | Inr t' \<Rightarrow> t')"

definition pool_of :: "transaction list \<Rightarrow> mempool" where
  "pool_of txs = mempool_run pool_ext (map Add txs) (new_mempool (Some 3) (Some 2))"

theorem add_transaction_effect_witness:
  "snd (add_transaction pool_ext (pool_tx ''aa'' 0 20 1) (pool_of [pool_tx ''aa'' 0 10 0]))
   \<and> pool_tx ''aa'' 0 20 1 \<in> set (mp_list (fst (add_transaction pool_ext (pool_tx ''aa'' 0 20 1)
        (pool_of [pool_tx ''aa'' 0 10 0]))))"
proof -
  let ?r = "add_transaction pool_ext (pool_tx ''aa'' 0 20 1) (pool_of [pool_tx ''aa'' 0 10 0])"
  have ok: "mempool_ok pool_ext (pool_of [pool_tx ''aa'' 0 10 0])"
    unfolding pool_of_def by (rule mempool_run_ok [OF new_mempool_ok])
  have s: "snd ?r" by code_simp
  then have "?r = (fst ?r, True)" by (metis (full_types) prod.collapse)
  from add_transaction_effect [OF ok this] s show ?thesis by auto
qed

text \<open>the block that is taken from the mempool is a prefix that holds, with each transaction,
  every pooled transaction of the same sender with a lower nonce, and holds it earlier.\<close>

lemma selection_closed:
  assumes "mempool_ok cr mp" "0 \<le> mp_per_block mp"
    and "i < length (mp_list mp)" "j < length (get_transactions_for_block mp)"
    and "tx_sender (mp_list mp ! i) = tx_sender (get_transactions_for_block mp ! j)"
    and "tx_nonce (mp_list mp ! i) < tx_nonce (get_transactions_for_block mp ! j)"
  shows "i < j \<and> get_transactions_for_block mp ! i = mp_list mp ! i"
proof -
  obtain k where k: "mp_per_block mp = int k" using assms(2) by (metis nat_0_le)
  have sel: "get_transactions_for_block mp = take k (mp_list mp)"
    by (simp add: get_transactions_for_block_def k)
  have s: "sorted_wrt before (mp_list mp)" using assms(1) by (simp add: mempool_ok_def)
  have j: "j < length (mp_list mp)" "j < k" using assms(4) by (auto simp: sel)
  have "i < j"
    using sorted_before_nth [OF s, of j i] assms(3,5,6) j by (cases i j rule: linorder_cases) (auto simp: sel)
  then show ?thesis using j by (simp add: sel)
qed

lemma selection_closed_witness:
  "map tx_nonce (get_transactions_for_block (pool_of [pool_tx ''aa'' 1 9 0, pool_tx ''aa'' 0 1 0])) = [0, 1]
   \<and> get_transactions_for_block (pool_of [pool_tx ''aa'' 1 9 0, pool_tx ''aa'' 0 1 0]) ! 0
       = mp_list (pool_of [pool_tx ''aa'' 1 9 0, pool_tx ''aa'' 0 1 0]) ! 0"
proof -
  let ?p = "pool_of [pool_tx ''aa'' 1 9 0, pool_tx ''aa'' 0 1 0]"
  have ok: "mempool_ok pool_ext ?p" unfolding pool_of_def by (rule mempool_run_ok [OF new_mempool_ok])
  have n: "map tx_nonce (get_transactions_for_block ?p) = [0, 1]" by code_simp
  have "0 \<le> mp_per_block ?p" "0 < length (mp_list ?p)" "1 < length (get_transactions_for_block ?p)"
    "tx_sender (mp_list ?p ! 0) = tx_sender (get_transactions_for_block ?p ! 1)"
    "tx_nonce (mp_list ?p ! 0) < tx_nonce (get_transactions_for_block ?p ! 1)" by code_simp+
  from selection_closed [OF ok this] n show ?thesis by blast
qed

subsection \<open>Order by fee\<close>

definition fee_sorted :: "mempool \<Rightarrow> bool" where
  "fee_sorted mp = sorted_wrt (\<lambda>a b. tx_fee_per_gas b \<le> tx_fee_per_gas a) (mp_list mp)"

lemma scan_other_senders:
  "\<forall>t \<in> set es. tx_sender t \<noteq> tx_sender tx \<Longrightarrow> scan_list tx i es (ex, lo, hi) = (ex, lo, hi)"
  by (induction tx i es "(ex, lo, hi)" arbitrary: ex lo hi rule: scan_list.induct) auto

lemma insert_pos_first:
  "insert_pos xs tx [a..<h] h = k \<Longrightarrow> a \<le> h \<Longrightarrow>
     a \<le> k \<and> k \<le> h \<and> (\<forall>i. a \<le> i \<and> i < k \<longrightarrow> tx_fee_per_gas tx \<le> tx_fee_per_gas (xs ! i))
     \<and> (k < h \<longrightarrow> tx_fee_per_gas (xs ! k) < tx_fee_per_gas tx)"
proof (induction "h - a" arbitrary: a)
  case (Suc d)
  then have a: "[a..<h] = a # [Suc a..<h]" by (simp add: upt_conv_Cons)
  show ?case
  proof (cases "tx_fee_per_gas (xs ! a) < tx_fee_per_gas tx")
    case False
    then have "insert_pos xs tx [Suc a..<h] h = k" using Suc.prems by (simp add: a)
    with Suc.hyps(1) [of "Suc a"] Suc.hyps(2) have
      "Suc a \<le> k \<and> k \<le> h \<and> (\<forall>i. Suc a \<le> i \<and> i < k \<longrightarrow> tx_fee_per_gas tx \<le> tx_fee_per_gas (xs ! i))
     \<and> (k < h \<longrightarrow> tx_fee_per_gas (xs ! k) < tx_fee_per_gas tx)" by auto
    moreover have "tx_fee_per_gas tx \<le> tx_fee_per_gas (xs ! i)" if "a \<le> i" "i < k" for i
      using calculation that False by (cases "i = a") auto
    ultimately show ?thesis by auto
  qed (use Suc.prems a in auto)
qed auto

text \<open>in a mempool ordered by descending fee, a transaction of a sender that has no other
  transaction there keeps the order, behind those with the same fee.\<close>

lemma new_sender_keeps_fee_order:
  assumes "fee_sorted mp" "\<forall>t \<in> set (mp_list mp). tx_sender t \<noteq> tx_sender tx"
  shows "fee_sorted (fst (add_transaction cr tx mp))"
proof -
  let ?xs = "mp_list mp" and ?P = "\<lambda>a b. tx_fee_per_gas b \<le> tx_fee_per_gas a"
  define k where "k = insert_pos ?xs tx [0..<length ?xs] (length ?xs)"
  have scan: "scan_list tx 0 ?xs (None, 0, length ?xs) = (None, 0, length ?xs)"
    by (rule scan_other_senders [OF assms(2)])
  note k = insert_pos_first [OF k_def [symmetric] le0]
  have s: "sorted_wrt ?P ?xs" using assms(1) by (simp add: fee_sorted_def)
  have "sorted_wrt ?P (list_insert ?xs k tx)"
  proof (rule sorted_insert [OF s])
    fix i assume i: "k \<le> i" "i < length ?xs"
    then have "tx_fee_per_gas (?xs ! k) < tx_fee_per_gas tx" using k by auto
    moreover have "tx_fee_per_gas (?xs ! i) \<le> tx_fee_per_gas (?xs ! k)"
      using s i by (cases "i = k") (auto simp: sorted_wrt_iff_nth_less)
    ultimately show "tx_fee_per_gas (?xs ! i) \<le> tx_fee_per_gas tx" by simp
  qed (use k in auto)
  then have "sorted_wrt ?P (place ?xs tx 0 (length ?xs))"
    by (simp add: place_def k_def)
  with assms(1) show ?thesis
    by (auto simp: add_transaction_def scan fee_sorted_def)
qed

text \<open>otherwise the list is not in the order \<open>highest fee first\<close> that the code names: two
  transactions of one sender stay in nonce order, and a third with a fee between theirs is put
  before both. And a replacement by exactly ten per cent is refused.\<close>

lemma mempool_not_by_fee:
  "map tx_fee_per_gas (mp_list (pool_of [pool_tx ''aa'' 0 5 0, pool_tx ''aa'' 1 100 0, pool_tx ''bb'' 0 50 0]))
     = [50, 5, 100]
   \<and> \<not> snd (add_transaction pool_ext (pool_tx ''aa'' 0 11 1) (pool_of [pool_tx ''aa'' 0 10 0]))
   \<and> snd (add_transaction pool_ext (pool_tx ''aa'' 0 12 1) (pool_of [pool_tx ''aa'' 0 10 0]))"
  by code_simp

end
