(* ===== verification/Chain.thy ===== *)
theory Chain
  imports StateTx Pow Floats
begin

section \<open>The chain (chain.py)\<close>

text \<open>
  \<open>validate_block_link_and_hash\<close> and the class \<open>Blockchain\<close> of \<open>minichain/chain.py\<close>: genesis,
  cumulative work, the retargeting, the application of a block, \<open>add_block\<close> and
  \<open>resolve_conflicts\<close>. \<open>now\<close> is the clock in milliseconds where an operation reads it. The lock
  makes each operation atomic. Every operation returns the chain object with its result or the
  exception that left it.
\<close>

subsection \<open>Linking a block\<close>

datatype link_error =
    Bad_previous string "string option"
  | Bad_index int int
  | Bad_hash "string option"
  | Bad_target int
  | Bad_literal string
  | Bad_pow string int
  | Not_later int int
  | Too_far int int

text \<open>\<open>f"{x}"\<close> of a value that may be \<open>None\<close>, and the texts of the errors.\<close>

definition show_option :: "string option \<Rightarrow> string" where
  "show_option x = (case x of None \<Rightarrow> ''None'' | Some s \<Rightarrow> s)"

fun link_error_text :: "link_error \<Rightarrow> string" where
  "link_error_text (Bad_previous a b) = ''invalid previous hash '' @ a @ '' != '' @ show_option b"
| "link_error_text (Bad_index i j) = ''invalid index '' @ py_str_int i @ '' != '' @ py_str_int j"
| "link_error_text (Bad_hash h) = ''invalid hash '' @ show_option h"
| "link_error_text (Bad_target t) = ''invalid target: '' @ py_str_int t"
| "link_error_text (Bad_literal s) = ''invalid literal for int() with base 16: '' @ s"
| "link_error_text (Bad_pow h t) =
     ''invalid Proof of Work: hash '' @ h @ '' does not satisfy target '' @ py_str_int t"
| "link_error_text (Not_later a b) =
     ''invalid timestamp: '' @ py_str_int a
     @ '' is not strictly greater than previous block timestamp '' @ py_str_int b"
| "link_error_text (Too_far a b) =
     ''invalid timestamp: '' @ py_str_int a @ '' is too far in the future (max allowed: ''
     @ py_str_int b @ '')''"

definition validate_block_link_and_hash ::
  "'a crypto_scheme \<Rightarrow> int \<Rightarrow> block \<Rightarrow> block \<Rightarrow> link_error option" where
  "validate_block_link_and_hash cr now prev b =
     (if Some (bl_previous_hash b) \<noteq> bl_hash prev then Some (Bad_previous (bl_previous_hash b) (bl_hash prev))
      else if bl_index b \<noteq> bl_index prev + 1 then Some (Bad_index (bl_index b) (bl_index prev + 1))
      else if bl_hash b \<noteq> Some (calculate_hash cr (to_header_dict b)) then Some (Bad_hash (bl_hash b))
      else if bl_target b \<le> 0 \<or> bl_target b > MAX_TARGET then Some (Bad_target (bl_target b))
      else let h = calculate_hash cr (to_header_dict b) in
        case py_int_of_str 16 h of
          None \<Rightarrow> Some (Bad_literal h)
        | Some v \<Rightarrow>
            if v \<ge> bl_target b then Some (Bad_pow h (bl_target b))
            else if bl_timestamp b \<le> bl_timestamp prev then Some (Not_later (bl_timestamp b) (bl_timestamp prev))
            else if bl_timestamp b > now + MAX_FUTURE_BLOCK_TIME_MS
            then Some (Too_far (bl_timestamp b) (now + MAX_FUTURE_BLOCK_TIME_MS))
            else None)"

fun contains :: "string \<Rightarrow> string \<Rightarrow> bool" where
  "contains p [] = (p = [])"
| "contains p (c # cs) = (take (length p) (c # cs) = p \<or> contains p cs)"

definition link_status :: "link_error \<Rightarrow> validation_status" where
  "link_status e = (if contains ''hash'' (link_error_text e) then INVALID else FAILED)"

subsection \<open>The chain object\<close>

record blockchain =
  bc_chain :: "block list"
  bc_state :: state
  bc_chain_id :: string
  bc_target :: int
  bc_avg_block_time :: dbl
  bc_target_block_time :: int
  bc_alpha :: dbl
  bc_genesis_snapshot :: accounts
  bc_snapshots :: "(string option \<times> accounts) list"

text \<open>\<open>append\<close> on a \<open>deque(maxlen=MAX_STATE_SNAPSHOTS)\<close>.\<close>

definition push_snapshot :: "'s \<Rightarrow> 's list \<Rightarrow> 's list" where
  "push_snapshot s xs = (let ys = xs @ [s] in drop (length ys - MAX_STATE_SNAPSHOTS) ys)"

definition last_block :: "blockchain \<Rightarrow> block" where
  "last_block bc = last (bc_chain bc)"

definition get_total_work :: "block list \<Rightarrow> int" where
  "get_total_work bs = sum_list (map (\<lambda>b. 2 ^ 256 div (if bl_target b = 0 then 1 else bl_target b)) bs)"

subsection \<open>Genesis\<close>

text \<open>The fields of \<open>genesis.json\<close> that are read; \<open>None\<close> is a missing one.\<close>

record genesis_config =
  gc_alloc :: "json dict"
  gc_initial_supply :: "int option"
  gc_chain_id :: "string option"
  gc_timestamp :: "int option"
  gc_target :: "json option"
  gc_target_block_time :: "int option"
  gc_alpha :: "dbl option"
  gc_hash :: "string option"

datatype genesis_error = Exit | Genesis_raised exn | Genesis_unmodelled

text \<open>\<open>isinstance(balance, int) and balance >= 0\<close>.\<close>

definition alloc_balance :: "json \<Rightarrow> genesis_error + int" where
  "alloc_balance data =
     (case data of
        JObj d \<Rightarrow>
          (case (case dict_get d ''balance'' of None \<Rightarrow> JInt 0 | Some v \<Rightarrow> v) of
             JInt i \<Rightarrow> if i < 0 then Inl Exit else Inr i
           | JBool b \<Rightarrow> Inr (if b then 1 else 0)
           | _ \<Rightarrow> Inl Exit)
      | _ \<Rightarrow> Inl (Genesis_raised AttributeError))"

fun alloc_accounts :: "json dict \<Rightarrow> accounts \<Rightarrow> int \<Rightarrow> genesis_error + accounts \<times> int" where
  "alloc_accounts [] A allocated = Inr (A, allocated)"
| "alloc_accounts ((addr, data) # rest) A allocated =
     (case alloc_balance data of
        Inl e \<Rightarrow> Inl e
      | Inr v \<Rightarrow>
          alloc_accounts rest
            (acc_modify addr (\<lambda>a. a\<lparr>acc_balance := v\<rparr>) (get_account addr A)) (allocated + v))"

definition genesis_target :: "json option \<Rightarrow> genesis_error + int" where
  "genesis_target x =
     (case x of
        None \<Rightarrow> Inl Exit
      | Some JNull \<Rightarrow> Inl Exit
      | Some v \<Rightarrow>
          (case (case v of JStr s \<Rightarrow> (case py_int_of_str 16 s of None \<Rightarrow> Inl (Raised ValueError)
                                                                | Some i \<Rightarrow> Inr i)
                         | _ \<Rightarrow> py_int v) of
             Inl (Raised e) \<Rightarrow> Inl (Genesis_raised e)
           | Inl Unmodelled \<Rightarrow> Inl Genesis_unmodelled
           | Inr t \<Rightarrow> if t \<le> 0 \<or> t > MAX_TARGET then Inl Exit else Inr t))"

text \<open>The float literal \<open>0.1\<close>.\<close>

definition dbl_0_1 :: dbl where
  "dbl_0_1 = (3602879701896397, - 55)"

definition create_genesis :: "'a crypto_scheme \<Rightarrow> int \<Rightarrow> genesis_config \<Rightarrow> genesis_error + blockchain" where
  "create_genesis cr now g =
     (case alloc_accounts (gc_alloc g) (Plain []) 0 of
        Inl e \<Rightarrow> Inl e
      | Inr (A, allocated) \<Rightarrow>
          if (case gc_initial_supply g of None \<Rightarrow> False | Some s \<Rightarrow> s \<noteq> allocated) then Inl Exit
          else let cid = (case gc_chain_id g of None \<Rightarrow> ''minichain-default'' | Some c \<Rightarrow> c) in
            case genesis_target (gc_target g) of
              Inl e \<Rightarrow> Inl e
            | Inr tgt \<Rightarrow>
                let tbt = (case gc_target_block_time g of None \<Rightarrow> 10000 | Some t \<Rightarrow> t);
                    alpha = (case gc_alpha g of None \<Rightarrow> dbl_0_1 | Some a \<Rightarrow> a) in
                case state_root cr A of
                  Inl e \<Rightarrow> Inl (Genesis_raised e)
                | Inr root \<Rightarrow>
                    case gc_timestamp g of
                      None \<Rightarrow> Inl (Genesis_raised TypeError)
                    | Some ts \<Rightarrow>
                        let b = new_block cr now 0 ''0'' tgt [] ts (Some root) None [] None;
                            h = calculate_hash cr (to_header_dict b) in
                        if (case gc_hash g of None \<Rightarrow> False | Some c \<Rightarrow> c \<noteq> [] \<and> c \<noteq> h) then Inl Exit
                        else Inr \<lparr>bc_chain = [b\<lparr>bl_hash := Some h\<rparr>],
                                  bc_state = \<lparr>st_accounts = A, st_chain_id = cid\<rparr>, bc_chain_id = cid,
                                  bc_target = tgt, bc_avg_block_time = dbl_of_int tbt,
                                  bc_target_block_time = tbt, bc_alpha = alpha,
                                  bc_genesis_snapshot = A, bc_snapshots = [(Some h, A)]\<rparr>)"

subsection \<open>Retargeting\<close>

definition next_target :: "blockchain \<Rightarrow> int \<Rightarrow> dbl \<Rightarrow> exn + int" where
  "next_target bc target avg =
     (if bc_target_block_time bc = 0 then Inl ZeroDivisionError
      else Inr (max MIN_TARGET (min MAX_TARGET ((target * dbl_trunc avg) div bc_target_block_time bc))))"

text \<open>\<open>alpha * dt + (1 - alpha) * avg\<close>.\<close>

definition next_avg :: "blockchain \<Rightarrow> int \<Rightarrow> dbl \<Rightarrow> dbl" where
  "next_avg bc dt avg =
     dbl_add (dbl_mul (bc_alpha bc) (dbl_of_int dt))
       (dbl_mul (dbl_add (1, 0) (dbl_neg (bc_alpha bc))) avg)"

subsection \<open>Applying a block\<close>

text \<open>The loop over the transactions. (A \<open>VALID\<close> status always comes with a receipt; without one the
  later \<open>to_dict()\<close> would raise \<open>AttributeError\<close>.)\<close>

fun apply_txs ::
  "'a ext_scheme \<Rightarrow> state \<Rightarrow> transaction list \<Rightarrow> state \<times> (exn + validation_status \<times> receipt list)" where
  "apply_txs E st [] = (st, Inr (VALID, []))"
| "apply_txs E st (tx # txs) =
     (case validate_and_apply_with_status E st tx of
        (st1, Inl e) \<Rightarrow> (st1, Inl e)
      | (st1, Inr (s, rc)) \<Rightarrow>
          if s \<noteq> VALID then (st1, Inr (s, []))
          else case rc of
                 None \<Rightarrow> (st1, Inl AttributeError)
               | Some r \<Rightarrow>
                   (case apply_txs E st1 txs of
                      (st2, Inl e) \<Rightarrow> (st2, Inl e)
                    | (st2, Inr (s', rs)) \<Rightarrow> (st2, Inr (s', r # rs))))"

definition total_fees :: "receipt list \<Rightarrow> transaction list \<Rightarrow> int" where
  "total_fees rs txs = sum_list (map (\<lambda>(r, t). rc_gas_used r * tx_fee_per_gas t) (zip rs txs))"

text \<open>\<open>if block.miner\<close>.\<close>

definition pay_miner :: "block \<Rightarrow> int \<Rightarrow> state \<Rightarrow> state" where
  "pay_miner b fees st =
     (case bl_miner b of
        None \<Rightarrow> st
      | Some m \<Rightarrow>
          if m = [] then st
          else st\<lparr>st_accounts := credit_mining_reward m (Some (DEFAULT_MINING_REWARD + fees)) (st_accounts st)\<rparr>)"

definition apply_block ::
  "'a ext_scheme \<Rightarrow> int \<Rightarrow> blockchain \<Rightarrow> block \<Rightarrow> block \<Rightarrow> state \<Rightarrow> int \<Rightarrow> dbl
     \<Rightarrow> state \<times> (exn + validation_status \<times> int \<times> dbl)" where
  "apply_block E now bc prev b st target avg =
     (case validate_block_link_and_hash E now prev b of
        Some e \<Rightarrow> (st, Inr (link_status e, target, avg))
      | None \<Rightarrow>
          if bl_target b \<noteq> target then (st, Inr (INVALID, target, avg))
          else case apply_txs E st (bl_transactions b) of
            (st1, Inl e) \<Rightarrow> (st1, Inl e)
          | (st1, Inr (s, rs)) \<Rightarrow>
              if s \<noteq> VALID then (st1, Inr (s, target, avg))
              else let st2 = pay_miner b (total_fees rs (bl_transactions b)) st1 in
                if bl_receipt_root b \<noteq> calculate_receipt_root E rs then (st2, Inr (INVALID, target, avg))
                else if map receipt_to_dict (bl_receipts b) \<noteq> map receipt_to_dict rs
                then (st2, Inr (INVALID, target, avg))
                else case state_root E (st_accounts st2) of
                  Inl e \<Rightarrow> (st2, Inl e)
                | Inr root \<Rightarrow>
                    if bl_state_root b \<noteq> Some root then (st2, Inr (INVALID, target, avg))
                    else let avg' = next_avg bc (bl_timestamp b - bl_timestamp prev) avg in
                      case next_target bc target avg' of
                        Inl e \<Rightarrow> (st2, Inl e)
                      | Inr target' \<Rightarrow> (st2, Inr (VALID, target', avg')))"

text \<open>\<open>if hasattr(temp_state.accounts, 'commit')\<close>: a dictionary stays as it is.\<close>

definition commit_state :: "state \<Rightarrow> state" where
  "commit_state st = st\<lparr>st_accounts := commit_journal (st_accounts st)\<rparr>"

text \<open>
  \<open>add_block\<close> works on a copy of the state, a journal over the accounts. The accounts of a chain
  are a dictionary (\<open>chain_plain\<close> below), which reads through a journal leave as it is, so the
  chain object is as before when the block is not valid.
\<close>

definition add_block ::
  "'a ext_scheme \<Rightarrow> int \<Rightarrow> block \<Rightarrow> blockchain \<Rightarrow> blockchain \<times> (exn + validation_status)" where
  "add_block E now b bc =
     (case apply_block E now bc (last_block bc) b ((state_copy (bc_state bc))\<lparr>st_chain_id := bc_chain_id bc\<rparr>)
             (bc_target bc) (bc_avg_block_time bc) of
        (st, Inl e) \<Rightarrow> (bc, Inl e)
      | (st, Inr (s, target', avg')) \<Rightarrow>
          if s \<noteq> VALID then (bc, Inr s)
          else let st' = commit_state st in
            (bc\<lparr>bc_state := st', bc_target := target', bc_avg_block_time := avg',
                bc_chain := bc_chain bc @ [b],
                bc_snapshots := push_snapshot (bl_hash b, state_snapshot st') (bc_snapshots bc)\<rparr>,
             Inr VALID))"

subsection \<open>Reorganisation\<close>

text \<open>The fast check of the incoming blocks: \<open>None\<close> when all pass.\<close>

fun fast_pow :: "block list \<Rightarrow> (exn + bool) option" where
  "fast_pow [] = None"
| "fast_pow (b # bs) =
     (if bl_target b \<le> 0 \<or> bl_target b > MAX_TARGET then Some (Inr False)
      else case bl_hash b of
             None \<Rightarrow> Some (Inl TypeError)
           | Some h \<Rightarrow>
               (case py_int_of_str 16 h of
                  None \<Rightarrow> Some (Inl ValueError)
                | Some v \<Rightarrow> if v \<ge> bl_target b then Some (Inr False) else fast_pow bs))"

text \<open>The first two checks: where the incoming blocks join the chain; \<open>Some\<close> is the early return
  or the \<open>IndexError\<close> of a negative position.\<close>

definition fork_check :: "block list \<Rightarrow> block \<Rightarrow> (exn + bool) option" where
  "fork_check chain first =
     (if bl_index first = 0
      then (if bl_hash first \<noteq> bl_hash (hd chain) then Some (Inr False) else None)
      else if bl_index first > int (length chain) then Some (Inr False)
      else case py_index chain (bl_index first - 1) of
             None \<Rightarrow> Some (Inl IndexError)
           | Some p \<Rightarrow> if Some (bl_previous_hash first) \<noteq> bl_hash p then Some (Inr False) else None)"

text \<open>The loop that replays target and average over the blocks before the fork.\<close>

fun fast_forward :: "blockchain \<Rightarrow> block \<Rightarrow> block list \<Rightarrow> int \<Rightarrow> dbl \<Rightarrow> exn + int \<times> dbl" where
  "fast_forward bc prev [] target avg = Inr (target, avg)"
| "fast_forward bc prev (b # bs) target avg =
     (let avg' = next_avg bc (bl_timestamp b - bl_timestamp prev) avg in
      case next_target bc target avg' of
        Inl e \<Rightarrow> Inl e | Inr target' \<Rightarrow> fast_forward bc b bs target' avg')"

text \<open>The loop that applies blocks after \<open>prev\<close>; \<open>None\<close> in the result is a block that is not valid.\<close>

fun rebuild ::
  "'a ext_scheme \<Rightarrow> int \<Rightarrow> blockchain \<Rightarrow> block \<Rightarrow> block list \<Rightarrow> state \<Rightarrow> int \<Rightarrow> dbl
     \<Rightarrow> exn + (state \<times> int \<times> dbl) option" where
  "rebuild E now bc prev [] st target avg = Inr (Some (st, target, avg))"
| "rebuild E now bc prev (b # bs) st target avg =
     (case apply_block E now bc prev b st target avg of
        (st', Inl e) \<Rightarrow> Inl e
      | (st', Inr (s, target', avg')) \<Rightarrow>
          if s \<noteq> VALID then Inr None else rebuild E now bc b bs (commit_state st') target' avg')"

fun find_snapshot :: "string \<Rightarrow> (string option \<times> accounts) list \<Rightarrow> accounts option" where
  "find_snapshot h [] = None"
| "find_snapshot h ((k, A) # xs) = (if k = Some h then Some A else find_snapshot h xs)"

text \<open>\<open>old_txs\<close>, and the transactions of it whose identifier is not in the new chain.\<close>

definition txs_by_id :: "'a crypto_scheme \<Rightarrow> block list \<Rightarrow> transaction dict" where
  "txs_by_id cr bs = dict_update [] (map (\<lambda>t. (tx_id cr t, t)) (concat (map bl_transactions bs)))"

definition orphans :: "'a crypto_scheme \<Rightarrow> block list \<Rightarrow> block list \<Rightarrow> transaction list" where
  "orphans cr old new =
     (let ids = map (tx_id cr) (concat (map bl_transactions (tl new)))
      in map snd (filter (\<lambda>(i, t). i \<notin> set ids) (txs_by_id cr (tl old))))"

text \<open>The state, target and average at the fork, and the blocks that remain to be applied: from
  the snapshot of the fork's base if there is one, else from genesis.\<close>

definition fork_start ::
  "blockchain \<Rightarrow> int \<Rightarrow> block list \<Rightarrow> exn + accounts \<times> nat \<times> int \<times> dbl" where
  "fork_start bc fork_idx proposed =
     (let target = bl_target (hd proposed);
          avg = dbl_of_int (bc_target_block_time bc);
          base_hash = (if fork_idx > 0
                       then (case py_index (bc_chain bc) (fork_idx - 1) of None \<Rightarrow> None | Some p \<Rightarrow> bl_hash p)
                       else None);
          snap = (case base_hash of None \<Rightarrow> None
                  | Some h \<Rightarrow> if h = [] then None else find_snapshot h (bc_snapshots bc))
      in case snap of
           Some A \<Rightarrow>
             (case fast_forward bc (hd proposed) (tl (take (nat fork_idx) proposed)) target avg of
                Inl e \<Rightarrow> Inl e
              | Inr (target', avg') \<Rightarrow> Inr (A, nat fork_idx, target', avg'))
         | None \<Rightarrow> Inr (bc_genesis_snapshot bc, 1, target, avg))"

definition resolve_conflicts ::
  "'a ext_scheme \<Rightarrow> int \<Rightarrow> block list \<Rightarrow> blockchain \<Rightarrow> blockchain \<times> (exn + bool \<times> transaction list)" where
  "resolve_conflicts E now new bc =
     (case new of
        [] \<Rightarrow> (bc, Inr (False, []))
      | first # _ \<Rightarrow>
          (case fork_check (bc_chain bc) first of
             Some (Inl e) \<Rightarrow> (bc, Inl e)
           | Some (Inr _) \<Rightarrow> (bc, Inr (False, []))
           | None \<Rightarrow>
               let fork_idx = bl_index first;
                   proposed = py_prefix (bc_chain bc) fork_idx @ new in
               (case fast_pow new of
                  Some (Inl e) \<Rightarrow> (bc, Inl e)
                | Some (Inr _) \<Rightarrow> (bc, Inr (False, []))
                | None \<Rightarrow>
                    if get_total_work proposed \<le> get_total_work (bc_chain bc) then (bc, Inr (False, []))
                    else (case fork_start bc fork_idx proposed of
                       Inl e \<Rightarrow> (bc, Inl e)
                     | Inr (A, start, target, avg) \<Rightarrow>
                         (case rebuild E now bc (proposed ! (start - 1)) (drop start proposed)
                                 \<lparr>st_accounts = A, st_chain_id = bc_chain_id bc\<rparr> target avg of
                            Inl e \<Rightarrow> (bc, Inl e)
                          | Inr None \<Rightarrow> (bc, Inr (False, []))
                          | Inr (Some (st, target', avg')) \<Rightarrow>
                              (bc\<lparr>bc_chain := proposed, bc_state := st, bc_target := target',
                                  bc_avg_block_time := avg',
                                  bc_snapshots := push_snapshot (bl_hash (last proposed), state_snapshot st)
                                                    (bc_snapshots bc)\<rparr>,
                               Inr (True, orphans E (bc_chain bc) proposed)))))))"

end
