(* ===== verification/ChainLaws.thy ===== *)
theory ChainLaws
  imports Chain RootGuarantees
begin

section \<open>Laws of the chain operations\<close>

text \<open>
  How many layers an operation leaves on the accounts, what a sequence of transactions does to
  them, what a valid block has been checked for, and the invariant of the chain object.
\<close>

subsection \<open>Layers\<close>

fun acc_depth :: "accounts \<Rightarrow> nat" where
  "acc_depth (Plain d) = 0"
| "acc_depth (Journal b c) = Suc (acc_depth b)"

lemma acc_depth_touch: "acc_depth (acc_touch k A) = acc_depth A"
  by (induction A) (auto split: option.splits)

lemma acc_depth_put: "acc_depth (acc_put k a A) = acc_depth A"
  by (cases A) auto

interpretation keeps_depth: access_closed "\<lambda>A. acc_depth A = n" for n
  by unfold_locales (simp_all add: acc_depth_touch acc_depth_put)

lemma acc_depth_update: "acc_depth (acc_update A e) = acc_depth A"
  by (induction A e rule: acc_update.induct) (simp_all add: acc_depth_put)

lemma acc_depth_commit: "acc_depth (commit_journal J) = acc_depth J - 1"
  by (cases J) (simp_all add: commit_journal_def acc_depth_update)

lemma acc_depth_rollback: "acc_depth (acc_backing (acc_rollback J)) = acc_depth J - 1"
  by (cases J) simp_all

lemma rollback_depth:
  "rollback_and_refund cr tx e g J = (A', Inr r) \<Longrightarrow> acc_depth A' = acc_depth J - 1"
  by (auto simp: rollback_and_refund_def Let_def acc_getitem_def acc_depth_rollback acc_depth_touch
      keeps_depth.bump_nonce_closed keeps_depth.add_balance_closed split: option.splits)

lemma acc_get_depth: "acc_get k A = (A', x) \<Longrightarrow> acc_depth A' = acc_depth A"
  by (auto simp: acc_get_eq acc_depth_touch)

lemma apply_validated_depth:
  assumes "apply_validated_tx E A tx = (A', Inr r)"
  shows "acc_depth A' = acc_depth A"
proof -
  define J where "J = bump_nonce (tx_sender tx) (add_balance (tx_sender tx) (- tx_cost tx)
      (acc_touch (tx_sender tx) (journal_new A)))"
  have J: "acc_depth J = Suc (acc_depth A)" unfolding J_def
    by (intro keeps_depth.bump_nonce_closed keeps_depth.add_balance_closed)
      (simp only: acc_depth_touch journal_new_def acc_depth.simps)
  from assms consider (d) "deploy_branch E tx J = (A', Inr r)"
    | (c) "call_branch E tx (receiver_of tx) J = (A', Inr r)"
    | (t) "transfer_branch E tx (receiver_of tx) J = (A', Inr r)"
    by (auto simp: apply_validated_tx_def acc_getitem_def Let_def J_def split: option.splits if_splits)
  then show ?thesis
  proof cases
    case d
    obtain J1 x where g: "acc_get (derive_contract_address E (tx_sender tx) (tx_nonce tx)) J = (J1, x)"
      by fastforce
    have "acc_depth J1 = Suc (acc_depth A)" using acc_get_depth [OF g] J by simp
    then have "acc_depth (refund_gas tx v (create_contract k code w J1)) = Suc (acc_depth A)" for v k code w
      by (intro keeps_depth.refund_closed keeps_depth.create_closed)
    with d g J \<open>acc_depth J1 = Suc (acc_depth A)\<close> show ?thesis
      by (auto simp: deploy_branch_def Let_def acc_depth_commit dest: rollback_depth split: if_splits)
  next
    case c
    obtain J1 out where call: "internal_call E J (tx_sender tx) (receiver_of tx) (tx_amount tx)
        (JStr (data_bytes tx)) (tx_gas_limit tx) 0 True = (J1, out)" by fastforce
    then have J1: "acc_depth J1 = Suc (acc_depth A)"
      using keeps_depth.call_closed(1) [OF J, of E "tx_sender tx"] by (metis fst_conv)
    then have "acc_depth (refund_gas tx v J1) = Suc (acc_depth A)" for v
      by (rule keeps_depth.refund_closed)
    with c call J1 show ?thesis
      by (auto simp: call_branch_def acc_depth_commit dest: rollback_depth split: sum.splits exec_result.splits)
  next
    case t
    have "acc_depth (add_balance (receiver_of tx) (tx_amount tx) (get_account (receiver_of tx) J)) = Suc (acc_depth A)"
      by (intro keeps_depth.add_balance_closed keeps_depth.get_account_closed J)
    with t show ?thesis by (auto simp: transfer_branch_def acc_depth_commit)
  qed
qed

lemma validate_depth:
  assumes "validate_and_apply_with_status E st tx = (st', Inr x)"
  shows "acc_depth (st_accounts st') = acc_depth (st_accounts st)"
proof -
  have g: "acc_depth (get_account k A) = acc_depth A" for k A
    by (rule keeps_depth.get_account_closed) simp
  obtain st1 s where v: "verify_transaction_logic E st tx = (st1, s)" by fastforce
  from verify_state [OF v] have "acc_depth (st_accounts st1) = acc_depth (st_accounts st)"
    by (auto simp: g)
  with assms v show ?thesis
    by (auto simp: validate_and_apply_with_status_def dest: apply_validated_depth
        split: if_splits prod.splits sum.splits)
qed

subsection \<open>Sequences of transactions\<close>

lemma apply_txs_Cons:
  assumes "apply_txs E st (tx # txs) = (st', Inr (VALID, rs))"
  obtains st1 r rs' where "validate_and_apply_with_status E st tx = (st1, Inr (VALID, Some r))"
    "apply_txs E st1 txs = (st', Inr (VALID, rs'))" "rs = r # rs'"
proof -
  obtain st1 o1 where 1: "validate_and_apply_with_status E st tx = (st1, o1)" by fastforce
  obtain st2 o2 where 2: "apply_txs E st1 txs = (st2, o2)" by fastforce
  from assms 1 2 that show thesis
    by (auto split: sum.splits option.splits prod.splits if_splits)
qed

lemma apply_txs_laws:
  "apply_txs E st txs = (st', Inr (VALID, rs)) \<Longrightarrow> acc_ok (st_accounts st) \<Longrightarrow>
     acc_ok (st_accounts st') \<and> acc_depth (st_accounts st') = acc_depth (st_accounts st)
     \<and> st_chain_id st' = st_chain_id st \<and> length rs = length txs
     \<and> total_supply (st_accounts st') = total_supply (st_accounts st) - total_fees rs txs"
proof (induction txs arbitrary: st rs)
  case Nil
  then show ?case by (simp add: total_fees_def)
next
  case (Cons tx txs)
  from Cons.prems(1) obtain st1 r rs' where
    v: "validate_and_apply_with_status E st tx = (st1, Inr (VALID, Some r))"
    and a: "apply_txs E st1 txs = (st', Inr (VALID, rs'))" and rs: "rs = r # rs'"
    by (rule apply_txs_Cons)
  from acc_ok_accounts [OF Cons.prems(2) v] have
    1: "acc_ok (st_accounts st1)" "total_supply (st_accounts st1) =
        total_supply (st_accounts st) - rc_gas_used r * tx_fee_per_gas tx" by auto
  have "st_chain_id st1 = st_chain_id st" using v by (rule accepted)
  with Cons.IH [OF a 1(1)] 1 validate_depth [OF v] show ?case
    by (auto simp: rs total_fees_def)
qed

lemma pay_miner_laws:
  assumes "acc_ok (st_accounts st)"
  shows "acc_ok (st_accounts (pay_miner b fees st))"
    "acc_depth (st_accounts (pay_miner b fees st)) = acc_depth (st_accounts st)"
    "st_chain_id (pay_miner b fees st) = st_chain_id st"
    "total_supply (st_accounts (pay_miner b fees st)) = total_supply (st_accounts st)
       + (if bl_miner b = None \<or> bl_miner b = Some [] then 0 else DEFAULT_MINING_REWARD + fees)"
  using assms
  by (auto simp: pay_miner_def supply_simps keeps_ok.reward_closed keeps_depth.reward_closed split: option.splits)

subsection \<open>Valid blocks\<close>

definition linked :: "'a crypto_scheme \<Rightarrow> block \<Rightarrow> block \<Rightarrow> bool" where
  "linked cr prev b \<longleftrightarrow> bl_hash prev = Some (bl_previous_hash b) \<and> bl_index b = bl_index prev + 1
     \<and> bl_hash b = Some (compute_hash cr b) \<and> 0 < bl_target b \<and> bl_target b \<le> MAX_TARGET
     \<and> (case py_int_of_str 16 (compute_hash cr b) of None \<Rightarrow> False | Some v \<Rightarrow> v < bl_target b)
     \<and> bl_timestamp prev < bl_timestamp b"

lemma validate_link:
  "validate_block_link_and_hash cr now prev b = None \<longleftrightarrow>
     linked cr prev b \<and> bl_timestamp b \<le> now + MAX_FUTURE_BLOCK_TIME_MS"
proof -
  have "calculate_hash cr (to_header_dict b) = compute_hash cr b"
    by (simp add: calculate_hash_def compute_hash_def)
  then show ?thesis
    by (auto simp: validate_block_link_and_hash_def linked_def Let_def split: option.splits)
qed

lemma next_target_range: "next_target bc t avg = Inr t' \<Longrightarrow> MIN_TARGET \<le> t' \<and> t' \<le> MAX_TARGET"
  by (auto simp: next_target_def MIN_TARGET_def MAX_TARGET_def split: if_splits)

text \<open>What an accepted block has passed, and what it did.\<close>

definition block_applied :: "'a ext_scheme \<Rightarrow> int \<Rightarrow> block \<Rightarrow> block \<Rightarrow> int \<Rightarrow> state \<Rightarrow> state \<Rightarrow> receipt list \<Rightarrow> bool" where
  "block_applied E now prev b target st st' rs \<longleftrightarrow>
     linked E prev b \<and> bl_timestamp b \<le> now + MAX_FUTURE_BLOCK_TIME_MS \<and> bl_target b = target
     \<and> (\<exists>st1. apply_txs E st (bl_transactions b) = (st1, Inr (VALID, rs))
          \<and> st' = pay_miner b (total_fees rs (bl_transactions b)) st1)
     \<and> bl_receipts b = rs \<and> bl_receipt_root b = calculate_receipt_root E rs
     \<and> (\<exists>root. state_root E (st_accounts st') = Inr root \<and> bl_state_root b = Some root)"

lemma receipts_eq: "map receipt_to_dict rs = map receipt_to_dict ss \<longleftrightarrow> rs = ss"
  by (metis inj_map_eq_map injI receipt_to_dict_inj)

lemma apply_block_VALID:
  assumes "apply_block E now bc prev b st target avg = (st', Inr (VALID, target', avg'))"
  obtains rs where "block_applied E now prev b target st st' rs"
    "avg' = next_avg bc (bl_timestamp b - bl_timestamp prev) avg"
    "next_target bc target avg' = Inr target'"
proof -
  have st: "link_status e \<noteq> VALID" for e by (simp add: link_status_def)
  obtain st1 o1 where a: "apply_txs E st (bl_transactions b) = (st1, o1)" by fastforce
  from assms st a obtain rs where rs: "validate_block_link_and_hash E now prev b = None"
    "bl_target b = target" "o1 = Inr (VALID, rs)" "bl_receipt_root b = calculate_receipt_root E rs"
    "bl_receipts b = rs" "st' = pay_miner b (total_fees rs (bl_transactions b)) st1"
    by (auto simp: apply_block_def Let_def receipts_eq split: option.splits if_splits sum.splits prod.splits)
  moreover from assms a rs obtain root where "state_root E (st_accounts st') = Inr root"
    "bl_state_root b = Some root" "avg' = next_avg bc (bl_timestamp b - bl_timestamp prev) avg"
    "next_target bc target avg' = Inr target'"
    by (auto simp: apply_block_def Let_def split: if_splits sum.splits)
  ultimately show thesis using a validate_link [of E now prev b]
    by (intro that [of rs]) (auto simp: block_applied_def)
qed

lemma block_applied_laws:
  assumes "block_applied E now prev b target st st' rs" "acc_ok (st_accounts st)"
  shows "acc_ok (st_accounts st')" "acc_depth (st_accounts st') = acc_depth (st_accounts st)"
    "st_chain_id st' = st_chain_id st"
    "total_supply (st_accounts st') = total_supply (st_accounts st)
       + (if bl_miner b = None \<or> bl_miner b = Some [] then - total_fees rs (bl_transactions b)
          else DEFAULT_MINING_REWARD)"
proof -
  from assms(1) obtain st1 where a: "apply_txs E st (bl_transactions b) = (st1, Inr (VALID, rs))"
    and st': "st' = pay_miner b (total_fees rs (bl_transactions b)) st1"
    by (auto simp: block_applied_def)
  note l = apply_txs_laws [OF a assms(2)]
  then have ok: "acc_ok (st_accounts st1)" by simp
  note m = pay_miner_laws [OF ok, of b "total_fees rs (bl_transactions b)"]
  show "acc_ok (st_accounts st')" "acc_depth (st_accounts st') = acc_depth (st_accounts st)"
    "st_chain_id st' = st_chain_id st"
    "total_supply (st_accounts st') = total_supply (st_accounts st)
       + (if bl_miner b = None \<or> bl_miner b = Some [] then - total_fees rs (bl_transactions b)
          else DEFAULT_MINING_REWARD)"
    using l m by (simp_all add: st')
qed

end
