(* ===== verification/ChainInv.thy ===== *)
theory ChainInv
  imports ChainLaws
begin

section \<open>The invariant of the chain object\<close>

text \<open>Every operation of \<open>Blockchain\<close> keeps the chain linked and the accounts a dictionary
  (\<open>chain_ok\<close>); the chain objects that can arise are an inductive predicate.\<close>

subsection \<open>Adding a block\<close>

lemma state_copy_ok: "acc_ok (st_accounts st) \<Longrightarrow> acc_ok (st_accounts (state_copy st))"
  by (simp add: state_copy_def store.start_ok)

lemma state_copy_supply: "acc_ok (st_accounts st) \<Longrightarrow>
    total_supply (st_accounts (state_copy st)) = total_supply (st_accounts st)"
  using total_supply_view [of "journal_new (st_accounts st)" "st_accounts st"]
  by (simp add: state_copy_def store.start_ok store.start_view)

lemma state_copy_depth: "acc_depth (st_accounts (state_copy st)) = Suc (acc_depth (st_accounts st))"
  by (simp add: state_copy_def journal_new_def)

lemma layer_depth: "is_layer A \<longleftrightarrow> 0 < acc_depth A"
  by (cases A) auto

lemma commit_state_laws:
  assumes "acc_ok (st_accounts st)" "acc_depth (st_accounts st) = Suc n"
  shows "acc_ok (st_accounts (commit_state st))" "acc_depth (st_accounts (commit_state st)) = n"
    "acc_view (st_accounts (commit_state st)) = acc_view (st_accounts st)"
    "total_supply (st_accounts (commit_state st)) = total_supply (st_accounts st)"
    "st_chain_id (commit_state st) = st_chain_id st"
proof -
  have l: "is_layer (st_accounts st)" using assms(2) by (simp add: layer_depth)
  show "acc_ok (st_accounts (commit_state st))" using store.commit_ok [OF l assms(1)]
    by (simp add: commit_state_def commit_journal_def)
  show "acc_depth (st_accounts (commit_state st)) = n" using assms(2)
    by (simp add: commit_state_def acc_depth_commit)
  show "acc_view (st_accounts (commit_state st)) = acc_view (st_accounts st)"
    using l assms(1) by (simp add: commit_state_def view_commit)
  show "total_supply (st_accounts (commit_state st)) = total_supply (st_accounts st)"
    using l assms(1) by (simp add: commit_state_def total_supply_commit)
qed (simp add: commit_state_def)

lemma commit_state_plain: "acc_depth (st_accounts st) = 0 \<Longrightarrow> commit_state st = st"
  by (cases "st_accounts st") (simp_all add: commit_state_def commit_journal_def)

lemma add_block_VALID:
  assumes "add_block E now b bc = (bc', Inr VALID)"
  obtains st rs avg' where
    "block_applied E now (last_block bc) b (bc_target bc)
       ((state_copy (bc_state bc))\<lparr>st_chain_id := bc_chain_id bc\<rparr>) st rs"
    "next_target bc (bc_target bc) avg' = Inr (bc_target bc')"
    "bc' = bc\<lparr>bc_state := commit_state st, bc_target := bc_target bc', bc_avg_block_time := avg',
       bc_chain := bc_chain bc @ [b],
       bc_snapshots := push_snapshot (bl_hash b, state_snapshot (commit_state st)) (bc_snapshots bc)\<rparr>"
proof -
  from assms obtain st target' avg' where
    a: "apply_block E now bc (last_block bc) b ((state_copy (bc_state bc))\<lparr>st_chain_id := bc_chain_id bc\<rparr>)
             (bc_target bc) (bc_avg_block_time bc) = (st, Inr (VALID, target', avg'))"
    and bc': "bc' = bc\<lparr>bc_state := commit_state st, bc_target := target', bc_avg_block_time := avg',
                bc_chain := bc_chain bc @ [b],
                bc_snapshots := push_snapshot (bl_hash b, state_snapshot (commit_state st)) (bc_snapshots bc)\<rparr>"
    by (auto simp: add_block_def Let_def split: prod.splits sum.splits if_splits)
  from apply_block_VALID [OF a] obtain rs where
    "block_applied E now (last_block bc) b (bc_target bc)
       ((state_copy (bc_state bc))\<lparr>st_chain_id := bc_chain_id bc\<rparr>) st rs"
    "next_target bc (bc_target bc) avg' = Inr target'" by metis
  with bc' that show thesis by simp
qed

subsection \<open>The invariant of the chain object\<close>

text \<open>
  The chain starts at index 0 and every block links to the one before it; the accounts are a
  dictionary, as are the snapshots; the target is in range; the state is of this chain's id.
\<close>

definition plain_ok :: "accounts \<Rightarrow> bool" where
  "plain_ok A \<longleftrightarrow> acc_ok A \<and> acc_depth A = 0"

definition chain_ok :: "'a crypto_scheme \<Rightarrow> blockchain \<Rightarrow> bool" where
  "chain_ok cr bc \<longleftrightarrow> bc_chain bc \<noteq> [] \<and> bl_index (hd (bc_chain bc)) = 0
     \<and> 0 < bl_target (hd (bc_chain bc)) \<and> bl_target (hd (bc_chain bc)) \<le> MAX_TARGET
     \<and> successively (linked cr) (bc_chain bc)
     \<and> plain_ok (st_accounts (bc_state bc)) \<and> plain_ok (bc_genesis_snapshot bc)
     \<and> list_all (\<lambda>(h, A). plain_ok A) (bc_snapshots bc)
     \<and> length (bc_snapshots bc) \<le> MAX_STATE_SNAPSHOTS
     \<and> MIN_TARGET \<le> bc_target bc \<and> bc_target bc \<le> MAX_TARGET
     \<and> st_chain_id (bc_state bc) = bc_chain_id bc"

lemma push_snapshot_props:
  "list_all P xs \<Longrightarrow> P x \<Longrightarrow> list_all P (push_snapshot x xs)"
  "length (push_snapshot x xs) \<le> MAX_STATE_SNAPSHOTS"
  by (auto simp: push_snapshot_def Let_def list_all_iff dest: in_set_dropD)

lemma add_block_ok:
  assumes "chain_ok E bc" "add_block E now b bc = (bc', r)"
  shows "chain_ok E bc'"
proof (cases "r = Inr VALID")
  case False
  with assms(2) have "bc' = bc"
    by (auto simp: add_block_def Let_def split: prod.splits sum.splits if_splits)
  with assms(1) show ?thesis by simp
next
  case True
  from add_block_VALID [OF assms(2) [unfolded True]] obtain st rs avg' where
    ap: "block_applied E now (last_block bc) b (bc_target bc)
       ((state_copy (bc_state bc))\<lparr>st_chain_id := bc_chain_id bc\<rparr>) st rs"
    and t: "next_target bc (bc_target bc) avg' = Inr (bc_target bc')"
    and bc': "bc' = bc\<lparr>bc_state := commit_state st, bc_target := bc_target bc', bc_avg_block_time := avg',
       bc_chain := bc_chain bc @ [b],
       bc_snapshots := push_snapshot (bl_hash b, state_snapshot (commit_state st)) (bc_snapshots bc)\<rparr>"
    by metis
  let ?c = "(state_copy (bc_state bc))\<lparr>st_chain_id := bc_chain_id bc\<rparr>"
  have ok: "plain_ok (st_accounts (bc_state bc))" "bc_chain bc \<noteq> []" "successively (linked E) (bc_chain bc)"
    using assms(1) by (auto simp: chain_ok_def)
  then have c: "acc_ok (st_accounts ?c)" "acc_depth (st_accounts ?c) = Suc 0"
    by (auto simp: plain_ok_def state_copy_ok state_copy_depth)
  note l = block_applied_laws [OF ap c(1)]
  note m = commit_state_laws [OF l(1) l(2) [unfolded c(2)]]
  have p: "plain_ok (st_accounts (commit_state st))" using m by (simp add: plain_ok_def)
  have "linked E (last (bc_chain bc)) b" using ap by (simp add: block_applied_def last_block_def)
  then have "successively (linked E) (bc_chain bc @ [b])"
    using ok by (simp add: successively_append_iff)
  moreover have "list_all (\<lambda>(h, A). plain_ok A)
      (push_snapshot (bl_hash b, state_snapshot (commit_state st)) (bc_snapshots bc))"
    using assms(1) p by (intro push_snapshot_props) (auto simp: chain_ok_def state_snapshot_def)
  moreover have "st_chain_id (commit_state st) = bc_chain_id bc" using l(3) m(5) by simp
  ultimately show ?thesis
    using assms(1) p next_target_range [OF t] push_snapshot_props(2)
    by (subst bc') (auto simp: chain_ok_def)
qed

lemma rebuild_laws:
  "rebuild E now bc prev bs st t avg = Inr (Some (st', t', avg')) \<Longrightarrow> plain_ok (st_accounts st) \<Longrightarrow>
     successively (linked E) (prev # bs) \<and> plain_ok (st_accounts st') \<and> st_chain_id st' = st_chain_id st
     \<and> (MIN_TARGET \<le> t \<and> t \<le> MAX_TARGET \<longrightarrow> MIN_TARGET \<le> t' \<and> t' \<le> MAX_TARGET)"
proof (induction bs arbitrary: prev st t avg)
  case (Cons b bs)
  from Cons.prems(1) obtain st1 t1 avg1 where
    a: "apply_block E now bc prev b st t avg = (st1, Inr (VALID, t1, avg1))"
    and r: "rebuild E now bc b bs (commit_state st1) t1 avg1 = Inr (Some (st', t', avg'))"
    by (auto split: prod.splits sum.splits if_splits)
  from apply_block_VALID [OF a] obtain rs where ap: "block_applied E now prev b t st st1 rs"
    "next_target bc t avg1 = Inr t1" by metis
  from Cons.prems(2) have ok: "acc_ok (st_accounts st)" "acc_depth (st_accounts st) = 0"
    by (auto simp: plain_ok_def)
  note l = block_applied_laws [OF ap(1) ok(1)]
  have "commit_state st1 = st1" using l(2) ok(2) by (intro commit_state_plain) simp
  with Cons.IH [OF r] l(1,2,3) ok(2) ap(1) next_target_range [OF ap(2)]
  show ?case by (auto simp: plain_ok_def block_applied_def)
qed simp

lemma find_snapshot_ok: "find_snapshot h xs = Some A \<Longrightarrow> list_all (\<lambda>(h, A). P A) xs \<Longrightarrow> P A"
  by (induction h xs rule: find_snapshot.induct) (auto split: if_splits)

lemma fast_forward_range:
  "fast_forward bc prev bs t avg = Inr (t', avg') \<Longrightarrow> MIN_TARGET \<le> t \<and> t \<le> MAX_TARGET \<Longrightarrow>
     MIN_TARGET \<le> t' \<and> t' \<le> MAX_TARGET"
proof (induction bs arbitrary: prev t avg)
  case (Cons b bs)
  let ?avg = "next_avg bc (bl_timestamp b - bl_timestamp prev) avg"
  from Cons.prems(1) obtain t1 where t1: "next_target bc t ?avg = Inr t1"
    "fast_forward bc b bs t1 ?avg = Inr (t', avg')"
    by (auto simp: Let_def split: sum.splits)
  from Cons.IH [OF t1(2) next_target_range [OF t1(1)]] show ?case .
qed simp

text \<open>A successful reorganisation, step by step.\<close>

lemma resolve_success:
  assumes "resolve_conflicts E now new bc = (bc', Inr (True, os))"
  obtains first rest proposed A start t avg st t' avg' where
    "new = first # rest" "proposed = py_prefix (bc_chain bc) (bl_index first) @ new"
    "fork_check (bc_chain bc) first = None" "fast_pow new = None"
    "get_total_work (bc_chain bc) < get_total_work proposed"
    "fork_start bc (bl_index first) proposed = Inr (A, start, t, avg)"
    "rebuild E now bc (proposed ! (start - 1)) (drop start proposed)
       \<lparr>st_accounts = A, st_chain_id = bc_chain_id bc\<rparr> t avg = Inr (Some (st, t', avg'))"
    "bc' = bc\<lparr>bc_chain := proposed, bc_state := st, bc_target := t', bc_avg_block_time := avg',
        bc_snapshots := push_snapshot (bl_hash (last proposed), state_snapshot st) (bc_snapshots bc)\<rparr>"
    "os = orphans E (bc_chain bc) proposed"
  using assms
  by (auto simp: resolve_conflicts_def Let_def split: list.splits option.splits sum.splits if_splits prod.splits)

lemma resolve_failure:
  assumes "resolve_conflicts E now new bc = (bc', r)" "\<nexists>os. r = Inr (True, os)"
  shows "bc' = bc"
  using assms
  by (auto simp: resolve_conflicts_def Let_def split: list.splits option.splits sum.splits if_splits prod.splits)

lemma fast_pow_targets: "fast_pow bs = None \<Longrightarrow> b \<in> set bs \<Longrightarrow> 0 < bl_target b \<and> bl_target b \<le> MAX_TARGET"
  by (induction bs rule: fast_pow.induct) (auto split: if_splits option.splits)

lemma fork_position:
  assumes "fork_check chain first = None" "chain \<noteq> []"
  shows "py_prefix chain (bl_index first) \<noteq> [] \<or> bl_index first = 0"
    "0 < bl_index first \<Longrightarrow> bl_index first \<le> int (length chain)
       \<and> py_prefix chain (bl_index first) = take (nat (bl_index first)) chain"
  using assms
  by (auto simp: fork_check_def py_prefix_def py_index_def Let_def split: if_splits option.splits)

lemma resolve_ok:
  assumes "chain_ok E bc" "resolve_conflicts E now new bc = (bc', r)"
  shows "chain_ok E bc'"
proof (cases "\<exists>os. r = Inr (True, os)")
  case False
  with assms resolve_failure show ?thesis by metis
next
  case True
  then obtain os where r: "r = Inr (True, os)" by blast
  from resolve_success [OF assms(2) [unfolded r]] obtain first rest proposed A start t avg st t' avg' where
    s: "new = first # rest" "proposed = py_prefix (bc_chain bc) (bl_index first) @ new"
    "fork_check (bc_chain bc) first = None" "fast_pow new = None"
    "fork_start bc (bl_index first) proposed = Inr (A, start, t, avg)"
    "rebuild E now bc (proposed ! (start - 1)) (drop start proposed)
       \<lparr>st_accounts = A, st_chain_id = bc_chain_id bc\<rparr> t avg = Inr (Some (st, t', avg'))"
    "bc' = bc\<lparr>bc_chain := proposed, bc_state := st, bc_target := t', bc_avg_block_time := avg',
        bc_snapshots := push_snapshot (bl_hash (last proposed), state_snapshot st) (bc_snapshots bc)\<rparr>"
    by metis
  let ?i = "bl_index first" and ?chain = "bc_chain bc"
  have ok: "?chain \<noteq> []" "bl_index (hd ?chain) = 0" "0 < bl_target (hd ?chain)" "bl_target (hd ?chain) \<le> MAX_TARGET"
    "successively (linked E) ?chain" "plain_ok (bc_genesis_snapshot bc)"
    "list_all (\<lambda>(h, A). plain_ok A) (bc_snapshots bc)"
    using assms(1) by (auto simp: chain_ok_def)
  have hd: "hd proposed = (if py_prefix ?chain ?i = [] then first else hd ?chain)"
    using s(1) by (auto simp: s(2) py_prefix_def Let_def hd_append)
  have hd_ok: "bl_index (hd proposed) = 0" "0 < bl_target (hd proposed)" "bl_target (hd proposed) \<le> MAX_TARGET"
    using hd ok fork_position(1) [OF s(3) ok(1)] fast_pow_targets [OF s(4), of first] s(1) by auto
  from s(5) consider
      (snap) "0 < ?i" "start = nat ?i" "plain_ok A" "MIN_TARGET \<le> t \<and> t \<le> MAX_TARGET"
    | (genesis) "start = 1" "A = bc_genesis_snapshot bc" "t = bl_target (hd proposed)"
  proof (cases "start = 1 \<and> A = bc_genesis_snapshot bc \<and> t = bl_target (hd proposed)")
    case False
    with s(5) obtain h where h: "find_snapshot h (bc_snapshots bc) = Some A" "0 < ?i" "start = nat ?i"
      "fast_forward bc (hd proposed) (tl (take (nat ?i) proposed)) (bl_target (hd proposed))
         (dbl_of_int (bc_target_block_time bc)) = Inr (t, avg)"
      by (auto simp: fork_start_def Let_def split: option.splits sum.splits if_splits)
    have "MIN_TARGET \<le> t \<and> t \<le> MAX_TARGET"
      using fast_forward_range [OF h(4)] hd_ok by (simp add: MIN_TARGET_def)
    with snap h find_snapshot_ok [OF h(1) ok(7)] show ?thesis by blast
  qed blast
  then have "successively (linked E) proposed \<and> plain_ok (st_accounts st) \<and> st_chain_id st = bc_chain_id bc
     \<and> MIN_TARGET \<le> t' \<and> t' \<le> MAX_TARGET"
  proof cases
    case snap
    let ?p = "take (nat ?i) ?chain"
    have p: "py_prefix ?chain ?i = ?p" "nat ?i \<le> length ?chain"
      using fork_position(2) [OF s(3) ok(1) snap(1)] by auto
    then have len: "length ?p = nat ?i" by simp
    then have ne: "?p \<noteq> []" using snap(1) by auto
    have d: "drop start proposed = new" "proposed ! (start - 1) = last ?p"
      using p len ne snap(1,2) by (simp_all add: s(2) nth_append last_conv_nth)
    from rebuild_laws [OF s(6)] snap(3,4) d have
      "successively (linked E) (last ?p # new) \<and> plain_ok (st_accounts st) \<and> st_chain_id st = bc_chain_id bc
       \<and> MIN_TARGET \<le> t' \<and> t' \<le> MAX_TARGET" by simp
    moreover have "successively (linked E) ?p"
      using ok(5) by (metis append_take_drop_id successively_append_iff)
    ultimately show ?thesis using ne s(1) by (auto simp: s(2) p(1) successively_append_iff)
  next
    case genesis
    have "proposed \<noteq> []" using s(1,2) by simp
    then have "proposed ! (start - 1) # drop start proposed = proposed"
      using genesis(1) by (cases proposed) auto
    with rebuild_laws [OF s(6)] genesis ok(6) hd_ok show ?thesis by (simp add: MIN_TARGET_def)
  qed
  moreover have "list_all (\<lambda>(h, A). plain_ok A)
      (push_snapshot (bl_hash (last proposed), state_snapshot st) (bc_snapshots bc))"
    using calculation ok(7) by (intro push_snapshot_props) (auto simp: state_snapshot_def)
  moreover have "proposed \<noteq> []" using s(1,2) by simp
  ultimately show ?thesis using assms(1) hd_ok push_snapshot_props(2)
    by (simp add: s(7) chain_ok_def)
qed

subsection \<open>Genesis\<close>

lemma alloc_accounts_laws:
  "alloc_accounts al A n = Inr (A', n') \<Longrightarrow> plain_ok A \<Longrightarrow> dict_ok al \<Longrightarrow>
     (\<forall>k \<in> set (map fst al). acc_view A k = None) \<Longrightarrow>
     plain_ok A' \<and> total_supply A' = total_supply A + (n' - n) \<and> n \<le> n'"
proof (induction al A n rule: alloc_accounts.induct)
  case (2 addr data rest A n)
  from 2(2) obtain v where v: "alloc_balance data = Inr v"
    "alloc_accounts rest (acc_modify addr (\<lambda>a. a\<lparr>acc_balance := v\<rparr>) (get_account addr A)) (n + v) = Inr (A', n')"
    by (auto split: sum.splits)
  have pos: "0 \<le> v" using v(1)
    by (auto simp: alloc_balance_def split: json.splits option.splits if_splits)
  let ?B = "acc_modify addr (\<lambda>a. a\<lparr>acc_balance := v\<rparr>) (get_account addr A)"
  have none: "acc_view A addr = None" using 2(5) by simp
  have B: "plain_ok ?B" using 2(3)
    by (simp add: plain_ok_def keeps_ok.modify_closed keeps_ok.get_account_closed
        keeps_depth.modify_closed keeps_depth.get_account_closed)
  have "acc_view (get_account addr A) addr = Some empty_account" using none by (simp add: view_simps)
  then have tot: "total_supply ?B = total_supply A + v" using 2(3)
    by (simp add: plain_ok_def total_supply_modify keeps_ok.get_account_closed supply_simps empty_account_def)
  have "\<forall>k \<in> set (map fst rest). acc_view ?B k = None"
    using 2(4,5) none by (auto simp: view_simps image_iff)
  with 2(1) [OF v(1) v(2) B] 2(4) tot pos show ?case by auto
qed simp

lemma genesis_laws:
  assumes "create_genesis cr now g = Inr bc" "dict_ok (gc_alloc g)"
  shows "chain_ok cr bc \<and> length (bc_chain bc) = 1
    \<and> (case gc_initial_supply g of None \<Rightarrow> True | Some s \<Rightarrow> total_supply (st_accounts (bc_state bc)) = s)
    \<and> bl_hash (last_block bc) = Some (compute_hash cr (last_block bc))
    \<and> (case gc_hash g of None \<Rightarrow> True | Some h \<Rightarrow> h = [] \<or> h = compute_hash cr (last_block bc))
    \<and> (\<exists>root. state_root cr (st_accounts (bc_state bc)) = Inr root \<and> bl_state_root (last_block bc) = Some root)"
proof -
  from assms(1) obtain A n tgt root ts where
    a: "alloc_accounts (gc_alloc g) (Plain []) 0 = Inr (A, n)"
    and sup: "\<not> (case gc_initial_supply g of None \<Rightarrow> False | Some s \<Rightarrow> s \<noteq> n)"
    and t: "genesis_target (gc_target g) = Inr tgt" and root: "state_root cr A = Inr root"
    and ts: "gc_timestamp g = Some ts"
    by (auto simp: create_genesis_def Let_def split: sum.splits option.splits prod.splits if_splits)
  define b where "b = new_block cr now 0 ''0'' tgt [] ts (Some root) None [] None"
  have h: "calculate_hash cr (to_header_dict b) = compute_hash cr b"
    by (simp add: calculate_hash_def compute_hash_def)
  from assms(1) a sup t root ts have
    "\<not> (case gc_hash g of None \<Rightarrow> False | Some c \<Rightarrow> c \<noteq> [] \<and> c \<noteq> calculate_hash cr (to_header_dict b))"
    by (auto simp: create_genesis_def Let_def b_def [symmetric] split: if_splits)
  then have hash: "\<not> (case gc_hash g of None \<Rightarrow> False | Some c \<Rightarrow> c \<noteq> [] \<and> c \<noteq> compute_hash cr b)"
    unfolding h .
  from assms(1) a sup t root ts h have
    bc: "bc_chain bc = [b\<lparr>bl_hash := Some (compute_hash cr b)\<rparr>]"
      "st_accounts (bc_state bc) = A" "st_chain_id (bc_state bc) = bc_chain_id bc" "bc_target bc = tgt"
      "bc_genesis_snapshot bc = A" "bc_snapshots bc = [(Some (compute_hash cr b), A)]"
    by (auto simp: create_genesis_def Let_def b_def [symmetric] split: if_splits)
  have plain: "plain_ok (Plain [])" by (simp add: plain_ok_def)
  have "total_supply (Plain []) = 0" by (simp add: total_supply_def)
  with alloc_accounts_laws [OF a plain assms(2)] have A: "plain_ok A" "total_supply A = n" by auto
  have "0 < tgt \<and> tgt \<le> MAX_TARGET" using t
    by (auto simp: genesis_target_def split: option.splits json.splits sum.splits if_splits decode_error.splits)
  moreover have "bl_index b = 0" "bl_target b = tgt" "bl_state_root b = Some root"
    by (simp_all add: b_def new_block_def)
  ultimately show ?thesis using A bc hash sup root
    by (auto simp: chain_ok_def last_block_def compute_hash_hash MIN_TARGET_def
        MAX_STATE_SNAPSHOTS_def split: option.splits)
qed

subsection \<open>Reachable chains\<close>

text \<open>The chain objects that a node can have: genesis, then any blocks and any competing chains
  offered at any time.\<close>

inductive reachable :: "'a ext_scheme \<Rightarrow> genesis_config \<Rightarrow> blockchain \<Rightarrow> bool"
  for E :: "'a ext_scheme" and g :: genesis_config where
  Start: "create_genesis E now g = Inr bc \<Longrightarrow> reachable E g bc"
| Add: "reachable E g bc \<Longrightarrow> add_block E now b bc = (bc', r) \<Longrightarrow> reachable E g bc'"
| Resolve: "reachable E g bc \<Longrightarrow> resolve_conflicts E now new bc = (bc', r) \<Longrightarrow> reachable E g bc'"

lemma reachable_ok:
  assumes "reachable E g bc" "dict_ok (gc_alloc g)"
  shows "chain_ok E bc"
  using assms(1)
proof (induction rule: reachable.induct)
  case (Start now bc)
  with genesis_laws [OF Start assms(2)] show ?case by blast
qed (use add_block_ok resolve_ok in blast)+

subsection \<open>Positions\<close>

lemma linked_positions: "successively (linked cr) bs \<Longrightarrow> i < length bs \<Longrightarrow> bl_index (bs ! i) = bl_index (hd bs) + int i"
proof (induction bs arbitrary: i rule: induct_list012)
  case (3 a b bs)
  then show ?case by (cases i) (auto simp: linked_def)
qed auto

end
