(* ===== verification/ChainDemo.thy ===== *)
theory ChainDemo
  imports ChainInv Demo
begin

section \<open>A concrete chain\<close>

text \<open>A chain of one and of two blocks, and a block that competes with the second, on which the
  witnesses of the chain's properties are evaluated.\<close>

subsection \<open>A small chain\<close>

text \<open>Every text has the hash 1 and every trie the root 2.\<close>

definition flat_ext :: ext where
  "flat_ext = demo_ext\<lparr>sha256_hex := (\<lambda>_. ''1''), trie_root := (\<lambda>_. ''2'')\<rparr>"

lemma flat_hash [simp]: "canonical_json_hash flat_ext j = ''1''" "compute_hash flat_ext b = ''1''"
  "calculate_hash flat_ext d = ''1''"
  by (simp_all add: canonical_json_hash_def compute_hash_def calculate_hash_def flat_ext_def)

lemma flat_root: "trie_puts (sort_key fst (acc_items A)) = Inr ps \<Longrightarrow> state_root flat_ext A = Inr ''2''"
  by (simp add: state_root_def flat_ext_def)

lemma read_one: "py_int_of_str 16 ''1'' = Some 1"
  by code_simp

definition flat_config :: "int \<Rightarrow> genesis_config" where
  "flat_config tgt =
     \<lparr>gc_alloc = [(''aa'', JObj [(''balance'', JInt 1000)])],
      gc_initial_supply = Some 1000, gc_chain_id = Some ''main'', gc_timestamp = Some 1000,
      gc_target = Some (JInt tgt), gc_target_block_time = Some 100, gc_alpha = None, gc_hash = None\<rparr>"

definition flat_block :: "int \<Rightarrow> string \<Rightarrow> int \<Rightarrow> int \<Rightarrow> block" where
  "flat_block idx prev tgt ts =
     (new_block flat_ext 0 idx prev tgt [] ts (Some ''2'') None []
        (if idx = 0 then None else Some ''bb''))\<lparr>bl_hash := Some ''1''\<rparr>"

definition flat_account :: "int \<Rightarrow> account" where
  "flat_account v = \<lparr>acc_balance = v, acc_nonce = 0, acc_code = None, acc_storage = JObj []\<rparr>"

definition flat_chain :: "int \<Rightarrow> blockchain" where
  "flat_chain tgt = \<lparr>bc_chain = [flat_block 0 ''0'' tgt 1000],
     bc_state = \<lparr>st_accounts = Plain [(''aa'', flat_account 1000)], st_chain_id = ''main''\<rparr>,
     bc_chain_id = ''main'', bc_target = tgt, bc_avg_block_time = dbl_of_int 100,
     bc_target_block_time = 100, bc_alpha = dbl_0_1,
     bc_genesis_snapshot = Plain [(''aa'', flat_account 1000)],
     bc_snapshots = [(Some ''1'', Plain [(''aa'', flat_account 1000)])]\<rparr>"

lemma flat_roots: 
  "state_root flat_ext (Plain [(''aa'', flat_account 1000)]) = Inr ''2''"
  by code_simp

lemma flat_genesis: 
  assumes "0 < tgt" "tgt \<le> MAX_TARGET"
  shows "create_genesis flat_ext now (flat_config tgt) = Inr (flat_chain tgt)"
  using assms flat_roots
  by (simp add: create_genesis_def flat_config_def alloc_balance_def get_account_def acc_modify_def
      empty_account_def genesis_target_def flat_chain_def flat_block_def new_block_def flat_account_def
      merkle_root_def Let_def)

text \<open>The chain with a block mined 50 ms after genesis.\<close>

definition flat_next :: blockchain where
  "flat_next = fst (add_block flat_ext 2000 (flat_block 1 ''1'' 1000 1050) (flat_chain 1000))"


lemma flat_add: "add_block flat_ext 2000 (flat_block 1 ''1'' 1000 1050) (flat_chain 1000) = (flat_next, Inr VALID)"
proof -
  have "snd (add_block flat_ext 2000 (flat_block 1 ''1'' 1000 1050) (flat_chain 1000)) = Inr VALID"
    by code_simp
  then show ?thesis by (metis flat_next_def prod.collapse)
qed

lemma flat_start_ok: "acc_ok (st_accounts (bc_state (flat_chain tgt)))" "dict_ok (gc_alloc (flat_config tgt))"
  by (simp_all add: flat_chain_def flat_config_def)

lemma flat_reachable: "reachable flat_ext (flat_config 1000) flat_next"
proof -
  have "reachable flat_ext (flat_config 1000) (flat_chain 1000)"
    by (rule reachable.Start [OF flat_genesis]) (simp_all add: MAX_TARGET_def)
  then show ?thesis by (rule reachable.Add [OF _ flat_add])
qed

text \<open>The competing block applied to the state at genesis, in stages.\<close>

definition flat_root_block :: block where "flat_root_block = flat_block 0 ''0'' 1000 1000"
definition fork_block :: block where "fork_block = flat_block 1 ''1'' 1000 1060"
definition flat_state :: state where
  "flat_state = \<lparr>st_accounts = Plain [(''aa'', flat_account 1000)], st_chain_id = ''main''\<rparr>"

lemma fork_links: "validate_block_link_and_hash flat_ext 2000 flat_root_block fork_block = None"
  by code_simp

lemma fork_retarget:
  "next_target (flat_chain 1000) 1000 (next_avg (flat_chain 1000) 60 (dbl_of_int 100)) = Inr 960"
  by code_simp

lemma fork_roots:
  "calculate_receipt_root flat_ext [] = bl_receipt_root fork_block"
  "state_root flat_ext (st_accounts (pay_miner fork_block 0 flat_state)) = Inr ''2''"
  by code_simp+

lemma fork_fields:
  "bl_target fork_block = 1000" "bl_transactions fork_block = []" "bl_receipts fork_block = []"
  "bl_state_root fork_block = Some ''2''" "bl_timestamp fork_block = 1060" "bl_timestamp flat_root_block = 1000"
  "bl_index fork_block = 1"
  by (simp_all add: fork_block_def flat_root_block_def flat_block_def new_block_def)

lemma fork_applied:
  "apply_block flat_ext 2000 (flat_chain 1000) flat_root_block fork_block flat_state 1000 (dbl_of_int 100)
     = (pay_miner fork_block 0 flat_state,
        Inr (VALID, 960, next_avg (flat_chain 1000) 60 (dbl_of_int 100)))"
  by (simp add: apply_block_def fork_links fork_retarget fork_roots fork_fields total_fees_def Let_def)

lemma fork_stages:
  "fork_check [flat_root_block] fork_block = None"
  "fast_pow [fork_block] = None"
  "get_total_work [flat_root_block] < get_total_work [flat_root_block, fork_block]"
  "fork_start (flat_chain 1000) 1 [flat_root_block, fork_block]
     = Inr (st_accounts flat_state, 1, 1000, dbl_of_int 100)"
  "orphans flat_ext [flat_root_block] [flat_root_block, fork_block] = []"
  by code_simp+

lemma fork_prefix:
  "bc_chain (flat_chain 1000) = [flat_root_block]" "py_prefix [flat_root_block] 1 = [flat_root_block]"
  "\<lparr>st_accounts = st_accounts flat_state, st_chain_id = bc_chain_id (flat_chain 1000)\<rparr> = flat_state"
  by (simp_all add: flat_chain_def py_prefix_def flat_root_block_def flat_state_def)

lemma fork_resolved:
  "\<exists>bc'. resolve_conflicts flat_ext 2000 [fork_block] (flat_chain 1000) = (bc', Inr (True, []))
     \<and> bc_chain bc' = [flat_root_block, fork_block]"
  using fork_stages(3)
  by (simp add: resolve_conflicts_def Let_def fork_fields fork_stages fork_prefix fork_applied not_le
      del: fast_pow.simps)

end
