(* ===== verification/ChainGuarantees.thy ===== *)
theory ChainGuarantees
  imports ChainDemo
begin

section \<open>Guarantees of the chain\<close>

text \<open>The execution of transactions one after the other: each is valid on the state that the ones
  before it left, and its receipt is the one its own execution produced.\<close>

inductive executes :: "'a ext_scheme \<Rightarrow> state \<Rightarrow> transaction list \<Rightarrow> receipt list \<Rightarrow> state \<Rightarrow> bool"
  for E :: "'a ext_scheme" where
  Done: "executes E st [] [] st"
| Next: "executes E st (tx # txs) (r # rs) st2"
  if "validate_and_apply_with_status E st tx = (st1, Inr (VALID, Some r))" "executes E st1 txs rs st2"

inductive_simps executes_simps: "executes E st [] rs st'" "executes E st (tx # txs) rs st'"

lemma apply_txs_executes: "apply_txs E st txs = (st', Inr (VALID, rs)) \<Longrightarrow> executes E st txs rs st'"
proof (induction txs arbitrary: st rs)
  case (Cons tx txs)
  from Cons.prems show ?case by (rule apply_txs_Cons) (auto intro: executes.Next Cons.IH)
qed (simp add: executes.Done)

lemma executes_signed:
  "executes E st txs rs st' \<Longrightarrow> list_all (\<lambda>tx. tx_verify E tx \<and> tx_chain_id tx = st_chain_id st) txs"
proof (induction rule: executes.induct)
  case (Next st tx st1 r txs rs st2)
  have "tx_verify E tx \<and> tx_chain_id tx = st_chain_id st" "st_chain_id st1 = st_chain_id st"
    using Next.hyps(1) accepted [OF Next.hyps(1)]
    by (auto simp: validate_and_apply_with_status_def verify_transaction_logic_def split: if_splits)
  with Next.IH show ?case by simp
qed simp

text \<open>C1: a block is only added to the chain when it links to the last block (previous hash, next
  index, its own hash below its target, a later time stamp not too far in the future), carries
  the target the chain demands, and its transactions execute one after the other on the chain's
  state, each of them signed, for this chain and valid where it stands. The receipts in the block
  are those of this execution, its receipt root is theirs, and the state the chain then has is
  the executed one with the miner paid; the block's state root is the root of it. That state holds
  the coins there were, plus the mining reward of 50 when the block names a miner, minus the fees
  when it does not. (As for C3, an execution in which a float reaches an amount or a contract
  gets hold of the worker's frame is outside the model.)\<close>

theorem added_block_checked:
  assumes "acc_ok (st_accounts (bc_state bc))" "add_block E now b bc = (bc', Inr VALID)"
  shows "bc_chain bc' = bc_chain bc @ [b] \<and> linked E (last_block bc) b
    \<and> bl_timestamp b \<le> now + MAX_FUTURE_BLOCK_TIME_MS \<and> bl_target b = bc_target bc
    \<and> (\<exists>st root.
        executes E ((state_copy (bc_state bc))\<lparr>st_chain_id := bc_chain_id bc\<rparr>) (bl_transactions b) (bl_receipts b) st
      \<and> bc_state bc' = commit_state (pay_miner b (total_fees (bl_receipts b) (bl_transactions b)) st)
      \<and> state_root E (st_accounts (bc_state bc')) = Inr root \<and> bl_state_root b = Some root)
    \<and> list_all (\<lambda>tx. tx_verify E tx \<and> tx_chain_id tx = bc_chain_id bc) (bl_transactions b)
    \<and> bl_receipt_root b = calculate_receipt_root E (bl_receipts b)
    \<and> total_supply (st_accounts (bc_state bc')) = total_supply (st_accounts (bc_state bc))
        + (if bl_miner b = None \<or> bl_miner b = Some []
           then - total_fees (bl_receipts b) (bl_transactions b) else DEFAULT_MINING_REWARD)"
proof -
  from add_block_VALID [OF assms(2)] obtain st rs avg' where
    ap: "block_applied E now (last_block bc) b (bc_target bc)
       ((state_copy (bc_state bc))\<lparr>st_chain_id := bc_chain_id bc\<rparr>) st rs"
    and bc': "bc_state bc' = commit_state st" "bc_chain bc' = bc_chain bc @ [b]"
    by (metis blockchain.select_convs(1,2) blockchain.surjective blockchain.update_convs)
  let ?c = "(state_copy (bc_state bc))\<lparr>st_chain_id := bc_chain_id bc\<rparr>"
  have c: "acc_ok (st_accounts ?c)" "total_supply (st_accounts ?c) = total_supply (st_accounts (bc_state bc))"
    "acc_depth (st_accounts ?c) = Suc (acc_depth (st_accounts (bc_state bc)))"
    using assms(1) state_copy_ok state_copy_supply state_copy_depth by auto
  note l = block_applied_laws [OF ap c(1)]
  note m = commit_state_laws [OF l(1) l(2) [unfolded c(3)]]
  from ap have root: "state_root E (st_accounts (commit_state st)) = state_root E (st_accounts st)"
    by (intro state_root_view m(1,3) l(1))
  from ap obtain st1 where a: "apply_txs E ?c (bl_transactions b) = (st1, Inr (VALID, rs))"
    and st: "st = pay_miner b (total_fees rs (bl_transactions b)) st1" and rs: "bl_receipts b = rs"
    by (auto simp: block_applied_def)
  note x = apply_txs_executes [OF a]
  from executes_signed [OF x] x ap bc' l(4) m(4) c(2) root show ?thesis
    by (auto simp: block_applied_def rs simp flip: st)
qed

text \<open>A block with a transfer of 10 coins to the miner \<open>bb\<close>.\<close>

definition pay_tx :: transaction where
  "pay_tx = demo_tx (Some demo_address) 10 0 5 2 None"

definition pay_block :: block where
  "pay_block =
     (let r = success_receipt flat_ext pay_tx 5 [] in
      (new_block flat_ext 0 1 ''1'' 1000 [pay_tx] 1050 (Some ''2'') (calculate_receipt_root flat_ext [r]) [r] (Some ''bb''))
        \<lparr>bl_hash := Some ''1''\<rparr>)"

lemma pay_add: "snd (add_block flat_ext 2000 pay_block (flat_chain 1000)) = Inr VALID"
  by code_simp

theorem added_block_checked_witness:
  "\<exists>bc' st. add_block flat_ext 2000 pay_block (flat_chain 1000) = (bc', Inr VALID)
   \<and> executes flat_ext ((state_copy (bc_state (flat_chain 1000)))\<lparr>st_chain_id := ''main''\<rparr>) [pay_tx] (bl_receipts pay_block) st
   \<and> total_supply (st_accounts (bc_state bc')) = 1050"
proof -
  have t: "total_supply (st_accounts (bc_state (flat_chain 1000))) = 1000"
    by (simp add: total_supply_def flat_chain_def flat_account_def)
  have b: "bl_transactions pay_block = [pay_tx]" "bl_miner pay_block = Some ''bb''" "bc_chain_id (flat_chain 1000) = ''main''"
    by (simp_all add: pay_block_def new_block_def Let_def flat_chain_def)
  obtain bc' where a: "add_block flat_ext 2000 pay_block (flat_chain 1000) = (bc', Inr VALID)"
    using pay_add by (metis prod.collapse)
  from added_block_checked [OF flat_start_ok(1) a] t b a show ?thesis
    by (auto simp: DEFAULT_MINING_REWARD_def)
qed

text \<open>C4: in every chain object that genesis, added blocks and reorganisations can lead to, the
  first block has index 0 and every block links to the one before: its previous hash is that
  block's hash, its index the next one, its hash the hash of its header and below its own
  target, its time stamp later; the current target is in range, at most ten snapshots are kept
  and the accounts are a plain dictionary.\<close>

theorem reachable_chain_ok:
  assumes "reachable E g bc" "dict_ok (gc_alloc g)"
  shows "chain_ok E bc"
  by (rule reachable_ok [OF assms])

theorem reachable_chain_ok_witness:
  "chain_ok flat_ext flat_next \<and> length (bc_chain flat_next) = 2"
proof
  show "chain_ok flat_ext flat_next"
    by (rule reachable_chain_ok [OF flat_reachable flat_start_ok(2)])
  show "length (bc_chain flat_next) = 2" by code_simp
qed

text \<open>consequently the block at position \<open>i\<close> of the chain has index \<open>i\<close>.\<close>

lemma block_at_its_height:
  assumes "reachable E g bc" "dict_ok (gc_alloc g)" "i < length (bc_chain bc)"
  shows "bl_index (bc_chain bc ! i) = int i"
  using reachable_ok [OF assms(1,2)] linked_positions [of E "bc_chain bc" i] assms(3)
  by (simp add: chain_ok_def)

text \<open>genesis. When the configuration is accepted, the state holds exactly the coins it
  allocates (the declared initial supply, if there is one), the block's hash is that of its
  header (the declared hash, if there is one) and its state root is that of the state.\<close>

lemma genesis_checked:
  assumes "create_genesis cr now g = Inr bc" "dict_ok (gc_alloc g)"
  shows "chain_ok cr bc \<and> length (bc_chain bc) = 1
    \<and> (case gc_initial_supply g of None \<Rightarrow> True | Some s \<Rightarrow> total_supply (st_accounts (bc_state bc)) = s)
    \<and> bl_hash (last_block bc) = Some (compute_hash cr (last_block bc))
    \<and> (case gc_hash g of None \<Rightarrow> True | Some h \<Rightarrow> h = [] \<or> h = compute_hash cr (last_block bc))
    \<and> (\<exists>root. state_root cr (st_accounts (bc_state bc)) = Inr root \<and> bl_state_root (last_block bc) = Some root)"
  by (rule genesis_laws [OF assms])

lemma genesis_checked_witness:
  "chain_ok flat_ext (flat_chain 1000) \<and> total_supply (st_accounts (bc_state (flat_chain 1000))) = 1000"
proof -
  have "create_genesis flat_ext 0 (flat_config 1000) = Inr (flat_chain 1000)"
    by (rule flat_genesis) (simp_all add: MAX_TARGET_def)
  from genesis_checked [OF this flat_start_ok(2)] show ?thesis by (simp add: flat_config_def)
qed

subsection \<open>Reorganisation\<close>

lemma txs_by_id_set: "dict_get (txs_by_id cr bs) i = Some t \<Longrightarrow> \<exists>b \<in> set bs. t \<in> set (bl_transactions b) \<and> i = tx_id cr t"
proof -
  have "dict_get (dict_update d (map (\<lambda>t. (tx_id cr t, t)) ts)) i = Some t \<Longrightarrow>
      dict_get d i = Some t \<or> (t \<in> set ts \<and> i = tx_id cr t)" for d ts
    by (induction ts arbitrary: d) (fastforce split: if_splits)+
  from this [of "[]" "concat (map bl_transactions bs)"] show
    "dict_get (txs_by_id cr bs) i = Some t \<Longrightarrow> \<exists>b \<in> set bs. t \<in> set (bl_transactions b) \<and> i = tx_id cr t"
    by (auto simp: txs_by_id_def)
qed

lemma txs_by_id_all:
  assumes "t \<in> set (bl_transactions b)" "b \<in> set bs"
  shows "dict_get (txs_by_id cr bs) (tx_id cr t) \<noteq> None"
proof -
  have keep: "dict_get d i \<noteq> None \<Longrightarrow> dict_get (dict_update d e) i \<noteq> None" for d i and e :: "transaction dict"
    by (induction d e rule: dict_update.induct) auto
  have all: "t \<in> set ts \<Longrightarrow> dict_get (dict_update d (map (\<lambda>t. (tx_id cr t, t)) ts)) (tx_id cr t) \<noteq> None" for d ts
  proof (induction ts arbitrary: d)
    case (Cons u ts)
    then show ?case using keep [of "dict_set (tx_id cr u) u d" "tx_id cr t" "map (\<lambda>t. (tx_id cr t, t)) ts"]
      by (cases "t \<in> set ts") auto
  qed simp
  show ?thesis unfolding txs_by_id_def by (rule all) (use assms in auto)
qed

lemma txs_by_id_ok: "dict_ok (txs_by_id cr bs)"
  by (simp add: txs_by_id_def)

lemma orphans_ids:
  "map (tx_id cr) (orphans cr old new) = map fst (filter (\<lambda>(i, t). i \<notin> set (map (tx_id cr) (concat (map bl_transactions (tl new))))) (txs_by_id cr (tl old)))"
proof -
  have "tx_id cr t = i" if "(i, t) \<in> set (txs_by_id cr (tl old))" for i t
    using txs_by_id_set [OF map_of_is_SomeI [OF txs_by_id_ok that]] by auto
  then show ?thesis by (auto simp: orphans_def Let_def intro!: map_cong)
qed

definition block_ids :: "'a crypto_scheme \<Rightarrow> block list \<Rightarrow> string set" where
  "block_ids cr bs = {tx_id cr t |b t. b \<in> set bs \<and> t \<in> set (bl_transactions b)}"

lemma orphans_spec: "tx_id cr ` set (orphans cr old new) = block_ids cr (tl old) - block_ids cr (tl new)"
proof -
  have "tx_id cr ` set (orphans cr old new) = set (map fst (filter (\<lambda>(i, t). i \<notin> set (map (tx_id cr) (concat (map bl_transactions (tl new))))) (txs_by_id cr (tl old))))"
    by (simp only: flip: orphans_ids set_map)
  also have "\<dots> = fst ` set (txs_by_id cr (tl old)) - block_ids cr (tl new)"
    by (force simp: block_ids_def)
  also have "fst ` set (txs_by_id cr (tl old)) = block_ids cr (tl old)"
  proof (intro set_eqI iffI)
    fix i assume "i \<in> fst ` set (txs_by_id cr (tl old))"
    then obtain t where "dict_get (txs_by_id cr (tl old)) i = Some t" unfolding dict_mem by blast
    from txs_by_id_set [OF this] show "i \<in> block_ids cr (tl old)" by (auto simp: block_ids_def)
  next
    fix i assume "i \<in> block_ids cr (tl old)"
    then obtain b t where "b \<in> set (tl old)" "t \<in> set (bl_transactions b)" "i = tx_id cr t"
      by (auto simp: block_ids_def)
    with txs_by_id_all [of t b "tl old" cr] show "i \<in> fst ` set (txs_by_id cr (tl old))"
      unfolding dict_mem by blast
  qed
  finally show ?thesis .
qed

text \<open>C5: a reorganisation happens only to a chain with strictly more cumulative work that extends a
  part of ours; the returned orphans are, by identifier and each once, the transactions of our
  old blocks that the new ones do not hold. In every other case, exceptions included, the chain
  object is unchanged; so the work of a node's chain never decreases.\<close>

theorem reorg_gains_work:
  assumes "resolve_conflicts E now new bc = (bc', r)"
  shows "(\<exists>os. r = Inr (True, os)
       \<and> get_total_work (bc_chain bc) < get_total_work (bc_chain bc')
       \<and> bc_chain bc' = py_prefix (bc_chain bc) (bl_index (hd new)) @ new
       \<and> tx_id E ` set os = block_ids E (tl (bc_chain bc)) - block_ids E (tl (bc_chain bc'))
       \<and> distinct (map (tx_id E) os))
     \<or> bc' = bc"
proof (cases "\<exists>os. r = Inr (True, os)")
  case False
  with resolve_failure [OF assms] show ?thesis by blast
next
  case True
  then obtain os where r: "r = Inr (True, os)" by blast
  from assms [unfolded r] show ?thesis
  proof (cases rule: resolve_success)
    case (1 first rest proposed A start t avg st t' avg')
    then have "bc_chain bc' = proposed" by simp
    moreover have "distinct (map (tx_id E) os)"
      unfolding 1 orphans_ids using txs_by_id_ok [of E "tl (bc_chain bc)"] by (simp add: distinct_map_filter)
    ultimately show ?thesis using 1 r by (simp add: orphans_spec)
  qed
qed

theorem reorg_gains_work_witness:
  "\<exists>bc'. resolve_conflicts flat_ext 2000 [fork_block] (flat_chain 1000) = (bc', Inr (True, []))
     \<and> get_total_work (bc_chain (flat_chain 1000)) < get_total_work (bc_chain bc')"
proof -
  from fork_resolved obtain bc' where
    r: "resolve_conflicts flat_ext 2000 [fork_block] (flat_chain 1000) = (bc', Inr (True, []))"
    and c: "bc_chain bc' = [flat_root_block, fork_block]" by blast
  from c have "bc' \<noteq> flat_chain 1000" by (auto simp: flat_chain_def)
  with reorg_gains_work [OF r] r show ?thesis by blast
qed

text \<open>a competing chain that starts with the genesis block is refused unless the genesis hash
  happens to be below the genesis target: the fast check of the proof of work covers every
  incoming block, and genesis is not mined.\<close>

lemma full_chain_refused:
  assumes "new = first # rest" "bl_index first = 0" "bl_hash first = bl_hash (hd (bc_chain bc))"
    and "bl_hash first = Some h" "py_int_of_str 16 h = Some v" "bl_target first \<le> v"
  shows "resolve_conflicts E now new bc = (bc, Inr (False, []))"
proof -
  have "fork_check (bc_chain bc) first = None" using assms(2,3) by (simp add: fork_check_def)
  moreover have "fast_pow new = Some (Inr False)" using assms(1,4-6) by simp
  ultimately show ?thesis by (simp add: resolve_conflicts_def assms(1) Let_def)
qed

lemma full_chain_refused_witness:
  "resolve_conflicts flat_ext 2000 ([flat_block 0 ''0'' 1 1000, fork_block]) (flat_chain 1) = (flat_chain 1, Inr (False, []))"
  by (rule full_chain_refused [of _ "flat_block 0 ''0'' 1 1000" "[fork_block]", OF _ _ _ _ read_one])
    (simp_all add: flat_block_def new_block_def flat_chain_def)

subsection \<open>Retargeting and rejection\<close>

text \<open>the next target is always in range; it stays as it is when the average block time is the
  target time, does not grow when blocks are faster and does not shrink when they are slower.\<close>

lemma retarget_direction:
  assumes "next_target bc t avg = Inr t'" "0 < bc_target_block_time bc" "MIN_TARGET \<le> t" "t \<le> MAX_TARGET"
  shows "MIN_TARGET \<le> t' \<and> t' \<le> MAX_TARGET
    \<and> (dbl_trunc avg = bc_target_block_time bc \<longrightarrow> t' = t)
    \<and> (dbl_trunc avg \<le> bc_target_block_time bc \<longrightarrow> t' \<le> t)
    \<and> (bc_target_block_time bc \<le> dbl_trunc avg \<longrightarrow> t \<le> t')"
proof -
  let ?T = "bc_target_block_time bc" and ?a = "dbl_trunc avg"
  have t': "t' = max MIN_TARGET (min MAX_TARGET ((t * ?a) div ?T))"
    using assms(1,2) by (simp add: next_target_def)
  have t0: "0 \<le> t" using assms(3) by (simp add: MIN_TARGET_def)
  have "t * ?a \<le> t * ?T" if "?a \<le> ?T" using that t0 by (rule mult_left_mono)
  then have le: "(t * ?a) div ?T \<le> t" if "?a \<le> ?T"
    using that assms(2) zdiv_mono1 [of "t * ?a" "t * ?T" ?T] by simp
  have "t * ?T \<le> t * ?a" if "?T \<le> ?a" using that t0 by (rule mult_left_mono)
  then have ge: "t \<le> (t * ?a) div ?T" if "?T \<le> ?a"
    using that assms(2) zdiv_mono1 [of "t * ?T" "t * ?a" ?T] by simp
  show ?thesis using le ge assms(3,4) by (auto simp: t')
qed

lemma retarget_direction_witness:
  "\<exists>t'. next_target (flat_chain 1000) 1000 (dbl_of_int 50) = Inr t' \<and> t' \<le> 1000
     \<and> next_target (flat_chain 1000) 1000 (dbl_of_int 50) = Inr 500"
proof -
  have n: "next_target (flat_chain 1000) 1000 (dbl_of_int 50) = Inr 500" by code_simp
  have "0 < bc_target_block_time (flat_chain 1000)" "MIN_TARGET \<le> 1000" "1000 \<le> MAX_TARGET"
    "dbl_trunc (dbl_of_int 50) \<le> bc_target_block_time (flat_chain 1000)" by code_simp+
  with retarget_direction [OF n] n show ?thesis by blast
qed

end
