(* ===== verification/JsonParse.thy ===== *)
theory JsonParse
  imports Tx
begin

section \<open>Reading JSON texts\<close>

text \<open>
  \<open>json.loads\<close> of the standard library, which persistence.py and p2p.py call on what they read
  back or receive: white space, strings with their escapes (a pair of \<open>\u\<close> escapes may be a
  surrogate pair), numbers, the three constants, arrays and objects, in which a repeated key
  keeps its first place and takes its last value. \<open>ValueError\<close> is \<open>JSONDecodeError\<close>.
  \<open>Unmodelled\<close> are floats, strings with lone surrogates, and the recursion limit.
\<close>

subsection \<open>Strings\<close>

definition is_ws :: "char \<Rightarrow> bool" where
  "is_ws c = (of_char c \<in> {32, 9, 10, 13 :: nat})"

abbreviation skip_ws :: "string \<Rightarrow> string" where
  "skip_ws \<equiv> dropWhile is_ws"

definition utf8_encode :: "nat \<Rightarrow> string" where
  "utf8_encode n = map char_of
     (if n < 128 then [n]
      else if n < 2048 then [192 + n div 64, 128 + n mod 64]
      else if n < 65536 then [224 + n div 4096, 128 + n div 64 mod 64, 128 + n mod 64]
      else [240 + n div 262144, 128 + n div 4096 mod 64, 128 + n div 64 mod 64, 128 + n mod 64])"

definition code_point :: "nat \<Rightarrow> bool" where
  "code_point n \<longleftrightarrow> n < 55296 \<or> 57344 \<le> n \<and> n < 1114112"

text \<open>The byte strings that are UTF-8.\<close>

definition utf8_text :: "string \<Rightarrow> bool" where
  "utf8_text s \<longleftrightarrow> list_all code_point (utf8_decode s) \<and> concat (map utf8_encode (utf8_decode s)) = s"

definition hex4_val :: "string \<Rightarrow> nat option" where
  "hex4_val s =
     (case map (digit_val 16) (take 4 s) of
        [Some a, Some b, Some c, Some d] \<Rightarrow> Some (4096 * a + 256 * b + 16 * c + d)
      | _ \<Rightarrow> None)"

definition json_error :: "decode_error + 'a" where
  "json_error = Inl (Raised ValueError)"

text \<open>A \<open>\u\<close> escape, from behind the \<open>u\<close>.\<close>

definition scan_unicode :: "string \<Rightarrow> (string \<times> string) decoded" where
  "scan_unicode s =
     (case hex4_val s of
        None \<Rightarrow> json_error
      | Some n \<Rightarrow>
          let r = drop 4 s in
          if n < 55296 \<or> 57343 < n then Inr (utf8_encode n, r)
          else if n < 56320 \<and> take 2 r = [CHR 0x5C, CHR ''u''] then
            (case hex4_val (drop 2 r) of
               None \<Rightarrow> json_error
             | Some m \<Rightarrow>
                 if 56320 \<le> m \<and> m \<le> 57343
                 then Inr (utf8_encode (65536 + (n - 55296) * 1024 + (m - 56320)), drop 6 r)
                 else Inl Unmodelled)
          else Inl Unmodelled)"

definition scan_escape :: "string \<Rightarrow> (string \<times> string) decoded" where
  "scan_escape s =
     (case s of
        [] \<Rightarrow> json_error
      | e # r \<Rightarrow>
          if e = CHR 0x22 \<or> e = CHR 0x5C \<or> e = CHR ''/'' then Inr ([e], r)
          else if e = CHR ''b'' then Inr ([char_of (8::nat)], r)
          else if e = CHR ''f'' then Inr ([char_of (12::nat)], r)
          else if e = CHR ''n'' then Inr ([char_of (10::nat)], r)
          else if e = CHR ''r'' then Inr ([char_of (13::nat)], r)
          else if e = CHR ''t'' then Inr ([char_of (9::nat)], r)
          else if e = CHR ''u'' then scan_unicode r
          else json_error)"

lemma scan_escape_shorter: "scan_escape s = Inr (t, r) \<Longrightarrow> length r < length s"
  by (auto simp: scan_escape_def scan_unicode_def json_error_def Let_def
      split: list.splits if_splits option.splits)

text \<open>The rest of a string, from behind the opening quotation mark.\<close>

function scan_string :: "string \<Rightarrow> (string \<times> string) decoded" where
  "scan_string s =
     (case s of
        [] \<Rightarrow> json_error
      | c # cs \<Rightarrow>
          if c = CHR 0x22 then Inr ([], cs)
          else if c = CHR 0x5C then
            (case scan_escape cs of
               Inl e \<Rightarrow> Inl e
             | Inr (t, r) \<Rightarrow>
                 (case scan_string r of Inl e \<Rightarrow> Inl e | Inr (u, r') \<Rightarrow> Inr (t @ u, r')))
          else if of_char c < (32::nat) then json_error
          else (case scan_string cs of Inl e \<Rightarrow> Inl e | Inr (u, r') \<Rightarrow> Inr (c # u, r')))"
  by pat_completeness auto
termination
  by (relation "measure length") (auto dest: scan_escape_shorter)

declare scan_string.simps [simp del]

subsection \<open>Numbers\<close>

definition is_digit :: "char \<Rightarrow> bool" where
  "is_digit c = (digit_val 10 c \<noteq> None)"

text \<open>A fraction or an exponent follows.\<close>

definition float_tail :: "string \<Rightarrow> bool" where
  "float_tail s =
     (case s of
        c # d # r \<Rightarrow>
          (c = CHR ''.'' \<and> is_digit d)
          \<or> ((c = CHR ''e'' \<or> c = CHR ''E'')
             \<and> (is_digit d \<or> (d = CHR ''+'' \<or> d = CHR ''-'') \<and> r \<noteq> [] \<and> is_digit (hd r)))
      | _ \<Rightarrow> False)"

definition scan_digits :: "bool \<Rightarrow> string \<Rightarrow> (json \<times> string) decoded" where
  "scan_digits neg t =
     (let ds = takeWhile is_digit t;
          us = (if take 1 ds = ''0'' then ''0'' else ds); r = drop (length us) t
      in case read_digits 10 False 0 us of
           None \<Rightarrow> if neg \<and> take 8 t = ''Infinity'' then Inl Unmodelled else json_error
         | Some i \<Rightarrow> if float_tail r then Inl Unmodelled else Inr (JInt (if neg then - i else i), r))"

definition scan_number :: "string \<Rightarrow> (json \<times> string) decoded" where
  "scan_number s = (if take 1 s = ''-'' then scan_digits True (drop 1 s) else scan_digits False s)"

definition scan_constant :: "string \<Rightarrow> (json \<times> string) decoded" where
  "scan_constant s =
     (if take 4 s = ''null'' then Inr (JNull, drop 4 s)
      else if take 4 s = ''true'' then Inr (JBool True, drop 4 s)
      else if take 5 s = ''false'' then Inr (JBool False, drop 5 s)
      else if take 3 s = ''NaN'' \<or> take 8 s = ''Infinity'' then Inl Unmodelled
      else scan_number s)"

subsection \<open>Values\<close>

text \<open>Each call takes one unit of the first argument, the bound on their number.\<close>

fun scan_value :: "nat \<Rightarrow> string \<Rightarrow> (json \<times> string) decoded"
  and scan_items :: "nat \<Rightarrow> string \<Rightarrow> json list \<Rightarrow> (json \<times> string) decoded"
  and scan_members :: "nat \<Rightarrow> string \<Rightarrow> json dict \<Rightarrow> (json \<times> string) decoded" where
  "scan_value 0 s = Inl Unmodelled"
| "scan_value (Suc f) s =
     (case s of
        [] \<Rightarrow> json_error
      | c # cs \<Rightarrow>
          if c = CHR 0x22
          then (case scan_string cs of Inl e \<Rightarrow> Inl e | Inr (t, r) \<Rightarrow> Inr (JStr t, r))
          else if c = CHR ''['' then
            (if take 1 (skip_ws cs) = '']'' then Inr (JArr [], drop 1 (skip_ws cs))
             else scan_items f (skip_ws cs) [])
          else if c = CHR ''{'' then
            (if take 1 (skip_ws cs) = ''}'' then Inr (JObj [], drop 1 (skip_ws cs))
             else scan_members f (skip_ws cs) [])
          else scan_constant s)"
| "scan_items 0 s acc = Inl Unmodelled"
| "scan_items (Suc f) s acc =
     (case scan_value f s of
        Inl e \<Rightarrow> Inl e
      | Inr (v, r) \<Rightarrow>
          (case skip_ws r of
             [] \<Rightarrow> json_error
           | d # r' \<Rightarrow>
               if d = CHR '']'' then Inr (JArr (acc @ [v]), r')
               else if d = CHR '','' then scan_items f (skip_ws r') (acc @ [v])
               else json_error))"
| "scan_members 0 s acc = Inl Unmodelled"
| "scan_members (Suc f) s acc =
     (case s of
        [] \<Rightarrow> json_error
      | q # cs \<Rightarrow>
          if q \<noteq> CHR 0x22 then json_error
          else case scan_string cs of
            Inl e \<Rightarrow> Inl e
          | Inr (k, r) \<Rightarrow>
              if take 1 (skip_ws r) \<noteq> '':'' then json_error
              else case scan_value f (skip_ws (drop 1 (skip_ws r))) of
                Inl e \<Rightarrow> Inl e
              | Inr (v, r2) \<Rightarrow>
                  (case skip_ws r2 of
                     [] \<Rightarrow> json_error
                   | d # r' \<Rightarrow>
                       if d = CHR ''}'' then Inr (JObj (dict_set k v acc), r')
                       else if d = CHR '','' then scan_members f (skip_ws r') (dict_set k v acc)
                       else json_error))"

definition json_loads :: "string \<Rightarrow> json decoded" where
  "json_loads s =
     (case scan_value (Suc (length s)) (skip_ws s) of
        Inl e \<Rightarrow> Inl e
      | Inr (v, r) \<Rightarrow> if skip_ws r = [] then Inr v else json_error)"

end
