(* ===== verification/JsonRead.thy ===== *)
theory JsonRead
  imports JsonParse JsonInj
begin

section \<open>What is printed is read back\<close>

text \<open>\<open>json_loads\<close> inverts \<open>json_dumps\<close> in every style the code uses.\<close>

subsection \<open>Strings\<close>

lemma hex4_val_hex4: "n < 65536 \<Longrightarrow> hex4_val (hex4 n @ t) = Some n"
proof -
  assume n: "n < 65536"
  have "4096 * (n div 4096 mod 16) + 256 * (n div 256 mod 16) + 16 * (n div 16 mod 16) + n mod 16 = n"
  proof -
    have d: "n div 256 = n div 16 div 16" "n div 4096 = n div 16 div 16 div 16"
      by (simp_all add: div_mult2_eq [symmetric])
    have e: "k = 16 * (k div 16) + k mod 16" for k :: nat by simp
    have "n div 16 div 16 div 16 < 16" using n by simp
    then have "n div 16 div 16 = 16 * (n div 16 div 16 div 16 mod 16) + n div 16 div 16 mod 16" by simp
    with e [of n] e [of "n div 16"] show ?thesis unfolding d by linarith
  qed
  moreover have "n div 4096 < 16" using n by simp
  ultimately show ?thesis by (simp add: hex4_val_def hex4_def digit_val_digit)
qed

lemma hex4_len [simp]: "length (hex4 n) = 4"
  by (simp add: hex4_def)

lemma scan_unicode_bmp: "code_point n \<Longrightarrow> n < 65536 \<Longrightarrow> scan_unicode (hex4 n @ t) = Inr (utf8_encode n, t)"
  by (auto simp: scan_unicode_def hex4_val_hex4 code_point_def)

lemma scan_unicode_pair:
  assumes "65536 \<le> n" "n < 1114112"
  shows "scan_unicode (hex4 (55296 + (n - 65536) div 1024) @ [CHR 0x5C, CHR ''u'']
           @ hex4 (56320 + (n - 65536) mod 1024) @ t) = Inr (utf8_encode n, t)"
proof -
  define h where "h = (n - 65536) div 1024"
  define l where "l = (n - 65536) mod 1024"
  have "h < 1024" using assms unfolding h_def by linarith
  moreover have "l < 1024" unfolding l_def by simp
  moreover have n: "65536 + h * 1024 + l = n" 
    using div_mult_mod_eq [of "n - 65536" 1024] assms(1) unfolding h_def l_def by linarith
  ultimately show ?thesis
    unfolding h_def [symmetric] l_def [symmetric]
    by (simp add: scan_unicode_def hex4_val_hex4 n)
qed

text \<open>Prepending what one escape stood for.\<close>

definition string_cons :: "string \<Rightarrow> (string \<times> string) decoded \<Rightarrow> (string \<times> string) decoded" where
  "string_cons t x = (case x of Inl e \<Rightarrow> Inl e | Inr (u, r) \<Rightarrow> Inr (t @ u, r))"

lemma scan_string_escape:
  "scan_escape s = Inr (t, r) \<Longrightarrow> scan_string (CHR 0x5C # s) = string_cons t (scan_string r)"
  by (subst scan_string.simps) (simp add: string_cons_def)

lemma scan_string_char:
  "c \<noteq> CHR 0x22 \<Longrightarrow> c \<noteq> CHR 0x5C \<Longrightarrow> 32 \<le> (of_char c :: nat) \<Longrightarrow>
     scan_string (c # s) = string_cons [c] (scan_string s)"
  by (subst scan_string.simps) (auto simp: string_cons_def split: sum.splits)

lemma scan_string_end: "scan_string (CHR 0x22 # r) = Inr ([], r)"
  by (subst scan_string.simps) simp

lemma char_of_quotes: "char_of (34::nat) = CHR 0x22" "char_of (92::nat) = CHR 0x5C"
  by code_simp+

lemma utf8_encode_ascii: "n < 128 \<Longrightarrow> utf8_encode n = [char_of n]"
  by (simp add: utf8_encode_def)

lemma scan_u_escape:
  assumes "code_point n"
  shows "scan_string (u_escape n @ t) = string_cons (utf8_encode n) (scan_string t)"
proof (cases "n < 65536")
  case True
  have "scan_escape (CHR ''u'' # hex4 n @ t) = Inr (utf8_encode n, t)"
    by (simp add: scan_escape_def scan_unicode_bmp [OF assms True])
  from scan_string_escape [OF this] True show ?thesis by (simp add: u_escape_def)
next
  case False
  let ?r = "hex4 (55296 + (n - 65536) div 1024) @ [CHR 0x5C, CHR ''u''] @ hex4 (56320 + (n - 65536) mod 1024) @ t"
  have "scan_escape (CHR ''u'' # ?r) = Inr (utf8_encode n, t)"
    using False assms scan_unicode_pair [of n t] by (simp add: scan_escape_def code_point_def)
  from scan_string_escape [OF this] False show ?thesis by (simp add: u_escape_def)
qed

lemma scan_esc_control:
  assumes "n < 32 \<or> n = 34 \<or> n = 92 \<or> 126 < n" "code_point n"
  shows "scan_string (esc_control n @ t) = string_cons (utf8_encode n) (scan_string t)"
proof (cases "n \<in> {34, 92, 8, 12, 10, 13, 9}")
  case True
  have "scan_escape (drop 1 (esc_control n) @ t) = Inr (utf8_encode n, t)"
    using True by (auto simp: esc_control_def scan_escape_def utf8_encode_ascii char_of_quotes)
  moreover have "esc_control n = CHR 0x5C # drop 1 (esc_control n)"
    using True by (auto simp: esc_control_def)
  ultimately show ?thesis using scan_string_escape by (metis append_Cons)
next
  case False
  then have "esc_control n = u_escape n" by (simp add: esc_control_def)
  with scan_u_escape [OF assms(2)] show ?thesis by simp
qed

lemma scan_esc_ascii:
  assumes "code_point n"
  shows "scan_string (esc_ascii n @ t) = string_cons (utf8_encode n) (scan_string t)"
proof (cases "32 \<le> n \<and> n < 127 \<and> n \<noteq> 34 \<and> n \<noteq> 92")
  case True
  have "char_of n \<noteq> CHR 0x22" "char_of n \<noteq> CHR 0x5C"
    using True by (auto dest!: arg_cong [where f = "of_char :: char \<Rightarrow> nat"])
  moreover have "32 \<le> (of_char (char_of n) :: nat)" using True by simp
  ultimately show ?thesis using True scan_string_char [of "char_of n" t]
    by (simp add: esc_ascii_def utf8_encode_ascii)
next
  case False
  then have n: "n < 32 \<or> n = 34 \<or> n = 92 \<or> 126 < n" by auto
  from False have "esc_ascii n = esc_control n" by (auto simp: esc_ascii_def)
  with scan_esc_control [OF n assms] show ?thesis by simp
qed

lemma scan_esc_utf8: "scan_string (esc_utf8 c @ t) = string_cons [c] (scan_string t)"
proof (cases "of_char c < (32::nat) \<or> of_char c = (34::nat) \<or> of_char c = (92::nat)")
  case True
  let ?n = "of_char c :: nat"
  have "scan_string (esc_control ?n @ t) = string_cons (utf8_encode ?n) (scan_string t)"
    using True by (intro scan_esc_control) (auto simp: code_point_def)
  moreover have "utf8_encode ?n = [c]"
    using True utf8_encode_ascii [of ?n] char_of_char [of c, where ?'a = nat] by auto
  ultimately show ?thesis using True by (simp add: esc_utf8_def Let_def)
next
  case False
  then have "c \<noteq> CHR 0x22" "c \<noteq> CHR 0x5C" by auto
  with False show ?thesis using scan_string_char [of c t] by (simp add: esc_utf8_def Let_def)
qed

definition readable :: "json_style \<Rightarrow> string \<Rightarrow> bool" where
  "readable st s \<longleftrightarrow> (ensure_ascii st \<longrightarrow> utf8_text s)"

lemma scan_quoted:
  assumes "readable st s"
  shows "\<exists>b. quote_str (ensure_ascii st) s @ r = CHR 0x22 # b \<and> scan_string b = Inr (s, r)"
proof -
  have u: "scan_string (concat (map esc_utf8 s) @ CHR 0x22 # r) = Inr (s, r)" for s
    by (induction s) (simp_all add: scan_string_end scan_esc_utf8 string_cons_def)
  have a: "scan_string (concat (map esc_ascii ns) @ CHR 0x22 # r) = Inr (concat (map utf8_encode ns), r)"
    if "list_all code_point ns" for ns
    using that by (induction ns) (simp_all add: scan_string_end scan_esc_ascii string_cons_def)
  show ?thesis using u [of s] a [of "utf8_decode s"] assms
    by (auto simp: quote_str_def readable_def utf8_text_def)
qed

subsection \<open>Numbers\<close>

lemma is_digit_digit: "d < 10 \<Longrightarrow> is_digit (digit d)"
  by (simp add: is_digit_def digit_val_digit)

lemma show_base_10_digits: "0 \<le> i \<Longrightarrow> c \<in> set (show_base 10 i) \<Longrightarrow> is_digit c"
  using set_show_base [of 10 i] by (force dest!: subsetD intro: is_digit_digit)

lemma show_base_leading:
  "0 \<le> n \<Longrightarrow> take 1 (show_base 10 n) = ''0'' \<Longrightarrow> show_base 10 n = ''0''"
proof (induction "10::int" n rule: show_base.induct)
  case (1 n)
  show ?case
  proof (cases "n < 10")
    case True
    then show ?thesis using 1 by (simp add: show_base.simps [of 10 n])
  next
    case False
    then have s: "show_base 10 n = show_base 10 (n div 10) @ [digit (nat (n mod 10))]"
      by (simp add: show_base.simps [of 10 n])
    then have "take 1 (show_base 10 (n div 10)) = ''0''"
      using 1(3) by (cases "show_base 10 (n div 10)") simp_all
    then have "show_base 10 (n div 10) = ''0''" using 1 False by (simp add: pos_imp_zdiv_nonneg_iff)
    then have "n div 10 = 0" using read_show [of 10 "n div 10"] 1(2) read_show [of 10 0]
      by (simp add: pos_imp_zdiv_nonneg_iff show_base.simps [of 10 0] digit_def)
    with False 1(2) show ?thesis by simp
  qed
qed

lemma delimited_not_digit: "delimited r \<Longrightarrow> takeWhile is_digit r = [] \<and> \<not> float_tail r"
  by (auto simp: delimited_def float_tail_def is_digit_def digit_val_def split: list.splits)

lemma scan_digits_show:
  assumes "0 \<le> n" "delimited r"
  shows "scan_digits neg (show_base 10 n @ r) = Inr (JInt (if neg then - n else n), r)"
proof -
  have tw: "takeWhile is_digit (show_base 10 n @ r) = show_base 10 n"
    using delimited_not_digit [OF assms(2)] show_base_10_digits [OF assms(1)]
    by (subst takeWhile_append2) simp_all
  have us: "(if take 1 (show_base 10 n) = ''0'' then ''0'' else show_base 10 n) = show_base 10 n"
    using show_base_leading [OF assms(1)] by auto
  have rd: "read_digits 10 False 0 (show_base 10 n) = Some n"
    using read_show [of 10 n] assms(1) by simp
  have ft: "\<not> float_tail r" using delimited_not_digit [OF assms(2)] by simp
  show ?thesis unfolding scan_digits_def Let_def tw us rd by (simp add: ft)
qed

lemma scan_number_show:
  assumes "delimited r"
  shows "scan_number (py_str_int i @ r) = Inr (JInt i, r)"
proof (cases "i < 0")
  case True
  then show ?thesis using scan_digits_show [of "- i" r True] assms
    by (simp add: py_str_int_def scan_number_def)
next
  case False
  then have "take 1 (show_base 10 i @ r) \<noteq> ''-''"
    using show_base_no_minus [of i] by (cases "show_base 10 i") auto
  then show ?thesis using scan_digits_show [of i r False] assms False
    unfolding py_str_int_def scan_number_def by simp
qed

subsection \<open>Values\<close>

text \<open>The separators of a style are a comma and a colon with white space behind them.\<close>

definition style_ok :: "json_style \<Rightarrow> bool" where
  "style_ok st \<longleftrightarrow> take 1 (item_sep st) = '','' \<and> list_all is_ws (drop 1 (item_sep st))
     \<and> take 1 (key_sep st) = '':'' \<and> list_all is_ws (drop 1 (key_sep st))"

text \<open>The values that are read back: no opaque object, no repeated key, readable strings.\<close>

fun json_ok :: "json_style \<Rightarrow> json \<Rightarrow> bool" where
  "json_ok st (JStr s) = readable st s"
| "json_ok st (JArr xs) = list_all (json_ok st) xs"
| "json_ok st (JObj kvs) = (dict_ok kvs \<and> list_all (\<lambda>(k, v). readable st k \<and> json_ok st v) kvs)"
| "json_ok st JOpaque = False"
| "json_ok st _ = True"

text \<open>The text of a value with its keys in the given order, and the order that the style writes.\<close>

fun text_of :: "json_style \<Rightarrow> json \<Rightarrow> string" where
  "text_of st JNull = ''null''"
| "text_of st (JBool b) = (if b then ''true'' else ''false'')"
| "text_of st (JInt i) = py_str_int i"
| "text_of st (JStr s) = quote_str (ensure_ascii st) s"
| "text_of st (JArr xs) = ''['' @ join (item_sep st) (map (text_of st) xs) @ '']''"
| "text_of st (JObj kvs) = ''{'' @ join (item_sep st)
     (map (\<lambda>(k, v). quote_str (ensure_ascii st) k @ key_sep st @ text_of st v) kvs) @ ''}''"
| "text_of st JOpaque = []"

fun written :: "json_style \<Rightarrow> json \<Rightarrow> json" where
  "written st (JArr xs) = JArr (map (written st) xs)"
| "written st (JObj kvs) =
     (let ps = map (\<lambda>(k, v). (k, written st v)) kvs in JObj (if sort_keys st then sort_key fst ps else ps))"
| "written st j = j"

lemma dumps_written: "dumps_with st j = text_of st (written st j)"
proof (induction st j rule: dumps_with.induct)
  case (5 st xs)
  then show ?case by (simp cong: map_cong)
next
  case (6 st kvs)
  let ?f = "\<lambda>(k, v). (k :: string, dumps_with st v)"
  let ?n = "\<lambda>(k, v). (k :: string, written st v)"
  have s: "sort_key fst (map ?f kvs) = map ?f (sort_key fst kvs)"
    "sort_key fst (map ?n kvs) = map ?n (sort_key fst kvs)"
    by (rule sort_key_map; simp add: split_beta)+
  show ?case
  proof (cases "sort_keys st")
    case True
    with s 6 show ?thesis by (auto simp: Let_def split_beta intro!: arg_cong [where f = "join (item_sep st)"])
  next
    case False
    with 6 show ?thesis by (auto simp: Let_def split_beta intro!: arg_cong [where f = "join (item_sep st)"])
  qed
qed simp_all

lemma written_sorted: "sort_keys st \<Longrightarrow> written st j = norm j"
  by (induction st j rule: written.induct) (auto simp: Let_def intro!: arg_cong [where f = "sort_key fst"])

lemma written_plain: "\<not> sort_keys st \<Longrightarrow> written st j = j"
  by (induction st j rule: written.induct) (auto simp: Let_def intro!: map_idI)

lemma dict_ok_sort: "dict_ok ps \<Longrightarrow> dict_ok (sort_key fst ps)"
  unfolding distinct_map [of fst] by (simp only: distinct_sort set_sort)

lemma json_ok_written: "json_ok st j \<Longrightarrow> json_ok st (written st j)"
proof (induction st j rule: written.induct)
  case (2 st kvs)
  let ?ps = "map (\<lambda>(k, v). (k, written st v)) kvs"
  have "dict_ok ?ps" using 2(2) by (simp add: o_def split_beta)
  moreover have "list_all (\<lambda>(k, v). readable st k \<and> json_ok st v) ?ps"
    using 2 by (auto simp: list_all_iff split_beta)
  ultimately show ?case using dict_ok_sort [of ?ps] by (simp add: Let_def list_all_iff)
qed (auto simp: list_all_iff)

subsection \<open>Reading a value\<close>

definition reads :: "json_style \<Rightarrow> json \<Rightarrow> bool" where
  "reads st j \<longleftrightarrow> (\<forall>f r. delimited r \<longrightarrow> length (text_of st j) < f \<longrightarrow>
     scan_value f (text_of st j @ r) = Inr (j, r))"

lemma readsD: "reads st j \<Longrightarrow> delimited r \<Longrightarrow> length (text_of st j) < f \<Longrightarrow>
    scan_value f (text_of st j @ r) = Inr (j, r)"
  by (simp add: reads_def)

definition starts_value :: "string \<Rightarrow> bool" where
  "starts_value s \<longleftrightarrow> s \<noteq> [] \<and> \<not> is_ws (hd s) \<and> hd s \<noteq> CHR '']'' \<and> hd s \<noteq> CHR ''}''"

lemma num_char_starts: "num_char c \<Longrightarrow> \<not> is_ws c \<and> c \<noteq> CHR '']'' \<and> c \<noteq> CHR ''}''
    \<and> c \<noteq> CHR 0x22 \<and> c \<noteq> CHR ''['' \<and> c \<noteq> CHR ''{'' \<and> c \<noteq> CHR ''n'' \<and> c \<noteq> CHR ''t'' \<and> c \<noteq> CHR ''f''
    \<and> c \<noteq> CHR ''N'' \<and> c \<noteq> CHR ''I''"
  by (drule num_char_cases) (auto simp: is_ws_def)

lemma starts_text: "json_ok st j \<Longrightarrow> starts_value (text_of st j)"
proof (cases j)
  case (JInt i)
  obtain c s where "py_str_int i = c # s" "num_char c" using py_str_int_head by blast
  with JInt num_char_starts [of c] show ?thesis by (simp add: starts_value_def)
qed (auto simp: starts_value_def quote_str_def is_ws_def)

lemma skip_ws_starts: "starts_value s \<Longrightarrow> skip_ws (s @ r) = s @ r"
  by (cases s) (auto simp: starts_value_def)

lemma skip_ws_all: "list_all is_ws ws \<Longrightarrow> skip_ws (ws @ s) = skip_ws s"
  by (induction ws) auto

lemma delim_not_ws: "\<not> is_ws (CHR '','')" "\<not> is_ws (CHR '']'')" "\<not> is_ws (CHR ''}'')" "\<not> is_ws (CHR '':'')"
  by (simp_all add: is_ws_def)

lemma style_seps:
  assumes "style_ok st"
  obtains ws ks where "item_sep st = CHR '','' # ws" "list_all is_ws ws"
    "key_sep st = CHR '':'' # ks" "list_all is_ws ks"
  using assms by (cases "item_sep st"; cases "key_sep st") (auto simp: style_ok_def)

lemma starts_join: "xs \<noteq> [] \<Longrightarrow> starts_value (hd xs) \<Longrightarrow> starts_value (join sep xs)"
  by (cases xs rule: remdups_adj.cases) (auto simp: starts_value_def hd_append)

lemma scan_items_join:
  assumes "style_ok st" "xs \<noteq> []" "\<forall>x \<in> set xs. reads st x \<and> starts_value (text_of st x)"
    and "length (join (item_sep st) (map (text_of st) xs)) + 1 < f"
  shows "scan_items f (join (item_sep st) (map (text_of st) xs) @ CHR '']'' # r) acc = Inr (JArr (acc @ xs), r)"
  using assms(2-)
proof (induction xs arbitrary: f acc rule: induct_list012)
  case (2 x)
  then obtain f' where f: "f = Suc f'" by (cases f) auto
  have "scan_value f' (text_of st x @ CHR '']'' # r) = Inr (x, CHR '']'' # r)"
    using 2 f by (simp add: reads_def delimited_def)
  then show ?case by (simp add: f delim_not_ws)
next
  case (3 x y xs)
  then obtain f' where f: "f = Suc f'" by (cases f) auto
  obtain ws where ws: "item_sep st = CHR '','' # ws" "list_all is_ws ws"
    using style_seps [OF assms(1)] by metis
  let ?rest = "join (item_sep st) (map (text_of st) (y # xs)) @ CHR '']'' # r"
  have "scan_value f' (text_of st x @ item_sep st @ ?rest) = Inr (x, item_sep st @ ?rest)"
    using 3(4,5) f ws by (simp add: reads_def delimited_def)
  moreover have "starts_value (join (item_sep st) (map (text_of st) (y # xs)))"
    using 3(4) by (intro starts_join) auto
  then have "skip_ws (ws @ ?rest) = ?rest" by (simp add: skip_ws_all [OF ws(2)] skip_ws_starts)
  moreover have "scan_items f' ?rest (acc @ [x]) = Inr (JArr ((acc @ [x]) @ y # xs), r)"
    using 3(4,5) f ws(1) by (intro 3(2)) auto
  ultimately show ?case using ws(1) by (simp add: f delim_not_ws)
qed simp

lemma dict_set_new: "k \<notin> fst ` set d \<Longrightarrow> dict_set k v d = d @ [(k, v)]"
  by (induction d) auto

lemma scan_members_join:
  fixes st :: json_style
  defines "entry \<equiv> \<lambda>(k, v). quote_str (ensure_ascii st) k @ key_sep st @ text_of st v"
  assumes "style_ok st" "kvs \<noteq> []"
    and "\<forall>(k, v) \<in> set kvs. readable st k \<and> reads st v \<and> starts_value (text_of st v)"
    and "length (join (item_sep st) (map entry kvs)) + 1 < f" "dict_ok (acc @ kvs)"
  shows "scan_members f (join (item_sep st) (map entry kvs) @ CHR ''}'' # r) acc = Inr (JObj (acc @ kvs), r)"
proof -
  obtain ws ks where ws: "item_sep st = CHR '','' # ws" "list_all is_ws ws"
    and ks: "key_sep st = CHR '':'' # ks" "list_all is_ws ks"
    using style_seps [OF assms(2)] by metis
  have member: "\<exists>b. entry (k, v) @ t = CHR 0x22 # b \<and> (\<exists>r1. scan_string b = Inr (k, r1)
      \<and> take 1 (skip_ws r1) = '':'' \<and> skip_ws (drop 1 (skip_ws r1)) = text_of st v @ t)"
    if rd: "readable st k" and sv: "starts_value (text_of st v)" for k v t
  proof -
    obtain b where b: "quote_str (ensure_ascii st) k @ (key_sep st @ text_of st v @ t) = CHR 0x22 # b"
      "scan_string b = Inr (k, key_sep st @ text_of st v @ t)"
      using scan_quoted [OF rd] by metis
    then show ?thesis using ks sv
      by (simp add: entry_def delim_not_ws skip_ws_all skip_ws_starts)
  qed
  have starts: "starts_value (entry (k, v))" for k v
    by (simp add: entry_def quote_str_def starts_value_def is_ws_def)
  show ?thesis using assms(3-)
  proof (induction kvs arbitrary: f acc rule: induct_list012)
    case (2 p)
    obtain k v where p: "p = (k, v)" by (cases p)
    from 2 obtain f' where f: "f = Suc f'" by (cases f) auto
    obtain b r1 where m: "entry (k, v) @ CHR ''}'' # r = CHR 0x22 # b" "scan_string b = Inr (k, r1)"
      "take 1 (skip_ws r1) = '':''" "skip_ws (drop 1 (skip_ws r1)) = text_of st v @ CHR ''}'' # r"
      using member [of k v] 2(2) p by (metis (no_types, lifting) case_prodD list.set_intros(1))
    have "length (text_of st v) < f'" using 2(3) by (simp add: f p entry_def)
    then have "scan_value f' (text_of st v @ CHR ''}'' # r) = Inr (v, CHR ''}'' # r)"
      using 2(2) p by (simp add: reads_def delimited_def)
    moreover have "k \<notin> fst ` set acc" using 2(4) p by auto
    ultimately show ?case using m by (simp add: f p delim_not_ws dict_set_new)
  next
    case (3 p q kvs)
    obtain k v where p: "p = (k, v)" by (cases p)
    from 3 obtain f' where f: "f = Suc f'" by (cases f) auto
    let ?rest = "join (item_sep st) (map entry (q # kvs)) @ CHR ''}'' # r"
    obtain b r1 where m: "entry (k, v) @ item_sep st @ ?rest = CHR 0x22 # b" "scan_string b = Inr (k, r1)"
      "take 1 (skip_ws r1) = '':''" "skip_ws (drop 1 (skip_ws r1)) = text_of st v @ item_sep st @ ?rest"
      using member [of k v "item_sep st @ ?rest"] 3(4) p by (metis (no_types, lifting) case_prodD list.set_intros(1))
    have "length (text_of st v) < f'" using 3(5) by (simp add: f p entry_def)
    then have v: "scan_value f' (text_of st v @ item_sep st @ ?rest) = Inr (v, item_sep st @ ?rest)"
      using 3(4) p ws(1) by (simp add: reads_def delimited_def)
    have "starts_value (join (item_sep st) (map entry (q # kvs)))"
      using starts by (intro starts_join) (simp_all, cases q, simp)
    then have w: "skip_ws (ws @ ?rest) = ?rest" by (simp add: skip_ws_all [OF ws(2)] skip_ws_starts)
    have new: "k \<notin> fst ` set acc" using 3(6) p by auto
    have "scan_members f' ?rest (acc @ [(k, v)]) = Inr (JObj ((acc @ [(k, v)]) @ q # kvs), r)"
      using 3(4,5,6) f ws(1) p by (intro 3(2)) auto
    moreover have "join (item_sep st) (map entry (p # q # kvs)) @ CHR ''}'' # r = CHR 0x22 # b"
      using m(1) by (simp add: p)
    ultimately show ?case using m(2-) v w new ws(1) by (simp add: f p delim_not_ws dict_set_new del: join.simps)
  qed simp
qed

lemma reads_int: "reads st (JInt i)"
  unfolding reads_def
proof (intro allI impI)
  fix f r assume "delimited r" "length (text_of st (JInt i)) < f"
  then obtain f' where f: "f = Suc f'" by (cases f) auto
  obtain c s where c: "py_str_int i = c # s" "num_char c" using py_str_int_head by blast
  have "scan_constant (py_str_int i @ r) = scan_number (py_str_int i @ r)"
    using c num_char_starts [of c] by (simp add: scan_constant_def)
  then show "scan_value f (text_of st (JInt i) @ r) = Inr (JInt i, r)"
    using f c num_char_starts [of c] scan_number_show [OF \<open>delimited r\<close>, of i] by simp
qed

lemma reads_text: "style_ok st \<Longrightarrow> json_ok st j \<Longrightarrow> reads st j"
proof (induction st j rule: json_ok.induct)
  case (1 st s)
  show ?case unfolding reads_def
  proof (intro allI impI)
    fix f r assume "length (text_of st (JStr s)) < f"
    moreover obtain b where "quote_str (ensure_ascii st) s @ r = CHR 0x22 # b" "scan_string b = Inr (s, r)"
      using scan_quoted [of st s r] 1 by auto
    ultimately show "scan_value f (text_of st (JStr s) @ r) = Inr (JStr s, r)" by (cases f) simp_all
  qed
next
  case (2 st xs)
  have xs: "\<forall>x \<in> set xs. reads st x \<and> starts_value (text_of st x)"
    using 2 by (auto simp: list_all_iff starts_text)
  show ?case unfolding reads_def
  proof (intro allI impI)
    fix f r assume len: "length (text_of st (JArr xs)) < f"
    then obtain f' where f: "f = Suc f'" by (cases f) auto
    show "scan_value f (text_of st (JArr xs) @ r) = Inr (JArr xs, r)"
    proof (cases "xs = []")
      case False
      let ?t = "join (item_sep st) (map (text_of st) xs)"
      have "starts_value ?t" using False xs by (intro starts_join) (cases xs; simp)+
      then have t: "skip_ws (?t @ CHR '']'' # r) = ?t @ CHR '']'' # r"
        "take 1 (?t @ CHR '']'' # r) \<noteq> '']''"
        by (simp_all add: skip_ws_starts) (cases ?t; auto simp: starts_value_def)
      have "scan_items f' (?t @ CHR '']'' # r) [] = Inr (JArr ([] @ xs), r)"
        using len f by (intro scan_items_join [OF 2(2) False xs]) simp
      with t f show ?thesis by simp
    qed (simp add: f delim_not_ws)
  qed
next
  case (3 st kvs)
  have kvs: "\<forall>(k, v) \<in> set kvs. readable st k \<and> reads st v \<and> starts_value (text_of st v)"
    using 3 by (fastforce simp: list_all_iff starts_text)
  show ?case unfolding reads_def
  proof (intro allI impI)
    fix f r assume len: "length (text_of st (JObj kvs)) < f"
    then obtain f' where f: "f = Suc f'" by (cases f) auto
    show "scan_value f (text_of st (JObj kvs) @ r) = Inr (JObj kvs, r)"
    proof (cases "kvs = []")
      case False
      let ?e = "\<lambda>(k, v). quote_str (ensure_ascii st) k @ key_sep st @ text_of st v"
      let ?t = "join (item_sep st) (map ?e kvs)"
      have "starts_value (?e (hd kvs))"
        by (simp add: quote_str_def starts_value_def is_ws_def split: prod.splits)
      then have "starts_value ?t" using False by (intro starts_join) (simp_all add: hd_map)
      then have t: "skip_ws (?t @ CHR ''}'' # r) = ?t @ CHR ''}'' # r"
        "take 1 (?t @ CHR ''}'' # r) \<noteq> ''}''"
        by (simp_all add: skip_ws_starts) (cases ?t; auto simp: starts_value_def)
      have "scan_members f' (?t @ CHR ''}'' # r) [] = Inr (JObj ([] @ kvs), r)"
        using len f 3(3) by (intro scan_members_join [OF 3(2) False kvs]) simp_all
      with t f show ?thesis by simp
    qed (simp add: f delim_not_ws)
  qed
qed (use reads_int in \<open>auto simp: reads_def scan_constant_def less_Suc_eq_0_disj gr0_conv_Suc dest!: Suc_lessD\<close>)

lemma json_loads_text:
  assumes "style_ok st" "json_ok st j"
  shows "json_loads (text_of st j) = Inr j"
proof -
  have "scan_value (Suc (length (text_of st j))) (text_of st j @ []) = Inr (j, [])"
    by (rule readsD [OF reads_text [OF assms]]) (simp_all add: delimited_def)
  moreover have "skip_ws (text_of st j @ []) = text_of st j @ []"
    using skip_ws_starts [OF starts_text [OF assms(2)]] .
  ultimately show ?thesis by (simp add: json_loads_def)
qed

lemma json_loads_dumps:
  assumes "style_ok st" "json_ok st j"
  shows "json_loads (dumps_with st j) = Inr (written st j)"
  using json_loads_text [OF assms(1) json_ok_written [OF assms(2)]] by (simp add: dumps_written)

lemma style_ok_used [simp]: "style_ok default_style" "style_ok (default_style\<lparr>sort_keys := b\<rparr>)" "style_ok canonical_style"
  by (simp_all add: style_ok_def default_style_def canonical_style_def is_ws_def)

lemma serializable_ok: "json_ok st j \<Longrightarrow> serializable j"
  by (induction st j rule: json_ok.induct) (auto simp: list_all_iff)

lemma json_dumps_sorted_loads:
  assumes "json_ok default_style j" "json_dumps_sorted j = Some s"
  shows "json_loads s = Inr (norm j)"
proof -
  let ?st = "default_style\<lparr>sort_keys := True\<rparr>"
  have r: "readable ?st = readable default_style" by (simp add: fun_eq_iff readable_def)
  have "json_ok ?st k = json_ok default_style k" for k
    by (induction k) (auto simp: r list_all_iff Basic_BNFs.snds.simps)
  with assms json_loads_dumps [of ?st j] show ?thesis
    by (auto simp: json_dumps_sorted_def written_sorted split: if_splits)
qed

end
