(* ===== verification/Store.thy ===== *)
theory Store
  imports Chain JsonRead
begin

section \<open>Persistence (persistence.py)\<close>

text \<open>
  \<open>minichain/persistence.py\<close>: the chain and the accounts in the tables of an SQLite file, the
  older JSON file that is still read, and the two tables of peers. A table is the list of its
  rows with the primary key first, \<open>None\<close> when it does not exist. \<open>with conn\<close> is a
  transaction: an exception restores the tables. Times in rows are counted in ticks of the clock.
\<close>

subsection \<open>Files and tables\<close>

record database =
  db_blocks :: "(int \<times> string) list option"
  db_accounts :: "(string \<times> string) list option"
  db_metadata :: "(string \<times> string) list option"
  db_banned :: "(string \<times> string \<times> int) list option"
  db_known :: "(string \<times> string \<times> int) list option"

text \<open>What \<open>data.db\<close> holds: a database, or something that SQLite refuses.\<close>

datatype db_file = Not_a_database | Database database

record disk =
  dk_db :: "db_file option"
  dk_legacy :: "string option"

text \<open>The exceptions of the operations below.\<close>

datatype db_error =
    Py_raised exn
  | OverflowError
  | IntegrityError
  | DatabaseError
  | FileNotFoundError
  | Genesis_failed genesis_error
  | Not_modelled

definition empty_database :: database where
  "empty_database = \<lparr>db_blocks = None, db_accounts = None, db_metadata = None, db_banned = None, db_known = None\<rparr>"

definition persistence_exists :: "disk \<Rightarrow> bool" where
  "persistence_exists d = (dk_db d \<noteq> None \<or> dk_legacy d \<noteq> None)"

text \<open>\<open>_connect\<close> creates a file that does not exist; one that is no database fails at the first use.\<close>

definition db_connect :: "disk \<Rightarrow> db_error + database" where
  "db_connect d =
     (case dk_db d of
        None \<Rightarrow> Inr empty_database
      | Some (Database db) \<Rightarrow> Inr db
      | Some Not_a_database \<Rightarrow> Inl DatabaseError)"

definition create_table :: "'r list option \<Rightarrow> 'r list option" where
  "create_table t = (case t of None \<Rightarrow> Some [] | Some rows \<Rightarrow> Some rows)"

definition initialize_schema :: "database \<Rightarrow> database" where
  "initialize_schema db = db\<lparr>db_blocks := create_table (db_blocks db),
     db_accounts := create_table (db_accounts db), db_metadata := create_table (db_metadata db)\<rparr>"

text \<open>\<open>INSERT\<close>, which fails on a key that is present, and \<open>INSERT OR REPLACE\<close>.\<close>

definition sql_insert :: "'k \<Rightarrow> 'v \<Rightarrow> ('k \<times> 'v) list \<Rightarrow> db_error + ('k \<times> 'v) list" where
  "sql_insert k v rows = (if k \<in> fst ` set rows then Inl IntegrityError else Inr (rows @ [(k, v)]))"

definition sql_replace :: "'k \<Rightarrow> 'v \<Rightarrow> ('k \<times> 'v) list \<Rightarrow> ('k \<times> 'v) list" where
  "sql_replace k v rows = filter (\<lambda>r. fst r \<noteq> k) rows @ [(k, v)]"

definition sql_delete :: "'k \<Rightarrow> ('k \<times> 'v) list \<Rightarrow> ('k \<times> 'v) list" where
  "sql_delete k rows = filter (\<lambda>r. fst r \<noteq> k) rows"

subsection \<open>Saving\<close>

definition sql_integer :: "int \<Rightarrow> bool" where
  "sql_integer i \<longleftrightarrow> - (2 ^ 63) \<le> i \<and> i < 2 ^ 63"

definition insert_block :: "block \<Rightarrow> (int \<times> string) list \<Rightarrow> db_error + (int \<times> string) list" where
  "insert_block b rows =
     (case json_dumps_sorted (JObj (block_to_dict b)) of
        None \<Rightarrow> Inl (Py_raised TypeError)
      | Some s \<Rightarrow> if \<not> sql_integer (bl_index b) then Inl OverflowError else sql_insert (bl_index b) s rows)"

definition insert_account :: "string \<times> account \<Rightarrow> (string \<times> string) list \<Rightarrow> db_error + (string \<times> string) list" where
  "insert_account p rows =
     (case json_dumps_sorted (account_json (snd p)) of
        None \<Rightarrow> Inl (Py_raised TypeError)
      | Some s \<Rightarrow> sql_insert (fst p) s rows)"

fun insert_all :: "('x \<Rightarrow> 'r list \<Rightarrow> db_error + 'r list) \<Rightarrow> 'x list \<Rightarrow> 'r list \<Rightarrow> db_error + 'r list" where
  "insert_all f [] rows = Inr rows"
| "insert_all f (x # xs) rows = (case f x rows of Inl e \<Rightarrow> Inl e | Inr rows' \<Rightarrow> insert_all f xs rows')"

definition save_snapshot :: "block list \<Rightarrow> account dict \<Rightarrow> database \<Rightarrow> database \<times> (db_error + unit)" where
  "save_snapshot blocks accs db0 =
     (let db = initialize_schema db0 in
      case insert_all insert_block blocks [] of
        Inl e \<Rightarrow> (db, Inl e)
      | Inr brows \<Rightarrow>
          (case insert_all insert_account (sort_key fst accs) [] of
             Inl e \<Rightarrow> (db, Inl e)
           | Inr arows \<Rightarrow>
               (db\<lparr>db_blocks := Some brows, db_accounts := Some arows,
                   db_metadata := Some [(''chain_length'', py_str_int (int (length blocks)))]\<rparr>, Inr ())))"

definition save :: "blockchain \<Rightarrow> disk \<Rightarrow> disk \<times> (db_error + unit)" where
  "save bc d =
     (case db_connect d of
        Inl e \<Rightarrow> (d, Inl e)
      | Inr db0 \<Rightarrow>
          (case save_snapshot (bc_chain bc) (acc_items (st_accounts (bc_state bc))) db0 of
             (db, r) \<Rightarrow> (d\<lparr>dk_db := Some (Database db)\<rparr>, r)))"

subsection \<open>Reading the tables\<close>

fun loads_all :: "string list \<Rightarrow> json list decoded" where
  "loads_all [] = Inr []"
| "loads_all (s # ss) = decode_bind (json_loads s) (\<lambda>j. decode_bind (loads_all ss) (\<lambda>js. Inr (j # js)))"

text \<open>\<open>_load_snapshot_from_sqlite\<close>: the values of \<open>chain\<close> and \<open>state\<close>; its only exception is
  \<open>ValueError\<close>.\<close>

definition load_snapshot :: "db_file \<Rightarrow> (json list \<times> json dict) decoded" where
  "load_snapshot f =
     (case f of
        Not_a_database \<Rightarrow> json_error
      | Database db \<Rightarrow>
          (case (db_blocks db, db_accounts db, db_metadata db) of
             (Some brows, Some arows, Some meta) \<Rightarrow>
               (case map_of meta ''chain_length'' of
                  None \<Rightarrow> json_error
                | Some v \<Rightarrow>
                    if py_int_of_str 10 v \<noteq> Some (int (length brows)) then json_error
                    else let as = sort_key fst arows in
                      decode_bind (loads_all (map snd (sort_key fst brows))) (\<lambda>chain.
                      decode_bind (loads_all (map snd as)) (\<lambda>vs. Inr (chain, zip (map fst as) vs))))
           | _ \<Rightarrow> json_error))"

text \<open>The legacy file: \<open>snapshot\<close> must be an object with a list \<open>chain\<close> and an object \<open>state\<close>;
  an empty or missing chain is refused for both sources.\<close>

definition snapshot_parts :: "json \<Rightarrow> (json list \<times> json dict) decoded" where
  "snapshot_parts j =
     (case j of
        JObj d \<Rightarrow>
          (case (dict_get d ''chain'', dict_get d ''state'') of
             (Some (JArr (x # xs)), Some (JObj a)) \<Rightarrow> Inr (x # xs, a)
           | _ \<Rightarrow> json_error)
      | _ \<Rightarrow> json_error)"

definition read_legacy :: "string \<Rightarrow> (json list \<times> json dict) decoded" where
  "read_legacy s = decode_bind (json_loads s) snapshot_parts"

definition read_snapshot :: "disk \<Rightarrow> db_error + json list \<times> json dict" where
  "read_snapshot d =
     (case (case (dk_db d, dk_legacy d) of
              (Some f, l) \<Rightarrow>
                (case load_snapshot f of
                   Inl (Raised ValueError) \<Rightarrow>
                     (case l of None \<Rightarrow> Some json_error | Some s \<Rightarrow> Some (read_legacy s))
                 | Inl e \<Rightarrow> Some (Inl e)
                 | Inr (chain, accs) \<Rightarrow> Some (snapshot_parts (JObj [(''chain'', JArr chain), (''state'', JObj accs)])))
            | (None, Some s) \<Rightarrow> Some (read_legacy s)
            | (None, None) \<Rightarrow> None) of
        None \<Rightarrow> Inl FileNotFoundError
      | Some (Inl (Raised e)) \<Rightarrow> Inl (Py_raised e)
      | Some (Inl Unmodelled) \<Rightarrow> Inl Not_modelled
      | Some (Inr x) \<Rightarrow> Inr x)"

subsection \<open>Loading\<close>

text \<open>The \<open>try\<close> around \<open>Block.from_dict\<close>.\<close>

fun load_blocks :: "'a crypto_scheme \<Rightarrow> int \<Rightarrow> json list \<Rightarrow> db_error + block list" where
  "load_blocks cr now [] = Inr []"
| "load_blocks cr now (JObj p # js) =
     (case block_from_dict cr now p of
        Inr b \<Rightarrow> (case load_blocks cr now js of Inl e \<Rightarrow> Inl e | Inr bs \<Rightarrow> Inr (b # bs))
      | Inl Unmodelled \<Rightarrow> Inl Not_modelled
      | Inl (Raised e) \<Rightarrow>
          if e \<in> {KeyError, TypeError, ValueError} then Inl (Py_raised ValueError) else Inl (Py_raised e))"
| "load_blocks cr now (_ # js) = Inl (Py_raised ValueError)"

text \<open>Account dictionaries are taken as they are; the model reads those of the documented form.\<close>

definition account_of_dict :: "json dict \<Rightarrow> account option" where
  "account_of_dict d =
     (case (dict_get d ''balance'', dict_get d ''nonce'', dict_get d ''code'', dict_get d ''storage'') of
        (Some (JInt b), Some (JInt n), Some c, Some s) \<Rightarrow>
          (if length d \<noteq> 4 then None
           else case c of
                  JNull \<Rightarrow> Some \<lparr>acc_balance = b, acc_nonce = n, acc_code = None, acc_storage = s\<rparr>
                | JStr t \<Rightarrow> Some \<lparr>acc_balance = b, acc_nonce = n, acc_code = Some t, acc_storage = s\<rparr>
                | _ \<Rightarrow> None)
      | _ \<Rightarrow> None)"

fun load_accounts :: "json dict \<Rightarrow> db_error + account dict" where
  "load_accounts [] = Inr []"
| "load_accounts ((k, JObj d) # ps) =
     (case account_of_dict d of
        None \<Rightarrow> Inl Not_modelled
      | Some a \<Rightarrow> (case load_accounts ps of Inl e \<Rightarrow> Inl e | Inr as \<Rightarrow> Inr ((k, a) # as)))"
| "load_accounts (_ # ps) = Inl (Py_raised ValueError)"

fun links_ok :: "'a crypto_scheme \<Rightarrow> int \<Rightarrow> block list \<Rightarrow> bool" where
  "links_ok cr now (p # b # bs) = (validate_block_link_and_hash cr now p b = None \<and> links_ok cr now (b # bs))"
| "links_ok cr now _ = True"

text \<open>\<open>True\<close>: no \<open>ValueError\<close>.\<close>

definition verify_chain_integrity :: "'a crypto_scheme \<Rightarrow> int \<Rightarrow> block list \<Rightarrow> bool" where
  "verify_chain_integrity cr now blocks =
     (bl_index (hd blocks) = 0 \<and> bl_hash (hd blocks) = Some (calculate_hash cr (to_header_dict (hd blocks)))
      \<and> links_ok cr now blocks)"

text \<open>\<open>g\<close> is the configuration that \<open>Blockchain()\<close> reads from \<open>genesis.json\<close>.\<close>

definition load :: "'a crypto_scheme \<Rightarrow> int \<Rightarrow> genesis_config \<Rightarrow> disk \<Rightarrow> db_error + blockchain" where
  "load cr now g d =
     (case read_snapshot d of
        Inl e \<Rightarrow> Inl e
      | Inr (raw_blocks, raw_accounts) \<Rightarrow>
          (case load_blocks cr now raw_blocks of
             Inl e \<Rightarrow> Inl e
           | Inr blocks \<Rightarrow>
               (case load_accounts raw_accounts of
                  Inl e \<Rightarrow> Inl e
                | Inr accs \<Rightarrow>
                    if \<not> verify_chain_integrity cr now blocks then Inl (Py_raised ValueError)
                    else (case create_genesis cr now g of
                            Inl e \<Rightarrow> Inl (Genesis_failed e)
                          | Inr bc \<Rightarrow>
                              Inr (bc\<lparr>bc_chain := blocks, bc_state := (bc_state bc)\<lparr>st_accounts := Plain accs\<rparr>\<rparr>)))))"

subsection \<open>Peers\<close>

text \<open>Operations on \<open>data.db\<close> through \<open>_banned_peers_conn\<close> and \<open>_known_peers_conn\<close>: the table is
  made if it is missing; a read does nothing when there is no file.\<close>

definition with_db :: "(database \<Rightarrow> database) \<Rightarrow> disk \<Rightarrow> disk \<times> (db_error + unit)" where
  "with_db f d =
     (case db_connect d of
        Inl e \<Rightarrow> (d, Inl e)
      | Inr db \<Rightarrow> (d\<lparr>dk_db := Some (Database (f db))\<rparr>, Inr ()))"

definition rows_of :: "'r list option \<Rightarrow> 'r list" where
  "rows_of t = (case t of None \<Rightarrow> [] | Some rows \<Rightarrow> rows)"

definition ban_peer :: "string \<Rightarrow> string \<Rightarrow> int \<Rightarrow> disk \<Rightarrow> disk \<times> (db_error + unit)" where
  "ban_peer pid reason now =
     with_db (\<lambda>db. db\<lparr>db_banned := Some (sql_replace pid (reason, now) (rows_of (db_banned db)))\<rparr>)"

definition unban_peer :: "string \<Rightarrow> disk \<Rightarrow> disk \<times> (db_error + unit)" where
  "unban_peer pid d =
     (if dk_db d = None then (d, Inr ())
      else with_db (\<lambda>db. db\<lparr>db_banned := Some (sql_delete pid (rows_of (db_banned db)))\<rparr>) d)"

text \<open>The rows a read of a peer table sees.\<close>

definition peer_rows :: "(database \<Rightarrow> 'r list option) \<Rightarrow> disk \<Rightarrow> db_error + 'r list" where
  "peer_rows tb d =
     (if dk_db d = None then Inr []
      else (case db_connect d of Inl e \<Rightarrow> Inl e | Inr db \<Rightarrow> Inr (rows_of (tb db))))"

definition is_peer_banned :: "string \<Rightarrow> disk \<Rightarrow> db_error + bool" where
  "is_peer_banned pid d = map_sum id (\<lambda>rows. pid \<in> fst ` set rows) (peer_rows db_banned d)"

text \<open>\<open>ORDER BY ... DESC\<close>: rows with equal times come in an order SQLite does not promise; the
  model keeps that of the table.\<close>

definition newest_first :: "(string \<times> string \<times> int) list \<Rightarrow> (string \<times> string \<times> int) list" where
  "newest_first rows = sort_key (\<lambda>r. - snd (snd r)) rows"

definition get_banned_peers :: "disk \<Rightarrow> db_error + (string \<times> string \<times> int) list" where
  "get_banned_peers d = map_sum id newest_first (peer_rows db_banned d)"

definition remember_peer :: "string \<Rightarrow> string \<Rightarrow> int \<Rightarrow> disk \<Rightarrow> disk \<times> (db_error + unit)" where
  "remember_peer pid addr now =
     with_db (\<lambda>db. db\<lparr>db_known := Some (sql_replace pid (addr, now) (rows_of (db_known db)))\<rparr>)"

definition get_known_peers :: "nat \<Rightarrow> disk \<Rightarrow> db_error + (string \<times> string \<times> int) list" where
  "get_known_peers limit d = map_sum id (\<lambda>rows. take limit (newest_first rows)) (peer_rows db_known d)"

end
