(* ===== verification/StoreLaws.thy ===== *)
theory StoreLaws
  imports Store BlockGuarantees ChainInv
begin

section \<open>What is saved and what is read back\<close>

subsection \<open>Dictionaries with sorted keys\<close>

definition norm_dict :: "json dict \<Rightarrow> json dict" where
  "norm_dict d = sort_key fst (map (\<lambda>(k, v). (k, norm v)) d)"

lemma norm_JObj: "norm (JObj d) = JObj (norm_dict d)"
  by (simp add: norm_dict_def)

lemma norm_dict_get: "dict_ok d \<Longrightarrow> dict_get (norm_dict d) k = map_option norm (dict_get d k)"
  unfolding norm_dict_def by (rule norm_get)

lemma norm_dict_scalars:
  assumes "dict_ok d" "list_all (\<lambda>(k, v). norm v = v) d"
  shows "dict_get (norm_dict d) = dict_get d"
proof
  fix k show "dict_get (norm_dict d) k = dict_get d k"
    using assms norm_dict_get [OF assms(1), of k]
    by (cases "dict_get d k") (auto simp: list_all_iff dest: map_of_SomeD)
qed

lemma norm_dict_length [simp]: "length (norm_dict d) = length d"
  by (simp add: norm_dict_def)

lemma norm_of_str_option [simp]: "norm (of_str_option s) = of_str_option s"
  by (cases s) (simp_all add: of_str_option_def)

lemma norm_idem [simp]: "norm (norm j) = norm j"
proof (induction j rule: norm.induct)
  case (2 kvs)
  let ?n = "\<lambda>(k, v). (k :: string, norm v)"
  have s: "sort_key fst (map ?n xs) = map ?n (sort_key fst xs)" for xs
    by (rule sort_key_map) (simp add: split_beta)
  have "map ?n (sort_key fst (map ?n kvs)) = sort_key fst (map ?n (map ?n kvs))" by (simp only: s)
  also have "map ?n (map ?n kvs) = map ?n kvs" using 2 by (auto simp: o_def split_beta)
  finally have "map ?n (sort_key fst (map ?n kvs)) = sort_key fst (map ?n kvs)" .
  then show ?case by (simp add: sort_key_id_if_sorted [OF sorted_sort_key])
qed simp_all

subsection \<open>Blocks\<close>

lemma from_dict_sorted_tx: "tx_from_dict now (norm_dict (tx_to_dict t)) = tx_from_dict now (tx_to_dict t)"
proof -
  have "dict_get (norm_dict (tx_to_dict t)) = dict_get (tx_to_dict t)"
    by (rule norm_dict_scalars) (simp_all add: tx_to_dict_def tx_to_signing_dict_def)
  then show ?thesis by (simp add: tx_from_dict_def)
qed

text \<open>A receipt as the state machine makes it has no logs; any logs with sorted keys will do.\<close>

definition plain_receipt :: "receipt \<Rightarrow> bool" where
  "plain_receipt r \<longleftrightarrow> map norm (rc_logs r) = rc_logs r"

lemma from_dict_sorted_receipt:
  assumes "plain_receipt r"
  shows "receipt_from_dict (norm_dict (receipt_to_dict r)) = receipt_from_dict (receipt_to_dict r)"
proof -
  have "dict_get (norm_dict (receipt_to_dict r)) = dict_get (receipt_to_dict r)"
    using assms by (intro norm_dict_scalars) (simp_all add: receipt_to_dict_def plain_receipt_def)
  then show ?thesis by (simp add: receipt_from_dict_def get_or_def)
qed

lemma dec_objects_cong:
  "\<forall>x \<in> set xs. f (g x) = f (h x) \<Longrightarrow>
     dec_objects f (map (\<lambda>x. JObj (g x)) xs) = dec_objects f (map (\<lambda>x. JObj (h x)) xs)"
  by (induction xs) simp_all

lemma dict_ok_block: "dict_ok (block_to_dict b)"
  unfolding block_to_dict_def by (intro dict_ok_set dict_ok_update) (simp add: dict_ok_header)

lemma block_sorted_get:
  assumes "k \<noteq> ''transactions''" "k \<noteq> ''receipts''"
  shows "dict_get (norm_dict (block_to_dict b)) k = dict_get (block_to_dict b) k"
proof -
  have "map_option norm (dict_get (to_header_dict b) k) = dict_get (to_header_dict b) k"
    by (auto simp: to_header_dict_def split: option.splits)
  with assms show ?thesis
    by (simp add: norm_dict_get [OF dict_ok_block] block_to_dict_get)
qed

lemma block_from_sorted:
  assumes "list_all plain_receipt (bl_receipts b)"
  shows "block_from_dict cr now (norm_dict (block_to_dict b)) = block_from_dict cr now (block_to_dict b)"
proof -
  let ?p = "block_to_dict b" and ?q = "norm_dict (block_to_dict b)"
  have t: "dec_object_list (tx_from_dict now) (dict_get ?q ''transactions'')
      = dec_object_list (tx_from_dict now) (dict_get ?p ''transactions'')"
    using dec_objects_cong [of "bl_transactions b" "tx_from_dict now" "\<lambda>t. norm_dict (tx_to_dict t)" tx_to_dict]
    by (simp add: norm_dict_get [OF dict_ok_block] block_to_dict_get dec_object_list_def o_def norm_JObj
        from_dict_sorted_tx del: norm.simps(2))
  have r: "dec_object_list receipt_from_dict (dict_get ?q ''receipts'')
      = dec_object_list receipt_from_dict (dict_get ?p ''receipts'')"
    using assms dec_objects_cong [of "bl_receipts b" receipt_from_dict "\<lambda>r. norm_dict (receipt_to_dict r)" receipt_to_dict]
    by (simp add: norm_dict_get [OF dict_ok_block] block_to_dict_get dec_object_list_def o_def norm_JObj
        from_dict_sorted_receipt list_all_iff del: norm.simps(2))
  have c: "check_block cr ?q = check_block cr ?p"
    by (simp add: check_block_def fun_eq_iff block_sorted_get)
  show ?thesis
    unfolding block_from_dict_def t r get_or_def by (simp add: block_sorted_get c)
qed

definition reread_block :: "block \<Rightarrow> block" where
  "reread_block b = b\<lparr>bl_transactions := map reread (bl_transactions b)\<rparr>"

lemma block_read_sorted:
  "block_ready cr b \<Longrightarrow> list_all plain_receipt (bl_receipts b) \<Longrightarrow>
     block_from_dict cr now (norm_dict (block_to_dict b)) = Inr (reread_block b)"
  by (simp add: block_from_sorted block_reread reread_block_def)

lemma reread_block_header [simp]:
  "bl_index (reread_block b) = bl_index b" "bl_hash (reread_block b) = bl_hash b"
  "bl_target (reread_block b) = bl_target b" "bl_timestamp (reread_block b) = bl_timestamp b"
  "bl_previous_hash (reread_block b) = bl_previous_hash b"
  "to_header_dict (reread_block b) = to_header_dict b"
  "compute_hash cr (reread_block b) = compute_hash cr b"
  by (simp_all add: reread_block_def compute_hash_body) (simp add: to_header_dict_def)

lemma links_ok_iff:
  "links_ok cr now bs \<longleftrightarrow> successively (linked cr) bs
     \<and> list_all (\<lambda>b. bl_timestamp b \<le> now + MAX_FUTURE_BLOCK_TIME_MS) (tl bs)"
  by (induction bs rule: induct_list012) (auto simp: validate_link)

lemma successively_map_eq: "(\<And>x y. P (f x) (f y) = P x y) \<Longrightarrow> successively P (map f xs) = successively P xs"
  by (induction xs rule: induct_list012) simp_all

lemma linked_reread: "linked cr (reread_block a) (reread_block b) = linked cr a b"
  by (simp add: linked_def cong: option.case_cong)

subsection \<open>Accounts\<close>

definition norm_account :: "account \<Rightarrow> account" where
  "norm_account a = a\<lparr>acc_storage := norm (acc_storage a)\<rparr>"

lemma account_read_sorted:
  "norm (account_json a) = JObj (norm_dict d) \<Longrightarrow> account_json a = JObj d \<Longrightarrow>
     account_of_dict (norm_dict d) = Some (norm_account a)"
proof -
  assume "account_json a = JObj d"
  then have d: "d = [(''balance'', JInt (acc_balance a)), (''nonce'', JInt (acc_nonce a)),
      (''code'', of_str_option (acc_code a)), (''storage'', acc_storage a)]"
    by (simp add: account_json_def)
  then have "dict_ok d" by simp
  from norm_dict_get [OF this] show ?thesis
    by (cases "acc_code a") (simp_all add: account_of_dict_def d norm_account_def of_str_option_def)
qed

lemma norm_account_json: "norm (account_json (norm_account a)) = norm (account_json a)"
  by (simp add: account_json_def norm_account_def)

lemma norm_account_simps [simp]:
  "acc_balance (norm_account a) = acc_balance a" "acc_nonce (norm_account a) = acc_nonce a"
  "acc_code (norm_account a) = acc_code a" "acc_storage (norm_account a) = norm (acc_storage a)"
  by (simp_all add: norm_account_def)

lemma dumps_sorted_norm: "json_dumps_sorted j = (if serializable j then Some (text_of (default_style\<lparr>sort_keys := True\<rparr>) (norm j)) else None)"
  by (simp add: json_dumps_sorted_def dumps_written written_sorted)

lemma norm_account_text: "json_dumps_sorted (account_json (norm_account a)) = json_dumps_sorted (account_json a)"
proof -
  have "serializable (account_json (norm_account a)) = serializable (account_json a)"
    using norm_account_json [of a] norm_serializable by metis
  then show ?thesis by (simp add: dumps_sorted_norm norm_account_json)
qed

lemma json_truthy_norm [simp]: "json_truthy (norm j) = json_truthy j"
proof (cases j)
  case (JObj d)
  have "norm_dict d = [] \<longleftrightarrow> d = []" using norm_dict_length [of d] by (metis length_0_conv)
  then show ?thesis using JObj by (simp add: norm_JObj del: norm.simps(2))
qed simp_all

lemma norm_account_blank: "blank_account (norm_account a) = blank_account a"
  by (simp add: blank_account_def has_code_def)

subsection \<open>Texts\<close>

lemma utf8_ascii: "list_all (\<lambda>c. of_char c < (128::nat)) s \<Longrightarrow> utf8_text s"
  by (induction s) (auto simp: utf8_text_def Let_def code_point_def utf8_encode_ascii)

subsection \<open>Rows\<close>

lemma insert_all_ok:
  assumes "\<And>x rows. x \<in> set xs \<Longrightarrow> key x \<notin> fst ` set rows \<Longrightarrow> f x rows = Inr (rows @ [(key x, val x)])"
    and "distinct (map key xs)" "key ` set xs \<inter> fst ` set rows = {}"
  shows "insert_all f xs rows = Inr (rows @ map (\<lambda>x. (key x, val x)) xs)"
  using assms
proof (induction xs arbitrary: rows)
  case (Cons x xs)
  have "f x rows = Inr (rows @ [(key x, val x)])" using Cons.prems by (intro Cons.prems(1)) auto
  moreover have "insert_all f xs (rows @ [(key x, val x)])
      = Inr ((rows @ [(key x, val x)]) @ map (\<lambda>x. (key x, val x)) xs)"
    using Cons.prems by (intro Cons.IH) auto
  ultimately show ?case by simp
qed simp

lemma loads_all_ok:
  "\<forall>x \<in> set xs. json_loads (txt x) = Inr (j x) \<Longrightarrow> loads_all (map txt xs) = Inr (map j xs)"
  by (induction xs) simp_all

lemma sort_key_fst_sorted: "sorted (map fst xs) \<Longrightarrow> sort_key fst xs = xs"
  by (simp add: sort_key_id_if_sorted)

definition no_disk :: disk where
  "no_disk = \<lparr>dk_db = None, dk_legacy = None\<rparr>"

subsection \<open>Tables with a primary key\<close>

text \<open>What the two tables of peers promise: a map from the key to the rest of the row.\<close>

locale key_table =
  fixes rows :: "'d \<Rightarrow> (string \<times> 'v) list"
    and put :: "string \<Rightarrow> 'v \<Rightarrow> 'd \<Rightarrow> 'd"
    and del :: "string \<Rightarrow> 'd \<Rightarrow> 'd"
  assumes rows_put: "rows (put k v d) = sql_replace k v (rows d)"
    and rows_del: "rows (del k d) = sql_delete k (rows d)"
begin

definition look :: "'d \<Rightarrow> string \<Rightarrow> 'v option" where
  "look d = map_of (rows d)"

lemma look_del: "look (del k d) = (look d)(k := None)"
proof -
  have "map_of (filter (\<lambda>r. fst r \<noteq> k) rs) = (map_of rs)(k := None)" for rs :: "(string \<times> 'v) list"
    by (induction rs) auto
  then show ?thesis by (simp add: look_def rows_del sql_delete_def)
qed

lemma look_put: "look (put k v d) = (look d)(k \<mapsto> v)"
proof -
  have "map_of (filter (\<lambda>r. fst r \<noteq> k) rs) = (map_of rs)(k := None)" for rs :: "(string \<times> 'v) list"
    by (induction rs) auto
  then show ?thesis by (auto simp: look_def rows_put sql_replace_def map_add_def fun_eq_iff split: option.split)
qed

lemma keys_put: "distinct (map fst (rows d)) \<Longrightarrow> distinct (map fst (rows (put k v d)))"
  by (auto simp: rows_put sql_replace_def distinct_map_filter)

lemma present: "k \<in> fst ` set (rows d) \<longleftrightarrow> look d k \<noteq> None"
  by (simp add: look_def map_of_eq_None_iff)

end

definition banned_rows :: "database \<Rightarrow> (string \<times> string \<times> int) list" where
  "banned_rows db = rows_of (db_banned db)"

definition known_rows :: "database \<Rightarrow> (string \<times> string \<times> int) list" where
  "known_rows db = rows_of (db_known db)"

interpretation banned: key_table banned_rows
    "\<lambda>k v db. db\<lparr>db_banned := Some (sql_replace k v (rows_of (db_banned db)))\<rparr>"
    "\<lambda>k db. db\<lparr>db_banned := Some (sql_delete k (rows_of (db_banned db)))\<rparr>"
  by unfold_locales (simp_all add: banned_rows_def rows_of_def)

interpretation known: key_table known_rows
    "\<lambda>k v db. db\<lparr>db_known := Some (sql_replace k v (rows_of (db_known db)))\<rparr>"
    "\<lambda>k db. db\<lparr>db_known := Some (sql_delete k (rows_of (db_known db)))\<rparr>"
  by unfold_locales (simp_all add: known_rows_def rows_of_def)

text \<open>The database behind a disk on which \<open>data.db\<close> is one, or does not exist yet.\<close>

definition disk_ok :: "disk \<Rightarrow> bool" where
  "disk_ok d \<longleftrightarrow> dk_db d \<noteq> Some Not_a_database"

definition disk_db :: "disk \<Rightarrow> database" where
  "disk_db d = (case dk_db d of Some (Database db) \<Rightarrow> db | _ \<Rightarrow> empty_database)"

lemma disk_connect: "disk_ok d \<Longrightarrow> db_connect d = Inr (disk_db d)"
  by (auto simp: disk_ok_def disk_db_def db_connect_def split: option.splits db_file.splits)

lemma with_db_ok: "disk_ok d \<Longrightarrow> with_db f d = (d\<lparr>dk_db := Some (Database (f (disk_db d)))\<rparr>, Inr ())"
  by (simp add: with_db_def disk_connect)

lemma disk_written [simp]:
  "disk_ok (d\<lparr>dk_db := Some (Database db)\<rparr>)" "disk_db (d\<lparr>dk_db := Some (Database db)\<rparr>) = db"
  by (simp_all add: disk_ok_def disk_db_def)

lemma peer_rows_ok: "disk_ok d \<Longrightarrow> peer_rows tb d = Inr (if dk_db d = None then [] else rows_of (tb (disk_db d)))"
  by (simp add: peer_rows_def disk_connect)

lemma no_file_rows: "dk_db d = None \<Longrightarrow> banned_rows (disk_db d) = [] \<and> known_rows (disk_db d) = []"
  by (simp add: disk_db_def banned_rows_def known_rows_def empty_database_def rows_of_def)

lemma is_banned_look:
  assumes "disk_ok d"
  shows "is_peer_banned p d = Inr (banned.look (disk_db d) p \<noteq> None)"
proof (cases "dk_db d")
  case None
  then have "banned.look (disk_db d) p = None" by (simp add: banned.look_def no_file_rows)
  with None assms show ?thesis by (simp add: is_peer_banned_def peer_rows_ok)
next
  case (Some f)
  then have "is_peer_banned p d = Inr (p \<in> fst ` set (banned_rows (disk_db d)))"
    using assms by (simp add: is_peer_banned_def peer_rows_ok banned_rows_def)
  then show ?thesis by (simp only: banned.present)
qed

end
