(* ===== verification/StoreLoad.thy ===== *)
theory StoreLoad
  imports StoreLaws ChainInv
begin

section \<open>What is saved is loaded\<close>

text \<open>The chain and the accounts that \<open>save\<close> writes, as \<open>load\<close> reads them again; and the
  loaded chain keeps the invariant.\<close>

text \<open>A chain that can be stored: blocks as the node makes them, with texts in UTF-8.\<close>

definition storable :: "'a crypto_scheme \<Rightarrow> int \<Rightarrow> blockchain \<Rightarrow> bool" where
  "storable cr now bc \<longleftrightarrow>
     list_all (\<lambda>b. block_ready cr b \<and> list_all plain_receipt (bl_receipts b)
        \<and> json_ok default_style (JObj (block_to_dict b))
        \<and> bl_timestamp b \<le> now + MAX_FUTURE_BLOCK_TIME_MS) (bc_chain bc)
     \<and> bl_hash (hd (bc_chain bc)) = Some (compute_hash cr (hd (bc_chain bc)))
     \<and> int (length (bc_chain bc)) \<le> 2 ^ 63
     \<and> list_all (\<lambda>(k, a). json_ok default_style (account_json a)) (acc_items (st_accounts (bc_state bc)))"

lemma chain_indices:
  assumes "chain_ok cr bc"
  shows "map bl_index (bc_chain bc) = map int [0..<length (bc_chain bc)]"
proof (rule nth_equalityI)
  fix i assume "i < length (map bl_index (bc_chain bc))"
  then show "map bl_index (bc_chain bc) ! i = map int [0..<length (bc_chain bc)] ! i"
    using assms linked_positions [of cr "bc_chain bc" i] by (simp add: chain_ok_def)
qed simp

lemma insert_blocks:
  assumes ok: "chain_ok cr bc" and st: "storable cr now bc"
  obtains enc where "insert_all insert_block (bc_chain bc) [] = Inr (map (\<lambda>b. (bl_index b, enc b)) (bc_chain bc))"
    "\<forall>b \<in> set (bc_chain bc). json_loads (enc b) = Inr (JObj (norm_dict (block_to_dict b)))"
proof
  let ?enc = "\<lambda>b. the (json_dumps_sorted (JObj (block_to_dict b)))"
  have j: "json_ok default_style (JObj (block_to_dict b))" if "b \<in> set (bc_chain bc)" for b
    using st that by (simp add: storable_def list_all_iff)
  then have s: "json_dumps_sorted (JObj (block_to_dict b)) \<noteq> None" if "b \<in> set (bc_chain bc)" for b
    using that serializable_ok by (fastforce simp: json_dumps_sorted_def)
  have r: "sql_integer (bl_index b)" if b: "b \<in> set (bc_chain bc)" for b
  proof -
    have "bl_index b \<in> set (map int [0..<length (bc_chain bc)])"
      using b unfolding chain_indices [OF ok, symmetric] by simp
    then show ?thesis using st by (auto simp: storable_def sql_integer_def)
  qed
  have d: "distinct (map bl_index (bc_chain bc))"
    by (simp add: chain_indices [OF ok] distinct_map inj_on_def)
  have "insert_all insert_block (bc_chain bc) [] = Inr ([] @ map (\<lambda>b. (bl_index b, ?enc b)) (bc_chain bc))"
    by (rule insert_all_ok) (use s r d in \<open>auto simp: insert_block_def sql_insert_def split: option.splits\<close>)
  then show "insert_all insert_block (bc_chain bc) [] = Inr (map (\<lambda>b. (bl_index b, ?enc b)) (bc_chain bc))"
    by simp
  show "\<forall>b \<in> set (bc_chain bc). json_loads (?enc b) = Inr (JObj (norm_dict (block_to_dict b)))"
    using j s json_dumps_sorted_loads norm_JObj by fastforce
qed

lemma insert_accounts:
  assumes "dict_ok accs" "list_all (\<lambda>(k, a). json_ok default_style (account_json a)) accs"
  obtains enc where "insert_all insert_account (sort_key fst accs) [] = Inr (map (\<lambda>p. (fst p, enc p)) (sort_key fst accs))"
    "\<forall>p \<in> set accs. json_loads (enc p) = Inr (norm (account_json (snd p)))"
proof
  let ?enc = "\<lambda>p. the (json_dumps_sorted (account_json (snd p)))"
  have j: "json_ok default_style (account_json (snd p))" if "p \<in> set accs" for p
    using assms(2) that by (auto simp: list_all_iff)
  then have s: "json_dumps_sorted (account_json (snd p)) \<noteq> None" if "p \<in> set accs" for p
    using that serializable_ok by (fastforce simp: json_dumps_sorted_def)
  have "insert_all insert_account (sort_key fst accs) [] = Inr ([] @ map (\<lambda>p. (fst p, ?enc p)) (sort_key fst accs))"
  proof (rule insert_all_ok)
    fix p and rows :: "(string \<times> string) list"
    assume "p \<in> set (sort_key fst accs)" "fst p \<notin> fst ` set rows"
    with s [of p] show "insert_account p rows = Inr (rows @ [(fst p, ?enc p)])"
      by (cases "json_dumps_sorted (account_json (snd p))") (simp_all add: insert_account_def sql_insert_def)
  qed (use dict_ok_sort [OF assms(1)] in simp_all)
  then show "insert_all insert_account (sort_key fst accs) [] = Inr (map (\<lambda>p. (fst p, ?enc p)) (sort_key fst accs))"
    by simp
  show "\<forall>p \<in> set accs. json_loads (?enc p) = Inr (norm (account_json (snd p)))"
  proof
    fix p assume "p \<in> set accs"
    from json_dumps_sorted_loads [OF j [OF this]] s [OF this]
    show "json_loads (?enc p) = Inr (norm (account_json (snd p)))" by auto
  qed
qed

lemma load_blocks_ok:
  "\<forall>b \<in> set bs. block_ready cr b \<and> list_all plain_receipt (bl_receipts b) \<Longrightarrow>
     load_blocks cr now (map (\<lambda>b. JObj (norm_dict (block_to_dict b))) bs) = Inr (map reread_block bs)"
  by (induction bs) (simp_all add: block_read_sorted)

lemma load_accounts_ok:
  "load_accounts (map (\<lambda>p. (fst p, norm (account_json (snd p)))) ps) = Inr (map (\<lambda>p. (fst p, norm_account (snd p))) ps)"
proof (induction ps)
  case (Cons p ps)
  obtain d where d: "account_json (snd p) = JObj d" by (simp add: account_json_def)
  then have n: "norm (account_json (snd p)) = JObj (norm_dict d)" by (simp add: norm_JObj del: norm.simps)
  from account_read_sorted [OF n d] Cons show ?case by (simp add: n)
qed simp

lemma trie_puts_norm:
  "trie_puts (map (\<lambda>p. (fst p, norm_account (snd p))) ps) = trie_puts ps"
proof (induction ps)
  case (Cons p ps)
  then show ?case
    by (cases p) (simp add: norm_account_blank norm_account_text cong: option.case_cong)
qed simp

lemma load_snapshot_tables:
  assumes "db_blocks db = Some brows" "db_accounts db = Some arows" "db_metadata db = Some [(''chain_length'', v)]"
    and "py_int_of_str 10 v = Some (int (length brows))"
    and "sort_key fst brows = brows" "sort_key fst arows = arows"
    and "loads_all (map snd brows) = Inr chain" "loads_all (map snd arows) = Inr vs"
  shows "load_snapshot (Database db) = Inr (chain, zip (map fst arows) vs)"
  using assms by (simp add: load_snapshot_def)

lemma load_after_save:
  assumes ok: "chain_ok cr bc" and st: "storable cr now bc" and g: "create_genesis cr now g = Inr bc0"
    and db: "dk_db d \<noteq> Some Not_a_database"
  defines "accs \<equiv> acc_items (st_accounts (bc_state bc))"
  shows "\<exists>d'. save bc d = (d', Inr ()) \<and> load cr now g d' =
     Inr (bc0\<lparr>bc_chain := map reread_block (bc_chain bc),
       bc_state := (bc_state bc0)\<lparr>st_accounts := Plain (map (\<lambda>p. (fst p, norm_account (snd p))) (sort_key fst accs))\<rparr>\<rparr>)"
proof -
  let ?chain = "bc_chain bc" and ?srt = "sort_key fst accs"
  have ne: "?chain \<noteq> []" and idx: "bl_index (hd ?chain) = 0" and lk: "successively (linked cr) ?chain"
    using ok by (auto simp: chain_ok_def)
  have acc: "dict_ok accs" "list_all (\<lambda>(k, a). json_ok default_style (account_json a)) accs"
    using ok st acc_items_view [of "st_accounts (bc_state bc)"]
    by (auto simp: chain_ok_def plain_ok_def storable_def accs_def)
  obtain btxt where b: "insert_all insert_block ?chain [] = Inr (map (\<lambda>b. (bl_index b, btxt b)) ?chain)"
    "\<forall>b \<in> set ?chain. json_loads (btxt b) = Inr (JObj (norm_dict (block_to_dict b)))"
    by (rule insert_blocks [OF ok st])
  obtain atxt where a: "insert_all insert_account ?srt [] = Inr (map (\<lambda>p. (fst p, atxt p)) ?srt)"
    "\<forall>p \<in> set accs. json_loads (atxt p) = Inr (norm (account_json (snd p)))"
    by (rule insert_accounts [OF acc])
  let ?brows = "map (\<lambda>b. (bl_index b, btxt b)) ?chain" and ?arows = "map (\<lambda>p. (fst p, atxt p)) ?srt"
  obtain db0 where db0: "db_connect d = Inr db0"
  proof (cases "dk_db d")
    case (Some f)
    with db that show ?thesis by (cases f) (simp_all add: db_connect_def)
  qed (simp add: db_connect_def)
  let ?db = "(initialize_schema db0)\<lparr>db_blocks := Some ?brows, db_accounts := Some ?arows,
      db_metadata := Some [(''chain_length'', py_str_int (int (length ?chain)))]\<rparr>"
  let ?d = "d\<lparr>dk_db := Some (Database ?db)\<rparr>"
  have sv: "save bc d = (?d, Inr ())"
    by (simp add: save_def db0 save_snapshot_def Let_def b(1) a(1) accs_def [symmetric])
  have "map fst ?brows = map int [0..<length ?chain]"
    using chain_indices [OF ok] by (simp add: o_def)
  then have "sorted (map fst ?brows)" by (simp only:) (simp add: sorted_iff_nth_mono)
  then have sb: "sort_key fst ?brows = ?brows" by (rule sort_key_fst_sorted)
  have sa: "sort_key fst ?arows = ?arows"
    by (rule sort_key_fst_sorted) (simp add: o_def)
  have lb: "loads_all (map snd ?brows) = Inr (map (\<lambda>b. JObj (norm_dict (block_to_dict b))) ?chain)"
    using loads_all_ok [of ?chain btxt] b(2) by (simp add: o_def)
  have la: "loads_all (map snd ?arows) = Inr (map (\<lambda>p. norm (account_json (snd p))) ?srt)"
    using loads_all_ok [of ?srt atxt] a(2) by (simp add: o_def)
  have z: "zip (map fst ?arows) (map (\<lambda>p. norm (account_json (snd p))) ?srt) = map (\<lambda>p. (fst p, norm (account_json (snd p)))) ?srt"
    by (simp add: zip_map1 zip_map2 zip_same_conv_map o_def)
  have "load_snapshot (Database ?db) = Inr (map (\<lambda>b. JObj (norm_dict (block_to_dict b))) ?chain,
      zip (map fst ?arows) (map (\<lambda>p. norm (account_json (snd p))) ?srt))"
    by (rule load_snapshot_tables [where v = "py_str_int (int (length ?chain))", OF _ _ _ _ sb sa lb la]) (simp_all add: py_int_of_show [OF of_nat_0_le_iff])
  then have "load_snapshot (Database ?db) = Inr (map (\<lambda>b. JObj (norm_dict (block_to_dict b))) ?chain,
      map (\<lambda>p. (fst p, norm (account_json (snd p)))) ?srt)" by (simp only: z)
  then have rs: "read_snapshot ?d = Inr (map (\<lambda>b. JObj (norm_dict (block_to_dict b))) ?chain, map (\<lambda>p. (fst p, norm (account_json (snd p)))) ?srt)"
    using ne by (cases ?chain) (simp_all add: read_snapshot_def snapshot_parts_def)
  have bl: "load_blocks cr now (map (\<lambda>b. JObj (norm_dict (block_to_dict b))) ?chain) = Inr (map reread_block ?chain)"
    using st by (intro load_blocks_ok) (simp add: storable_def list_all_iff)
  have "verify_chain_integrity cr now (map reread_block ?chain)"
    using st ne idx lk by (auto simp: verify_chain_integrity_def hd_map links_ok_iff successively_map_eq
        linked_reread storable_def list_all_iff calculate_hash_def compute_hash_def map_tl [symmetric] dest: list.set_sel(2))
  with rs bl g have "load cr now g ?d = Inr (bc0\<lparr>bc_chain := map reread_block (bc_chain bc),
       bc_state := (bc_state bc0)\<lparr>st_accounts := Plain (map (\<lambda>p. (fst p, norm_account (snd p))) ?srt)\<rparr>\<rparr>)"
    by (simp add: load_def load_accounts_ok)
  with sv show ?thesis by blast
qed

lemma reread_hd: "bs \<noteq> [] \<Longrightarrow> bl_index (hd (map reread_block bs)) = bl_index (hd bs) \<and> bl_target (hd (map reread_block bs)) = bl_target (hd bs)"
  by (cases bs) simp_all

lemma reloaded_ok:
  assumes ok: "chain_ok cr bc" and st: "storable cr now bc" and g: "dict_ok (gc_alloc g)"
    and db: "dk_db d \<noteq> Some Not_a_database" and l: "load cr now g (fst (save bc d)) = Inr bc'"
  shows "chain_ok cr bc'"
proof -
  from l obtain bc0 where g0: "create_genesis cr now g = Inr bc0"
    by (auto simp: load_def split: sum.splits prod.splits if_splits)
  have ok0: "chain_ok cr bc0" using genesis_laws [OF g0 g] by blast
  let ?A = "Plain (map (\<lambda>p. (fst p, norm_account (snd p))) (sort_key fst (acc_items (st_accounts (bc_state bc)))))"
  from load_after_save [OF ok st g0 db] l
  have bc': "bc' = bc0\<lparr>bc_chain := map reread_block (bc_chain bc), bc_state := (bc_state bc0)\<lparr>st_accounts := ?A\<rparr>\<rparr>"
    by auto
  have "dict_ok (acc_items (st_accounts (bc_state bc)))"
    using ok acc_items_view [of "st_accounts (bc_state bc)"] by (auto simp: chain_ok_def plain_ok_def)
  then have "plain_ok ?A" by (simp add: plain_ok_def o_def dict_ok_sort)
  then show ?thesis using ok ok0 reread_hd [of "bc_chain bc"]
    by (simp add: bc' chain_ok_def successively_map_eq linked_reread)
qed

end
