(* ===== verification/StoreGuarantees.thy ===== *)
theory StoreGuarantees
  imports StoreLoad ChainDemo
begin

section \<open>Guarantees of the persistence layer\<close>

subsection \<open>Saving and loading\<close>

text \<open>C34: a chain in the form that nodes make is saved, and loaded again with the same blocks (their
  transactions without seal and identifier cache), the same accounts up to the order of keys in
  the storage of contracts, and the same state root. The conditions: every block has its own roots,
  hash and a target in range, every transaction's time stamp is 0 or at least 10^12 (a block with an
  earlier one is refused when it is read, C32, and the node does not start), texts and storages
  have a JSON form in UTF-8, no block is beyond the clock's tolerance, and the file is a database
  or absent. The current target, the average block time and the snapshots are not stored: they are
  those of genesis again.\<close>

theorem save_load_round_trip:
  assumes "chain_ok cr bc" "create_genesis cr now g = Inr bc0" "dk_db d \<noteq> Some Not_a_database"
    and "\<forall>b \<in> set (bc_chain bc). block_made cr b
      \<and> (\<forall>t \<in> set (bl_transactions b). tx_timestamp t = 0 \<or> 10 ^ 12 \<le> tx_timestamp t)
      \<and> (\<forall>r \<in> set (bl_receipts b). plain_receipt r) \<and> json_ok default_style (JObj (block_to_dict b))
      \<and> bl_timestamp b \<le> now + MAX_FUTURE_BLOCK_TIME_MS"
    and "bl_hash (hd (bc_chain bc)) \<noteq> None" "int (length (bc_chain bc)) \<le> 2 ^ 63"
    and "\<forall>(k, a) \<in> set (acc_items (st_accounts (bc_state bc))). json_ok default_style (account_json a)"
  shows "\<exists>d' bc'. save bc d = (d', Inr ()) \<and> load cr now g d' = Inr bc'
    \<and> bc_chain bc' = map reread_block (bc_chain bc)
    \<and> acc_view (st_accounts (bc_state bc')) = map_option norm_account \<circ> acc_view (st_accounts (bc_state bc))
    \<and> state_root cr (st_accounts (bc_state bc')) = state_root cr (st_accounts (bc_state bc))
    \<and> bc_target bc' = bc_target bc0 \<and> bc_avg_block_time bc' = bc_avg_block_time bc0
    \<and> bc_snapshots bc' = bc_snapshots bc0"
proof -
  let ?A = "st_accounts (bc_state bc)"
  let ?srt = "sort_key fst (acc_items ?A)" and ?n = "\<lambda>p. (fst p, norm_account (snd p))"
  have "hd (bc_chain bc) \<in> set (bc_chain bc)" using assms(1) by (simp add: chain_ok_def)
  then have st: "storable cr now bc"
    using assms(4-7) by (auto simp: storable_def block_ready_iff settled_stamps_def list_all_iff)
      (use assms(4) in \<open>auto simp: block_made_def\<close>)
  have items: "map_of (acc_items ?A) = acc_view ?A" "dict_ok (acc_items ?A)"
    using assms(1) acc_items_view [of ?A] by (auto simp: chain_ok_def plain_ok_def)
  have "map_of ?srt = map_of (acc_items ?A)"
    using items(2) dict_ok_sort [OF items(2)] by (intro map_of_inject_set [THEN iffD2]) simp_all
  moreover have "map_of (map ?n ps) k = map_option norm_account (map_of ps k)"
    for ps :: "account dict" and k
    by (induction ps) auto
  ultimately have view: "acc_view (Plain (map ?n ?srt)) = map_option norm_account \<circ> acc_view ?A"
    using items(1) by (simp add: fun_eq_iff)
  have "sort_key fst (map ?n ?srt) = map ?n ?srt" by (rule sort_key_fst_sorted) (simp add: o_def)
  then have root: "state_root cr (Plain (map ?n ?srt)) = state_root cr ?A"
    by (simp add: state_root_def trie_puts_norm)
  from load_after_save [OF assms(1) st assms(2,3)] obtain d' where "save bc d = (d', Inr ())"
    "load cr now g d' = Inr (bc0\<lparr>bc_chain := map reread_block (bc_chain bc),
       bc_state := (bc_state bc0)\<lparr>st_accounts := Plain (map ?n ?srt)\<rparr>\<rparr>)" by blast
  with view root show ?thesis by simp
qed

lemma hex_1000: "py_hex 1000 = ''0x3e8''"
  by code_simp

lemma flat_storable: "storable flat_ext 2000 (flat_chain 1000)"
  by (simp add: storable_def flat_chain_def flat_block_def new_block_def block_ready_def merkle_root_def
      calculate_receipt_root_def MAX_TARGET_def MAX_FUTURE_BLOCK_TIME_MS_def flat_account_def account_json_def
      of_str_option_def readable_def utf8_ascii block_to_dict_def to_header_dict_def to_body_dict_def
      default_style_def hex_1000)

lemma flat_ready:
  "chain_ok flat_ext (flat_chain 1000)" "storable flat_ext 2000 (flat_chain 1000)"
  "create_genesis flat_ext 2000 (flat_config 1000) = Inr (flat_chain 1000)"
  "dk_db no_disk \<noteq> Some Not_a_database"
proof -
  have "reachable flat_ext (flat_config 1000) (flat_chain 1000)"
    by (rule reachable.Start [OF flat_genesis]) (simp_all add: MAX_TARGET_def)
  then show "chain_ok flat_ext (flat_chain 1000)" using reachable_ok flat_start_ok(2) by blast
  show "create_genesis flat_ext 2000 (flat_config 1000) = Inr (flat_chain 1000)"
    by (rule flat_genesis) (simp_all add: MAX_TARGET_def)
qed (simp_all add: flat_storable no_disk_def)

theorem save_load_round_trip_witness:
  "\<exists>d' bc'. save (flat_chain 1000) no_disk = (d', Inr ()) \<and> load flat_ext 2000 (flat_config 1000) d' = Inr bc'
    \<and> bc_chain bc' = [flat_block 0 ''0'' 1000 1000]"
proof -
  have "map reread_block (bc_chain (flat_chain 1000)) = [flat_block 0 ''0'' 1000 1000]"
    by (simp add: flat_chain_def reread_block_def flat_block_def new_block_def)
  then show ?thesis
    using save_load_round_trip [OF flat_ready(1,3,4)] flat_ready(2)
    by (auto simp: storable_def block_ready_iff settled_stamps_def list_all_iff)
qed

text \<open>C35: whatever the file holds, a chain that \<open>load\<close> returns starts at index 0 with a block that
  carries its own hash, and every block links to the one before.\<close>

theorem loaded_chain_checked:
  assumes "load cr now g d = Inr bc"
  shows "bc_chain bc \<noteq> [] \<and> bl_index (hd (bc_chain bc)) = 0
    \<and> bl_hash (hd (bc_chain bc)) = Some (compute_hash cr (hd (bc_chain bc)))
    \<and> successively (linked cr) (bc_chain bc)"
proof -
  from assms obtain js accs blocks where r: "read_snapshot d = Inr (js, accs)"
    "load_blocks cr now js = Inr blocks" "verify_chain_integrity cr now blocks" "bc_chain bc = blocks"
    by (auto simp: load_def split: sum.splits prod.splits if_splits)
  have parts: "snapshot_parts j = Inr (js', accs') \<Longrightarrow> js' \<noteq> []" for j js' accs'
    by (auto simp: snapshot_parts_def json_error_def split: json.splits option.splits list.splits)
  have legacy: "read_legacy s = Inr (js', accs') \<Longrightarrow> js' \<noteq> []" for s js' accs'
    using parts by (auto simp: read_legacy_def decode_bind_Inr)
  have "js \<noteq> []" using r(1) parts legacy
    by (auto simp: read_snapshot_def json_error_def split: option.splits sum.splits prod.splits
        decode_error.splits exn.splits)
  moreover have "load_blocks cr now js = Inr bs \<Longrightarrow> length bs = length js" for bs
    by (induction cr now js arbitrary: bs rule: load_blocks.induct)
      (auto split: sum.splits decode_error.splits if_splits)
  ultimately have "blocks \<noteq> []" using r(2) by auto
  with r show ?thesis
    by (auto simp: verify_chain_integrity_def links_ok_iff calculate_hash_def compute_hash_def)
qed

theorem loaded_chain_checked_witness:
  "\<exists>d bc. load flat_ext 2000 (flat_config 1000) d = Inr bc \<and> successively (linked flat_ext) (bc_chain bc)"
proof -
  obtain d' bc' where "load flat_ext 2000 (flat_config 1000) d' = Inr bc'"
    using load_after_save [OF flat_ready] by blast
  with loaded_chain_checked [OF this] show ?thesis by blast
qed

text \<open>saving is a transaction. When it raises (a storage without a JSON form, an index beyond
  64 bits, two blocks of one index), the file is as it was before.\<close>

lemma failed_save_keeps_data:
  assumes "save bc d = (d', Inl e)" "dk_db d = Some (Database db)"
    and "db_blocks db \<noteq> None" "db_accounts db \<noteq> None" "db_metadata db \<noteq> None"
  shows "d' = d"
proof -
  have "initialize_schema db = db"
    using assms(3-) by (cases db) (auto simp: initialize_schema_def create_table_def)
  then have "d' = d\<lparr>dk_db := Some (Database db)\<rparr>" using assms(1,2)
    by (auto simp: save_def db_connect_def save_snapshot_def Let_def split: sum.splits)
  with assms(2) show ?thesis by (cases d) simp
qed

definition empty_tables :: disk where
  "empty_tables = \<lparr>dk_db = Some (Database (initialize_schema empty_database)), dk_legacy = None\<rparr>"

text \<open>Two blocks of one index.\<close>

definition twice :: blockchain where
  "twice = (flat_chain 1000)\<lparr>bc_chain := [flat_block 0 ''0'' 1000 1000, flat_block 0 ''0'' 1000 1000]\<rparr>"

lemma failed_save_keeps_data_witness:
  "save twice empty_tables = (empty_tables, Inl IntegrityError)"
proof -
  have "snd (save twice empty_tables) = Inl IntegrityError" by code_simp
  then have s: "save twice empty_tables = (fst (save twice empty_tables), Inl IntegrityError)"
    by (metis prod.collapse)
  from failed_save_keeps_data [OF s, of "initialize_schema empty_database"] s show ?thesis
    by (simp add: empty_tables_def initialize_schema_def create_table_def empty_database_def)
qed

datatype ban_op = Ban string string int | Unban string

fun ban_step :: "ban_op \<Rightarrow> disk \<Rightarrow> disk" where
  "ban_step (Ban p reason now) d = fst (ban_peer p reason now d)"
| "ban_step (Unban p) d = fst (unban_peer p d)"

fun bans :: "string \<Rightarrow> ban_op \<Rightarrow> bool \<Rightarrow> bool" where
  "bans p (Ban q reason now) b = (p = q \<or> b)"
| "bans p (Unban q) b = (p \<noteq> q \<and> b)"

lemma ban_step_look:
  assumes "disk_ok d"
  shows "disk_ok (ban_step op d) \<and>
    (banned.look (disk_db (ban_step op d)) p \<noteq> None) = bans p op (banned.look (disk_db d) p \<noteq> None)"
proof (cases op)
  case (Ban q r t)
  then show ?thesis using banned.look_put [of q "(r, t)" "disk_db d"]
    by (simp add: ban_peer_def with_db_ok [OF assms])
next
  case (Unban q)
  show ?thesis
  proof (cases "dk_db d")
    case None
    then have "banned.look (disk_db d) p = None" by (simp add: banned.look_def no_file_rows)
    with None Unban assms show ?thesis by (simp add: unban_peer_def)
  next
    case (Some f)
    then show ?thesis using Unban banned.look_del [of q "disk_db d"]
      by (simp add: unban_peer_def with_db_ok [OF assms])
  qed
qed

text \<open>bans. After any sequence of bans and unbans a peer is banned exactly when the last
  operation that names it banned it (or none names it and it was banned before). Bans leave
  the saved chain as it is, and saving leaves the bans.\<close>

lemma last_ban_decides:
  assumes "disk_ok d" "is_peer_banned p d = Inr b"
  shows "is_peer_banned p (fold ban_step ops d) = Inr (fold (bans p) ops b)
    \<and> is_peer_banned p (fst (save bc d)) = Inr b"
proof -
  have ok: "disk_ok (fold ban_step ops d) \<and> (banned.look (disk_db (fold ban_step ops d)) p \<noteq> None)
      = fold (bans p) ops (banned.look (disk_db d) p \<noteq> None)" if "disk_ok d" for ops d
    using that
  proof (induction ops arbitrary: d)
    case (Cons op ops)
    with ban_step_look [OF Cons.prems, of op p] Cons.IH [of "ban_step op d"] show ?case by simp
  qed simp
  have sv: "disk_ok (fst (save bc d)) \<and> banned_rows (disk_db (fst (save bc d))) = banned_rows (disk_db d)"
    by (auto simp: save_def disk_connect [OF assms(1)] save_snapshot_def Let_def banned_rows_def
        initialize_schema_def split: sum.splits prod.splits)
  show ?thesis using assms ok [OF assms(1), of ops] sv
    by (simp add: is_banned_look banned.look_def)
qed

lemma last_ban_decides_witness:
  "is_peer_banned ''x'' (fold ban_step [Ban ''x'' ''late'' 5, Ban ''y'' ''rude'' 6, Unban ''y''] no_disk) = Inr True"
proof -
  have "disk_ok no_disk" "is_peer_banned ''x'' no_disk = Inr False"
    by (simp_all add: no_disk_def disk_ok_def is_peer_banned_def peer_rows_def)
  from last_ban_decides [OF this, of "[Ban ''x'' ''late'' 5, Ban ''y'' ''rude'' 6, Unban ''y'']"]
  show ?thesis by simp
qed

end
