(* ===== verification/Peers.thy ===== *)
theory Peers
  imports Store
begin

section \<open>The peer-to-peer layer (p2p.py)\<close>

text \<open>
  \<open>minichain/p2p.py\<close> without libp2p: the reader of incoming messages, the memory of messages
  seen, the counters of misbehaviour with their decay and the bans, the framing of messages on a
  stream, and the registry of open streams. Two threads talk through two queues; the commands
  to the network thread are the list \<open>np_out\<close>. Tasks that a handler creates run when the reader
  waits again: they are collected in \<open>np_tasks\<close>. The clock of the bans is an argument.
\<close>

definition MAX_FRAME_BYTES :: nat where "MAX_FRAME_BYTES = 1048576"

definition DECAY_INTERVAL_MINUTES :: int where "DECAY_INTERVAL_MINUTES = 10"

definition SUPPORTED_MESSAGE_TYPES :: "string list" where
  "SUPPORTED_MESSAGE_TYPES =
     [''hello'', ''tx'', ''block'', ''chain_request'', ''chain_response'', ''getaddr'', ''addr'']"

subsection \<open>State\<close>

datatype command =
    Connect string
  | Broadcast json "string option"
  | Unicast string json
  | Disconnect string
  | Stop

type_synonym counts = "(validation_status \<times> int) list"

record p2p =
  np_seen_tx :: "json list"
  np_seen_blocks :: "json list"
  np_thresholds :: counts
  np_counters :: "(string \<times> counts) list"
  np_disk :: disk
  np_peer_id :: "string option"
  np_out :: "command list"
  np_tasks :: "command list"

text \<open>\<open>__init__\<close>, with its check of the decay interval (in minutes) and of the thresholds.\<close>

definition new_p2p :: "disk \<Rightarrow> int \<Rightarrow> int \<Rightarrow> int \<Rightarrow> int \<Rightarrow> exn + p2p" where
  "new_p2p d decay malformed failed invalid =
     (if decay \<le> 0 \<or> malformed \<le> 0 \<or> failed \<le> 0 \<or> invalid \<le> 0 then Inl ValueError
      else Inr \<lparr>np_seen_tx = [], np_seen_blocks = [],
        np_thresholds = [(MALFORMED, malformed), (FAILED, failed), (INVALID, invalid)],
        np_counters = [], np_disk = d, np_peer_id = None, np_out = [], np_tasks = []\<rparr>)"

definition send_command :: "command \<Rightarrow> p2p \<Rightarrow> p2p" where
  "send_command c n = n\<lparr>np_out := np_out n @ [c]\<rparr>"

definition create_task :: "command \<Rightarrow> p2p \<Rightarrow> p2p" where
  "create_task c n = n\<lparr>np_tasks := np_tasks n @ [c]\<rparr>"

text \<open>The pending tasks run.\<close>

definition run_tasks :: "p2p \<Rightarrow> p2p" where
  "run_tasks n = n\<lparr>np_out := np_out n @ np_tasks n, np_tasks := []\<rparr>"

definition peer_id_from_addr :: "string \<Rightarrow> string" where
  "peer_id_from_addr a = (if take 5 a = ''peer:'' then drop 5 a else a)"

definition peer_addr :: "string \<Rightarrow> string" where
  "peer_addr pid = ''peer:'' @ pid"

subsection \<open>Messages seen\<close>

text \<open>A value as a key of a dictionary or set: \<open>TypeError\<close> for lists and dictionaries; a truth
  value is the number it equals.\<close>

fun hash_key :: "json \<Rightarrow> exn + json" where
  "hash_key (JArr _) = Inl TypeError"
| "hash_key (JObj _) = Inl TypeError"
| "hash_key (JBool b) = Inr (JInt (if b then 1 else 0))"
| "hash_key j = Inr j"

text \<open>\<open>payload["hash"]\<close>.\<close>

definition payload_hash :: "json \<Rightarrow> exn + json" where
  "payload_hash payload =
     (case payload of
        JObj d \<Rightarrow> (case dict_get d ''hash'' of None \<Rightarrow> Inl KeyError | Some v \<Rightarrow> Inr v)
      | _ \<Rightarrow> Inl TypeError)"

definition message_id :: "'a crypto_scheme \<Rightarrow> string \<Rightarrow> json \<Rightarrow> exn + json option" where
  "message_id cr msg_type payload =
     (if msg_type = ''tx'' then Inr (Some (JStr (canonical_json_hash cr payload)))
      else if msg_type = ''block'' then map_sum id Some (payload_hash payload)
      else Inr None)"

definition seen_set :: "string \<Rightarrow> p2p \<Rightarrow> json list" where
  "seen_set msg_type n = (if msg_type = ''tx'' then np_seen_tx n else np_seen_blocks n)"

text \<open>The identifier as a key, \<open>None\<close> for one that is false.\<close>

definition seen_key :: "'a crypto_scheme \<Rightarrow> string \<Rightarrow> json \<Rightarrow> exn + json option" where
  "seen_key cr msg_type payload =
     (case message_id cr msg_type payload of
        Inl e \<Rightarrow> Inl e
      | Inr None \<Rightarrow> Inr None
      | Inr (Some mid) \<Rightarrow> if json_truthy mid then map_sum id Some (hash_key mid) else Inr None)"

definition is_duplicate :: "'a crypto_scheme \<Rightarrow> string \<Rightarrow> json \<Rightarrow> p2p \<Rightarrow> exn + bool" where
  "is_duplicate cr msg_type payload n =
     map_sum id (\<lambda>k. case k of None \<Rightarrow> False | Some k \<Rightarrow> k \<in> set (seen_set msg_type n))
       (seen_key cr msg_type payload)"

text \<open>Insertion at the end, then the oldest is dropped.\<close>

definition remember :: "json \<Rightarrow> json list \<Rightarrow> json list" where
  "remember k ks =
     (let ks' = filter (\<lambda>x. x \<noteq> k) ks @ [k]
      in if length ks' > SEEN_CACHE_MAX then tl ks' else ks')"

definition mark_seen :: "'a crypto_scheme \<Rightarrow> string \<Rightarrow> json \<Rightarrow> p2p \<Rightarrow> exn + p2p" where
  "mark_seen cr msg_type payload n =
     (case seen_key cr msg_type payload of
        Inl e \<Rightarrow> Inl e
      | Inr None \<Rightarrow> Inr n
      | Inr (Some k) \<Rightarrow>
          Inr (if msg_type = ''tx'' then n\<lparr>np_seen_tx := remember k (np_seen_tx n)\<rparr>
               else n\<lparr>np_seen_blocks := remember k (np_seen_blocks n)\<rparr>))"

subsection \<open>Outgoing messages\<close>

definition message :: "string \<Rightarrow> json \<Rightarrow> json" where
  "message msg_type payload = JObj [(''type'', JStr msg_type), (''data'', payload)]"

text \<open>The identifiers of a transaction and of a block always are keys.\<close>

definition broadcast_transaction :: "'a crypto_scheme \<Rightarrow> transaction \<Rightarrow> p2p \<Rightarrow> exn + p2p" where
  "broadcast_transaction cr tx n =
     map_sum id (send_command (Broadcast (message ''tx'' (JObj (tx_to_dict tx))) None))
       (mark_seen cr ''tx'' (JObj (tx_to_dict tx)) n)"

definition broadcast_block :: "'a crypto_scheme \<Rightarrow> block \<Rightarrow> p2p \<Rightarrow> exn + p2p" where
  "broadcast_block cr b n =
     map_sum id (send_command (Broadcast (message ''block'' (JObj (block_to_dict b))) None))
       (mark_seen cr ''block'' (JObj (block_to_dict b)) n)"

definition disconnect_peer :: "string \<Rightarrow> p2p \<Rightarrow> p2p" where
  "disconnect_peer addr = send_command (Disconnect addr)"

definition connect_to_peer :: "string \<Rightarrow> p2p \<Rightarrow> p2p" where
  "connect_to_peer addr = send_command (Connect addr)"

definition broadcast_chain_request :: "p2p \<Rightarrow> p2p" where
  "broadcast_chain_request = send_command (Broadcast (message ''chain_request'' (JObj [])) None)"

definition send_chain_response :: "json list \<Rightarrow> p2p \<Rightarrow> p2p" where
  "send_chain_response bs =
     send_command (Broadcast (message ''chain_response'' (JObj [(''blocks'', JArr bs)])) None)"

text \<open>A peer found by discovery: the lower identifier dials, every address once. (Identifiers are
  compared as texts.)\<close>

definition on_peer_discovered :: "string \<Rightarrow> string list \<Rightarrow> p2p \<Rightarrow> p2p" where
  "on_peer_discovered pid addrs n =
     (case np_peer_id n of
        None \<Rightarrow> n
      | Some own \<Rightarrow>
          if own \<ge> pid then n
          else fold (\<lambda>a. connect_to_peer (if contains ''/p2p/'' a then a else a @ ''/p2p/'' @ pid)) addrs n)"

subsection \<open>Misbehaviour\<close>

fun status_name :: "validation_status \<Rightarrow> string" where
  "status_name VALID = ''valid''"
| "status_name INVALID = ''invalid''"
| "status_name FAILED = ''failed''"
| "status_name MALFORMED = ''malformed''"

definition peer_counts :: "string \<Rightarrow> p2p \<Rightarrow> counts" where
  "peer_counts pid n =
     (case map_of (np_counters n) pid of
        None \<Rightarrow> map (\<lambda>(s, _). (s, 0)) (np_thresholds n)
      | Some cs \<Rightarrow> cs)"

definition count_of :: "validation_status \<Rightarrow> counts \<Rightarrow> int" where
  "count_of s cs = (case map_of cs s of None \<Rightarrow> 0 | Some c \<Rightarrow> c)"

text \<open>For a status that has a threshold; the second component says whether it is reached.\<close>

definition increment_counter :: "string \<Rightarrow> validation_status \<Rightarrow> p2p \<Rightarrow> p2p \<times> bool" where
  "increment_counter pid s n =
     (let cs = peer_counts pid n; c = count_of s cs + 1
      in (n\<lparr>np_counters := AList.update pid (AList.update s c cs) (np_counters n)\<rparr>,
          c \<ge> count_of s (np_thresholds n)))"

definition handle_validation_status ::
  "int \<Rightarrow> string \<Rightarrow> string \<Rightarrow> validation_status \<Rightarrow> p2p \<Rightarrow> p2p \<times> (db_error + unit)" where
  "handle_validation_status now pid addr s n =
     (if s \<notin> fst ` set (np_thresholds n) then (n, Inr ())
      else case increment_counter pid s n of
        (n1, exceeded) \<Rightarrow>
          (case (if exceeded then ban_peer pid (status_name s @ ''_threshold_exceeded'') now (np_disk n1)
                 else (np_disk n1, Inr ())) of
             (d, Inl e) \<Rightarrow> (n1\<lparr>np_disk := d\<rparr>, Inl e)
           | (d, Inr _) \<Rightarrow>
               (let n2 = n1\<lparr>np_disk := d\<rparr>
                in (if s \<in> {MALFORMED, INVALID} \<or> exceeded then disconnect_peer addr n2 else n2, Inr ()))))"

text \<open>One round of \<open>_decay_counters\<close>.\<close>

definition decay_counters :: "p2p \<Rightarrow> p2p" where
  "decay_counters n =
     n\<lparr>np_counters := filter (\<lambda>(p, cs). list_ex (\<lambda>(s, c). c > 0) cs)
        (map (\<lambda>(p, cs). (p, map (\<lambda>(s, c). (s, c div 2)) cs)) (np_counters n))\<rparr>"

subsection \<open>The reader\<close>

text \<open>What the network thread puts into the queue; \<open>Unread\<close> stands for a message with a value
  that the model has no form for (a float), which the model drops.\<close>

datatype inbound = Msg "json dict" | Malformed_from string | Peer_connected | Unread

text \<open>The handler that the node registers, on the node's own state and the network's; \<open>None\<close> is
  a handler that is not registered. A handler raises an exception, or meets a value that the
  model has no form for.\<close>

datatype handler_error = Handler_raised exn | Handler_store db_error | Handler_unmodelled

type_synonym 'n handler =
  "json dict \<Rightarrow> 'n \<times> p2p \<Rightarrow> ('n \<times> p2p) \<times> (handler_error + validation_status option)"

text \<open>An exception that leaves the reader ends its task; \<open>Unmodelled_message\<close> says only that the
  model does not follow this message.\<close>

datatype reader_error = Unhashable_type | Store_error db_error | Unmodelled_message

definition read_status ::
  "'n handler option \<Rightarrow> json dict \<Rightarrow> 'n \<times> p2p \<Rightarrow> ('n \<times> p2p) \<times> (reader_error + validation_status option)" where
  "read_status h data st =
     (case h of
        None \<Rightarrow> (st, Inr None)
      | Some f \<Rightarrow>
          (case f data st of
             (st1, Inl Handler_unmodelled) \<Rightarrow> (st1, Inl Unmodelled_message)
           | (st1, Inl _) \<Rightarrow> (st1, Inr (Some MALFORMED))
           | (st1, Inr s) \<Rightarrow> (st1, Inr s)))"

definition policy ::
  "int \<Rightarrow> string \<Rightarrow> validation_status \<Rightarrow> 'n \<times> p2p \<Rightarrow> ('n \<times> p2p) \<times> (reader_error + unit)" where
  "policy now addr s st =
     (case handle_validation_status now (peer_id_from_addr addr) addr s (snd st) of
        (n, Inl e) \<Rightarrow> ((fst st, n), Inl (Store_error e))
      | (n, Inr _) \<Rightarrow> ((fst st, n), Inr ()))"

text \<open>After a status that is \<open>None\<close> or \<open>VALID\<close>: the message is remembered, and relayed when it
  is valid content.\<close>

definition accept_message ::
  "'a crypto_scheme \<Rightarrow> string \<Rightarrow> json \<Rightarrow> string \<Rightarrow> validation_status option \<Rightarrow> p2p \<Rightarrow> p2p" where
  "accept_message cr msg_type payload addr s n =
     (let n1 = (case mark_seen cr msg_type payload n of Inl e \<Rightarrow> n | Inr n' \<Rightarrow> n')
      in if msg_type \<in> {''tx'', ''block''} \<and> s = Some VALID
         then send_command (Broadcast (message msg_type payload) (Some addr)) n1 else n1)"

definition field :: "string \<Rightarrow> json dict \<Rightarrow> json" where
  "field k d = (case dict_get d k of None \<Rightarrow> JNull | Some v \<Rightarrow> v)"

definition sender_addr :: "json dict \<Rightarrow> string" where
  "sender_addr d = (case dict_get d ''_peer_addr'' of Some (JStr a) \<Rightarrow> a | _ \<Rightarrow> [])"

definition read_message ::
  "'a crypto_scheme \<Rightarrow> int \<Rightarrow> 'n handler option \<Rightarrow> json dict \<Rightarrow> 'n \<times> p2p \<Rightarrow> ('n \<times> p2p) \<times> (reader_error + unit)" where
  "read_message cr now h data st =
     (let payload = field ''data'' data; addr = sender_addr data in
      case hash_key (field ''type'' data) of
        Inl e \<Rightarrow> (st, Inl Unhashable_type)
      | Inr (JStr msg_type) \<Rightarrow>
          if msg_type \<notin> set SUPPORTED_MESSAGE_TYPES then (st, Inr ())
          else (case is_duplicate cr msg_type payload (snd st) of
             Inl e \<Rightarrow> policy now addr MALFORMED st
           | Inr True \<Rightarrow> (st, Inr ())
           | Inr False \<Rightarrow>
               (case read_status h data st of
                  (st1, Inl e) \<Rightarrow> (st1, Inl e)
                | (st1, Inr s) \<Rightarrow>
                    (case (case s of None \<Rightarrow> (st1, Inr ()) | Some v \<Rightarrow> policy now addr v st1) of
                       (st2, Inl e) \<Rightarrow> (st2, Inl e)
                     | (st2, Inr _) \<Rightarrow>
                         (if s = None \<or> s = Some VALID
                          then ((fst st2, accept_message cr msg_type payload addr s (snd st2)), Inr ())
                          else (st2, Inr ())))))
      | Inr _ \<Rightarrow> (st, Inr ()))"

text \<open>One turn of the loop. \<open>greeting\<close> is what \<open>_on_peer_connected\<close> writes, as a value; the text
  that it is written as is read back at once.\<close>

definition reader_step ::
  "'a crypto_scheme \<Rightarrow> int \<Rightarrow> 'n handler option \<Rightarrow> ('n \<Rightarrow> json option) \<Rightarrow> inbound \<Rightarrow> 'n \<times> p2p
     \<Rightarrow> ('n \<times> p2p) \<times> (reader_error + unit)" where
  "reader_step cr now h greeting m st =
     (case (case m of
              Msg data \<Rightarrow> read_message cr now h data st
            | Malformed_from addr \<Rightarrow> policy now addr MALFORMED st
            | Peer_connected \<Rightarrow>
                (case greeting (fst st) of
                   None \<Rightarrow> (st, Inr ())
                 | Some req \<Rightarrow> ((fst st, send_command (Broadcast req None) (snd st)), Inr ()))
            | Unread \<Rightarrow> (st, Inr ())) of
        (st', r) \<Rightarrow> ((fst st', run_tasks (snd st')), r))"

text \<open>The loop, over what the queue holds and the times at which it is read; \<open>h\<close> is the handler at a
  time. It ends early only with an exception.\<close>

fun run_reader ::
  "'a crypto_scheme \<Rightarrow> (int \<Rightarrow> 'n handler option) \<Rightarrow> ('n \<Rightarrow> json option) \<Rightarrow> (int \<times> inbound) list \<Rightarrow> 'n \<times> p2p
     \<Rightarrow> ('n \<times> p2p) \<times> (reader_error + unit)" where
  "run_reader cr h greeting [] st = (st, Inr ())"
| "run_reader cr h greeting ((now, m) # ms) st =
     (case reader_step cr now (h now) greeting m st of
        (st', Inl e) \<Rightarrow> (st', Inl e)
      | (st', Inr _) \<Rightarrow> run_reader cr h greeting ms st')"

subsection \<open>Frames\<close>

definition frame :: "json \<Rightarrow> string" where
  "frame payload = canonical_json_dumps payload @ [char_of (10::nat)]"

text \<open>\<open>buffer.split(b"\n")\<close>: the complete lines, and the rest.\<close>

fun split_lines :: "string \<Rightarrow> string list \<times> string" where
  "split_lines [] = ([], [])"
| "split_lines (c # cs) =
     (case split_lines cs of
        (ls, r) \<Rightarrow>
          if of_char c = (10::nat) then ([] # ls, r)
          else (case ls of [] \<Rightarrow> ([], c # r) | l # ls' \<Rightarrow> ((c # l) # ls', r)))"

text \<open>\<open>strip()\<close> of bytes; of a text the model strips the ASCII characters only.\<close>

definition is_byte_space :: "char \<Rightarrow> bool" where
  "is_byte_space c = (of_char c = (32::nat) \<or> (9 \<le> (of_char c :: nat) \<and> (of_char c :: nat) \<le> 13))"

definition parse_line :: "string \<Rightarrow> string \<Rightarrow> inbound option" where
  "parse_line addr line =
     (if list_all is_byte_space line then None
      else if \<not> utf8_text line then Some (Malformed_from addr)
      else case json_loads (strip line) of
             Inr (JObj d) \<Rightarrow> Some (Msg (dict_set ''_peer_addr'' (JStr addr) d))
           | Inl Unmodelled \<Rightarrow> Some Unread
           | _ \<Rightarrow> Some (Malformed_from addr))"

text \<open>The loop of \<open>stream_handler\<close> over what \<open>read\<close> returns; the last component says that the
  stream goes on.\<close>

definition feed :: "string \<Rightarrow> string \<Rightarrow> string \<Rightarrow> inbound list \<times> string \<times> bool" where
  "feed addr buffer data =
     (let b = buffer @ data in
      if data = [] then ([], buffer, False)
      else if length b > MAX_FRAME_BYTES then ([Malformed_from addr], b, False)
      else case split_lines b of (ls, r) \<Rightarrow> (List.map_filter (parse_line addr) ls, r, True))"

fun read_stream :: "string \<Rightarrow> string \<Rightarrow> string list \<Rightarrow> inbound list" where
  "read_stream addr buffer [] = []"
| "read_stream addr buffer (x # xs) =
     (case feed addr buffer x of
        (ms, b, go) \<Rightarrow> if go then ms @ read_stream addr b xs else ms)"

end
