(* ===== verification/PeersLaws.thy ===== *)
theory PeersLaws
  imports Peers StoreLaws
begin

section \<open>Laws of the peer-to-peer layer\<close>

subsection \<open>Frames\<close>

definition newline :: "char \<Rightarrow> bool" where
  "newline c \<longleftrightarrow> of_char c = (10::nat)"

lemma split_line: "\<not> list_ex newline l \<Longrightarrow> newline c \<Longrightarrow> split_lines (l @ c # s) = (l # fst (split_lines s), snd (split_lines s))"
  by (induction l) (auto simp: newline_def split: prod.splits)

lemma split_rest: "\<not> list_ex newline l \<Longrightarrow> split_lines l = ([], l)"
  by (induction l) (auto simp: newline_def)

lemma split_lines_append:
  "split_lines (a @ b) = (fst (split_lines a) @ fst (split_lines (snd (split_lines a) @ b)), snd (split_lines (snd (split_lines a) @ b)))"
proof (induction a)
  case (Cons c a)
  obtain ls r where a: "split_lines a = (ls, r)" by fastforce
  obtain ls' r' where b: "split_lines (r @ b) = (ls', r')" by fastforce
  show ?case using Cons a b by (cases ls; cases ls') (auto split: prod.splits)
qed simp

lemma split_lines_no_newline: "\<not> list_ex newline (snd (split_lines s)) \<and> list_all (\<lambda>l. \<not> list_ex newline l) (fst (split_lines s))"
  by (induction s) (auto simp: newline_def split: prod.splits list.splits)

lemma split_again: "split_lines (snd (split_lines s)) = ([], snd (split_lines s))"
  using split_lines_no_newline split_rest by blast

text \<open>The lines of a stream do not depend on how it is cut into chunks.\<close>

lemma read_stream_lines:
  assumes "\<not> list_ex newline buf"
    and "list_all (\<lambda>x. x \<noteq> [] \<and> length x \<le> k) xs" "k \<le> MAX_FRAME_BYTES"
    and "list_all (\<lambda>l. length l + k \<le> MAX_FRAME_BYTES) (fst (split_lines (buf @ concat xs)))"
    and "length (snd (split_lines (buf @ concat xs))) + k \<le> MAX_FRAME_BYTES"
  shows "read_stream addr buf xs = List.map_filter (parse_line addr) (fst (split_lines (buf @ concat xs)))"
  using assms
proof (induction xs arbitrary: buf)
  case Nil
  then show ?case by (simp add: split_rest map_filter_simps)
next
  case (Cons x xs)
  let ?s = "split_lines (buf @ x)"
  let ?t = "split_lines (snd ?s @ concat xs)"
  have all: "split_lines (buf @ concat (x # xs)) = (fst ?s @ fst ?t, snd ?t)"
    using split_lines_append [of "buf @ x" "concat xs"] by simp
  have "length buf + k \<le> MAX_FRAME_BYTES"
  proof -
    have pre: "\<not> list_ex newline b \<Longrightarrow> (case split_lines (b @ s) of (ls, r) \<Rightarrow>
        length b \<le> length (case ls of [] \<Rightarrow> r | l # _ \<Rightarrow> l))" for b s
      by (induction b) (auto simp: newline_def split: prod.splits list.splits)
    from pre [OF Cons.prems(1), of "concat (x # xs)"] Cons.prems(4,5) show ?thesis
      by (auto split: prod.splits list.splits simp del: concat.simps)
  qed
  then have small: "\<not> MAX_FRAME_BYTES < length (buf @ x)" using Cons.prems(2) by simp
  have "read_stream addr (snd ?s) xs = List.map_filter (parse_line addr) (fst ?t)"
    using Cons.prems split_lines_no_newline [of "buf @ x"] all by (intro Cons.IH) auto
  then show ?case using small Cons.prems(2) all
    by (simp add: feed_def Let_def split_beta List.map_filter_def)
qed

subsection \<open>UTF-8\<close>

lemma less_256_char: "n < 256 \<Longrightarrow> of_char (char_of n :: char) = (n :: nat)"
  by simp

lemma decode_encode: "code_point n \<Longrightarrow> utf8_decode (utf8_encode n @ s) = n # utf8_decode s"
proof -
  assume n: "code_point n"
  have d: "n div 4096 = n div 64 div 64" "n div 262144 = n div 64 div 64 div 64"
    by (simp_all add: div_mult2_eq [symmetric])
  have e: "k = 64 * (k div 64) + k mod 64" for k :: nat by simp
  have m: "(128 + k) mod 64 = k mod 64" for k :: nat
    using mod_mult_self1 [of k 2 64] by (simp add: add.commute)
  have w: "(128 + k mod 64) mod 256 = 128 + k mod 64" for k :: nat
    using mod_less_divisor [of 64 k] by (intro mod_less) linarith
  consider "n < 128" | "128 \<le> n" "n < 2048" | "2048 \<le> n" "n < 65536" | "65536 \<le> n" "n < 1114112"
  proof -
    have "n < 1114112" using n by (auto simp: code_point_def)
    then show thesis using that by linarith
  qed
  then show ?thesis
  proof cases
    case 1
    then show ?thesis by (simp add: utf8_encode_def Let_def)
  next
    case 2
    then have "n div 64 < 32" "2 \<le> n div 64" by auto
    then show ?thesis using 2 by (simp add: utf8_encode_def Let_def cont_bits_def m w)
  next
    case 3
    then have b: "n div 64 div 64 < 16" by simp
    have "(n div 64 div 64) * 4096 + (n div 64 mod 64) * 64 + n mod 64 = n"
      using e [of n] e [of "n div 64"] by linarith
    then show ?thesis using 3 b by (simp add: utf8_encode_def Let_def cont_bits_def d m w)
  next
    case 4
    then have b: "n div 64 div 64 div 64 < 5" by simp
    have "(n div 64 div 64 div 64) * 262144 + (n div 64 div 64 mod 64) * 4096 + (n div 64 mod 64) * 64 + n mod 64 = n"
      using e [of n] e [of "n div 64"] e [of "n div 64 div 64"] by linarith
    then show ?thesis using 4 b by (simp add: utf8_encode_def Let_def cont_bits_def d m w)
  qed
qed

lemma utf8_text_iff: "utf8_text s \<longleftrightarrow> (\<exists>ns. list_all code_point ns \<and> s = concat (map utf8_encode ns))"
proof
  assume "\<exists>ns. list_all code_point ns \<and> s = concat (map utf8_encode ns)"
  then obtain ns where ns: "list_all code_point ns" "s = concat (map utf8_encode ns)" by blast
  have "utf8_decode (concat (map utf8_encode ns)) = ns" using ns(1)
    by (induction ns) (simp_all add: decode_encode)
  with ns show "utf8_text s" by (simp add: utf8_text_def)
next
  assume "utf8_text s"
  then show "\<exists>ns. list_all code_point ns \<and> s = concat (map utf8_encode ns)"
    by (intro exI [of _ "utf8_decode s"]) (simp add: utf8_text_def)
qed

lemma utf8_append: "utf8_text s \<Longrightarrow> utf8_text t \<Longrightarrow> utf8_text (s @ t)"
  unfolding utf8_text_iff by (metis concat_append list_all_append map_append)

lemma utf8_concat: "list_all utf8_text ss \<Longrightarrow> utf8_text (concat ss)"
  by (induction ss) (simp_all add: utf8_append, simp add: utf8_text_def)

definition printable :: "char \<Rightarrow> bool" where
  "printable c \<longleftrightarrow> (32::nat) \<le> of_char c \<and> of_char c < (127::nat)"

lemma printable_digit: "d < 16 \<Longrightarrow> printable (digit d)"
  using less_16_cases [of d] by (auto simp: digit_def printable_def)

lemma esc_control_ascii: "n < 32 \<or> n = 34 \<or> n = 92 \<Longrightarrow> list_all printable (esc_control n)"
proof -
  have dg: "printable (digit d)" if "d < 16" for d
    using that by (rule printable_digit)
  have u: "list_all printable (u_escape n)" if "n < 65536"
    using that by (simp add: u_escape_def hex4_def dg) (simp add: printable_def)
  assume "n < 32 \<or> n = 34 \<or> n = 92"
  then have "n < 65536" by auto
  from u [OF this] show ?thesis by (simp add: esc_control_def) (simp add: printable_def)
qed

lemma esc_utf8_encode:
  assumes "code_point n"
  shows "utf8_text (concat (map esc_utf8 (utf8_encode n)))"
proof (cases "n < 128")
  case True
  then have e: "utf8_encode n = [char_of n]" by (rule utf8_encode_ascii)
  have p: "printable c \<Longrightarrow> of_char c < (128::nat)" for c by (simp add: printable_def)
  have "list_all (\<lambda>c. of_char c < (128::nat)) (esc_utf8 (char_of n))"
    using True esc_control_ascii [of n] p by (auto simp: esc_utf8_def Let_def list_all_iff)
  then show ?thesis by (simp add: e utf8_ascii)
next
  case False
  then have "list_all (\<lambda>c. 128 \<le> (of_char c :: nat)) (utf8_encode n)"
    using assms by (auto simp: utf8_encode_def code_point_def)
  then have "concat (map esc_utf8 s) = s" if "set s \<subseteq> set (utf8_encode n)" for s
    using that by (induction s) (auto simp: list_all_iff esc_utf8_def Let_def)
  then have "concat (map esc_utf8 (utf8_encode n)) = utf8_encode n" by simp
  then show ?thesis using assms by (auto simp: utf8_text_iff intro!: exI [of _ "[n]"])
qed

subsection \<open>Texts of values\<close>

text \<open>The strings of a value are UTF-8; so is its canonical text, which has no line break.\<close>

fun texts_ok :: "json \<Rightarrow> bool" where
  "texts_ok (JStr s) = utf8_text s"
| "texts_ok (JArr xs) = list_all texts_ok xs"
| "texts_ok (JObj kvs) = (dict_ok kvs \<and> list_all (\<lambda>(k, v). utf8_text k \<and> texts_ok v) kvs)"
| "texts_ok JOpaque = False"
| "texts_ok _ = True"

definition line_text :: "string \<Rightarrow> bool" where
  "line_text s \<longleftrightarrow> utf8_text s \<and> list_all (\<lambda>c. (32::nat) \<le> of_char c) s"

lemma line_append: "line_text s \<Longrightarrow> line_text t \<Longrightarrow> line_text (s @ t)"
  by (simp add: line_text_def utf8_append)

lemma line_printable: "list_all printable s \<Longrightarrow> line_text s"
  unfolding line_text_def
  by (intro conjI utf8_ascii; elim list.pred_mono_strong) (simp_all add: printable_def)

lemma line_join: "line_text sep \<Longrightarrow> list_all line_text ss \<Longrightarrow> line_text (join sep ss)"
  by (induction sep ss rule: join.induct) (simp_all add: line_append line_printable)

lemma line_quote: "utf8_text s \<Longrightarrow> line_text (quote_str False s)"
proof -
  assume "utf8_text s"
  then obtain ns where ns: "list_all code_point ns" "s = concat (map utf8_encode ns)" by (auto simp: utf8_text_iff)
  have "utf8_text (concat (map esc_utf8 s))" using ns(1) unfolding ns(2)
    by (induction ns) (simp_all add: utf8_append esc_utf8_encode, simp add: utf8_text_def)
  moreover have "list_all (\<lambda>c. (32::nat) \<le> of_char c) (esc_utf8 c)" for c
  proof -
    have p: "printable c \<Longrightarrow> (32::nat) \<le> of_char c" for c by (simp add: printable_def)
    show ?thesis using esc_control_ascii [of "of_char c"] p by (auto simp: esc_utf8_def Let_def list_all_iff)
  qed
  then have "list_all (\<lambda>c. (32::nat) \<le> of_char c) (concat (map esc_utf8 s))" by (auto simp: list_all_iff)
  ultimately have "line_text (concat (map esc_utf8 s))" by (simp add: line_text_def)
  moreover have "line_text [CHR 0x22]" by (rule line_printable) (simp add: printable_def)
  ultimately show ?thesis by (simp add: quote_str_def line_append del: append_Cons append_Nil)
qed

lemma line_number: "line_text (py_str_int i)"
proof (rule line_printable)
  have "printable c" if "num_char c" for c
    using num_char_cases [OF that] by (auto simp: printable_def)
  then show "list_all printable (py_str_int i)" using num_chars by (auto simp: list_all_iff)
qed

lemma line_literals:
  "line_text ''null''" "line_text ''true''" "line_text ''false''" "line_text ''[''" "line_text '']''"
  "line_text ''{''" "line_text ''}''" "line_text '',''" "line_text '':''"
  by (rule line_printable; simp add: printable_def)+

lemma line_dumps: "texts_ok j \<Longrightarrow> line_text (plain j)"
proof (induction j rule: texts_ok.induct)
  case (1 s)
  then show ?case by (simp add: line_quote)
next
  case (2 xs)
  have "line_text (join '','' (map plain xs))"
    by (rule line_join [OF line_literals(8)]) (use 2 in \<open>auto simp: list_all_iff\<close>)
  then show ?case using line_append [OF line_append] line_literals(4,5)
    by (metis append.assoc plain.simps(5))
next
  case (3 kvs)
  have "line_text (join '','' (map (\<lambda>(k, v). quote_str False k @ '':'' @ plain v) kvs))"
  proof (rule line_join [OF line_literals(8)])
    have "line_text (quote_str False k @ '':'' @ plain v)" if kv: "(k, v) \<in> set kvs" for k v
    proof (intro line_append line_literals)
      show "line_text (quote_str False k)" using 3(2) kv by (auto simp: list_all_iff intro!: line_quote)
      show "line_text (plain v)" using 3(2) kv by (intro 3(1) [OF kv refl]) (auto simp: list_all_iff)
    qed
    then show "list_all line_text (map (\<lambda>(k, v). quote_str False k @ '':'' @ plain v) kvs)"
      unfolding list_all_iff set_map by (auto simp only: split_conv)
  qed
  then show ?case using line_append [OF line_append] line_literals(6,7)
    by (metis append.assoc plain.simps(6))
qed (simp_all add: line_literals line_number)

lemma texts_norm: "texts_ok j \<Longrightarrow> texts_ok (norm j)"
proof (induction j rule: texts_ok.induct)
  case (3 kvs)
  let ?ps = "map (\<lambda>(k, v). (k, norm v)) kvs"
  have "dict_ok ?ps" using 3(2) by (simp add: o_def split_beta)
  moreover have "list_all (\<lambda>(k, v). utf8_text k \<and> texts_ok v) ?ps"
    using 3 by (auto simp: list_all_iff split_beta)
  ultimately show ?case using dict_ok_sort [of ?ps] by (simp add: list_all_iff)
qed (auto simp: list_all_iff)

lemma texts_json_ok: "texts_ok j \<Longrightarrow> json_ok canonical_style j"
  by (induction j rule: texts_ok.induct)
    (auto simp: list_all_iff readable_def canonical_style_def)

lemma line_canonical: "texts_ok j \<Longrightarrow> line_text (canonical_json_dumps j)"
  by (simp add: canonical_norm line_dumps texts_norm)

subsection \<open>A message on the wire\<close>

lemma parse_frame_line:
  assumes "texts_ok (JObj d)"
  shows "parse_line addr (canonical_json_dumps (JObj d)) = Some (Msg (dict_set ''_peer_addr'' (JStr addr) (norm_dict d)))"
proof -
  let ?s = "canonical_json_dumps (JObj d)"
  have l: "json_loads ?s = Inr (JObj (norm_dict d))"
  proof -
    have "sort_keys canonical_style" by (simp add: canonical_style_def)
    with json_loads_dumps [OF style_ok_used(3) texts_json_ok [OF assms]] show ?thesis
      by (simp only: canonical_json_dumps_def written_sorted norm_JObj)
  qed
  have s: "?s = ''{'' @ join '','' (map (\<lambda>(k, v). quote_str False k @ '':'' @ plain v) (norm_dict d)) @ ''}''"
    by (simp add: canonical_norm norm_JObj del: norm.simps)
  have "strip ?s = ?s" unfolding s by (rule strip_id) (simp_all add: is_space_def)
  moreover have "\<not> list_all is_byte_space ?s" unfolding s by (simp add: is_byte_space_def)
  moreover have "utf8_text ?s" using line_canonical [OF assms] by (simp add: line_text_def)
  ultimately show ?thesis using l by (simp add: parse_line_def)
qed

lemma split_frames:
  assumes "list_all texts_ok js"
  shows "split_lines (concat (map frame js)) = (map canonical_json_dumps js, [])"
  using assms
proof (induction js)
  case (Cons j js)
  have "\<not> list_ex newline (canonical_json_dumps j)"
    using line_canonical [of j] Cons.prems by (auto simp: line_text_def newline_def list_all_iff list_ex_iff)
  moreover have "newline (char_of (10::nat))" by (simp add: newline_def)
  moreover have "concat (map frame (j # js)) = canonical_json_dumps j @ char_of (10::nat) # concat (map frame js)"
    by (simp add: frame_def)
  ultimately show ?case using Cons split_line by simp
qed simp

end
