(* ===== verification/PeersInv.thy ===== *)
theory PeersInv
  imports PeersLaws
begin

section \<open>The invariant of the network object\<close>

text \<open>The caches of seen messages have no duplicates and never exceed \<open>SEEN_CACHE_MAX\<close>, every peer has
  one record of counters, and no counter is negative. Every operation of the reader keeps
  this, whatever the handler of messages does, as long as it leaves the caches and counters alone:
  that contract is the locale \<open>message_handler\<close>.\<close>

subsection \<open>Caches and counters\<close>

lemma remember_ok:
  "distinct ks \<Longrightarrow> length ks \<le> SEEN_CACHE_MAX \<Longrightarrow> distinct (remember k ks) \<and> length (remember k ks) \<le> SEEN_CACHE_MAX"
proof -
  assume k: "distinct ks" "length ks \<le> SEEN_CACHE_MAX"
  then have "distinct (filter (\<lambda>x. x \<noteq> k) ks @ [k])" by simp
  moreover have "length (filter (\<lambda>x. x \<noteq> k) ks) \<le> SEEN_CACHE_MAX" using k(2) length_filter_le le_trans by blast
  ultimately show ?thesis by (auto simp: remember_def Let_def distinct_tl)
qed

definition seen_ok :: "p2p \<Rightarrow> bool" where
  "seen_ok n \<longleftrightarrow> distinct (np_seen_tx n) \<and> length (np_seen_tx n) \<le> SEEN_CACHE_MAX
     \<and> distinct (np_seen_blocks n) \<and> length (np_seen_blocks n) \<le> SEEN_CACHE_MAX"

definition counters_ok :: "p2p \<Rightarrow> bool" where
  "counters_ok n \<longleftrightarrow> distinct (map fst (np_counters n))
     \<and> list_all (\<lambda>(p, cs). list_all (\<lambda>(s, c). 0 \<le> c) cs) (np_counters n)"

definition network_ok :: "p2p \<Rightarrow> bool" where
  "network_ok n \<longleftrightarrow> seen_ok n \<and> counters_ok n"

text \<open>The part of the network object that the invariant speaks of.\<close>

definition np_core :: "p2p \<Rightarrow> json list \<times> json list \<times> counts \<times> (string \<times> counts) list" where
  "np_core n = (np_seen_tx n, np_seen_blocks n, np_thresholds n, np_counters n)"

lemma network_core: "np_core n' = np_core n \<Longrightarrow> network_ok n \<Longrightarrow> network_ok n'"
  by (simp add: np_core_def network_ok_def seen_ok_def counters_ok_def)

lemma core_simps [simp]:
  "np_core (send_command c n) = np_core n" "np_core (create_task c n) = np_core n"
  "np_core (run_tasks n) = np_core n" "np_core (n\<lparr>np_disk := d\<rparr>) = np_core n"
  "np_core (disconnect_peer a n) = np_core n" "np_core (connect_to_peer a n) = np_core n"
  by (simp_all add: np_core_def send_command_def create_task_def run_tasks_def disconnect_peer_def connect_to_peer_def)

lemma new_network_ok: "new_p2p d k a b c = Inr n \<Longrightarrow> network_ok n"
  by (auto simp: new_p2p_def network_ok_def seen_ok_def counters_ok_def split: if_splits)

lemma mark_seen_ok: "network_ok n \<Longrightarrow> mark_seen cr t p n = Inr n' \<Longrightarrow> network_ok n'"
  by (auto simp: mark_seen_def network_ok_def seen_ok_def counters_ok_def remember_ok
      split: sum.splits option.splits if_splits)

lemma update_mem: "(k', v') \<in> set (AList.update k v al) \<Longrightarrow> k' = k \<and> v' = v \<or> (k', v') \<in> set al"
  by (induction al) (auto split: if_splits)

lemma peer_counts_nonneg:
  assumes "counters_ok n" "(s, c) \<in> set (peer_counts p n)"
  shows "0 \<le> c"
proof (cases "map_of (np_counters n) p")
  case None
  with assms(2) show ?thesis by (auto simp: peer_counts_def)
next
  case (Some cs)
  with assms map_of_SomeD [OF Some] show ?thesis by (fastforce simp: peer_counts_def counters_ok_def list_all_iff)
qed

lemma count_of_nonneg: "counters_ok n \<Longrightarrow> 0 \<le> count_of s (peer_counts p n)"
  using peer_counts_nonneg by (auto simp: count_of_def split: option.splits dest: map_of_SomeD)

lemma increment_ok:
  assumes "network_ok n" "increment_counter p s n = (n', b)"
  shows "network_ok n'"
proof -
  let ?c = "count_of s (peer_counts p n) + 1"
  have n: "counters_ok n" using assms(1) by (simp add: network_ok_def)
  have n': "n' = n\<lparr>np_counters := AList.update p (AList.update s ?c (peer_counts p n)) (np_counters n)\<rparr>"
    using assms(2) by (simp add: increment_counter_def Let_def)
  have "0 \<le> c" if "(s', c) \<in> set (AList.update s ?c (peer_counts p n))" for s' c
    using update_mem [OF that] count_of_nonneg [OF n, of s p] peer_counts_nonneg [OF n] by fastforce
  then have new: "list_all (\<lambda>(s, c). 0 \<le> c) (AList.update s ?c (peer_counts p n))"
    by (auto simp: list_all_iff)
  have "list_all (\<lambda>(s, c). 0 \<le> c) cs" if "(q, cs) \<in> set (np_counters n')" for q cs
  proof -
    have "(q, cs) \<in> set (AList.update p (AList.update s ?c (peer_counts p n)) (np_counters n))"
      using that by (simp add: n')
    from update_mem [OF this] new n show ?thesis by (auto simp: counters_ok_def list_all_iff)
  qed
  then have "list_all (\<lambda>(q, cs). list_all (\<lambda>(s, c). 0 \<le> c) cs) (np_counters n')"
    unfolding list.pred_set by blast
  moreover have "distinct (map fst (np_counters n'))" using n by (simp add: n' counters_ok_def distinct_update)
  moreover have "seen_ok n'" using assms(1) by (simp add: n' network_ok_def seen_ok_def)
  ultimately show ?thesis by (simp add: network_ok_def counters_ok_def)
qed

lemma handle_status_ok:
  "network_ok n \<Longrightarrow> network_ok (fst (handle_validation_status now pid addr s n))"
proof -
  assume n: "network_ok n"
  show ?thesis
  proof (cases "s \<in> fst ` set (np_thresholds n)")
    case True
    obtain n1 b where i: "increment_counter pid s n = (n1, b)" by fastforce
    have "np_core (fst (handle_validation_status now pid addr s n)) = np_core n1"
      using True by (simp add: handle_validation_status_def i Let_def split: prod.splits sum.splits)
    then show ?thesis using increment_ok [OF n i] network_core by blast
  qed (simp add: handle_validation_status_def n)
qed

text \<open>What one status does, on a disk that can be written.\<close>

lemma update_look: "map_of (AList.update k v al) = (map_of al)(k \<mapsto> v)"
  by (rule ext) (simp add: update_conv)

lemma handle_once:
  fixes now :: int and addr :: string
  assumes "disk_ok (np_disk n)" "map_of (np_thresholds n) s = Some t"
    and "count_of s (peer_counts pid n) = c"
  defines "n' \<equiv> fst (handle_validation_status now pid addr s n)"
  shows "disk_ok (np_disk n')" "np_thresholds n' = np_thresholds n" "count_of s (peer_counts pid n') = c + 1"
    "is_peer_banned p (np_disk n') = Inr (is_peer_banned p (np_disk n) = Inr True \<or> p = pid \<and> c + 1 \<ge> t)"
    "np_out n' = np_out n @ (if s \<in> {MALFORMED, INVALID} \<or> c + 1 \<ge> t then [Disconnect addr] else [])"
proof -
  let ?n1 = "n\<lparr>np_counters := AList.update pid (AList.update s (c + 1) (peer_counts pid n)) (np_counters n)\<rparr>"
  have s: "s \<in> fst ` set (np_thresholds n)" using assms(2) by (metis map_of_SomeD fst_conv image_eqI)
  have inc: "increment_counter pid s n = (?n1, c + 1 \<ge> t)"
    using assms(2,3) by (simp add: increment_counter_def Let_def count_of_def)
  obtain d where d: "(if c + 1 \<ge> t then ban_peer pid (status_name s @ ''_threshold_exceeded'') now (np_disk n)
      else (np_disk n, Inr ())) = (d, Inr ())"
    "disk_ok d \<and> is_peer_banned p d = Inr (is_peer_banned p (np_disk n) = Inr True \<or> p = pid \<and> c + 1 \<ge> t)"
  proof (cases "c + 1 \<ge> t")
    case True
    let ?d = "fst (ban_peer pid (status_name s @ ''_threshold_exceeded'') now (np_disk n))"
    have "disk_ok ?d" "banned.look (disk_db ?d) p \<noteq> None \<longleftrightarrow> p = pid \<or> banned.look (disk_db (np_disk n)) p \<noteq> None"
      using banned.look_put [of pid "(status_name s @ ''_threshold_exceeded'', now)" "disk_db (np_disk n)"]
      by (simp_all add: ban_peer_def with_db_ok [OF assms(1)])
    then show thesis using True assms(1) that [of ?d]
      by (auto simp: is_banned_look) (simp_all add: ban_peer_def with_db_ok)
  next
    case False
    then show thesis using assms(1) that [of "np_disk n"] by (simp add: is_banned_look)
  qed
  have d1: "(if c + 1 \<ge> t then ban_peer pid (status_name s @ ''_threshold_exceeded'') now (np_disk ?n1)
      else (np_disk ?n1, Inr ())) = (d, Inr ())" using d(1) by (auto split: if_splits)
  have "n' = (if s \<in> {MALFORMED, INVALID} \<or> c + 1 \<ge> t then disconnect_peer addr (?n1\<lparr>np_disk := d\<rparr>) else ?n1\<lparr>np_disk := d\<rparr>)"
    using s by (simp only: n'_def handle_validation_status_def inc prod.case d1 sum.case Let_def fst_conv
        simp_thms not_True_eq_False if_False)
  then show "disk_ok (np_disk n')" "np_thresholds n' = np_thresholds n" "count_of s (peer_counts pid n') = c + 1"
    "is_peer_banned p (np_disk n') = Inr (is_peer_banned p (np_disk n) = Inr True \<or> p = pid \<and> c + 1 \<ge> t)"
    "np_out n' = np_out n @ (if s \<in> {MALFORMED, INVALID} \<or> c + 1 \<ge> t then [Disconnect addr] else [])"
    using d(2) by (simp_all add: disconnect_peer_def send_command_def peer_counts_def count_of_def update_look)
qed

lemma handle_returns:
  assumes "disk_ok (np_disk n)"
  shows "snd (handle_validation_status now pid addr s n) = Inr ()"
    "np_tasks (fst (handle_validation_status now pid addr s n)) = np_tasks n"
proof -
  obtain n1 b where i: "increment_counter pid s n = (n1, b)" by fastforce
  then have d: "np_disk n1 = np_disk n" "np_tasks n1 = np_tasks n" by (auto simp: increment_counter_def Let_def)
  have "ban_peer pid r now (np_disk n) = (fst (ban_peer pid r now (np_disk n)), Inr ())" for r
    using assms by (simp add: ban_peer_def with_db_ok)
  then obtain d' where "(if b then ban_peer pid (status_name s @ ''_threshold_exceeded'') now (np_disk n1)
      else (np_disk n1, Inr ())) = (d', Inr ())" by (cases b) (auto simp: d)
  then show "snd (handle_validation_status now pid addr s n) = Inr ()"
    "np_tasks (fst (handle_validation_status now pid addr s n)) = np_tasks n"
    by (simp_all add: handle_validation_status_def i Let_def disconnect_peer_def send_command_def d)
qed

lemma decay_ok:
  assumes "counters_ok n"
  shows "counters_ok (decay_counters n)"
proof -
  have "distinct (map fst (filter P (map (\<lambda>(p, cs). (p, f cs)) xs)))" if "distinct (map fst xs)" for P f and xs :: "(string \<times> counts) list"
    using that by (intro distinct_map_filter) (simp add: o_def split_beta)
  then show ?thesis using assms
    by (fastforce simp: counters_ok_def decay_counters_def list_all_iff)
qed

subsection \<open>The contract of a handler\<close>

locale message_handler =
  fixes h :: "int \<Rightarrow> 'n handler" and good :: "'n \<Rightarrow> bool"
  assumes good_kept: "good a \<Longrightarrow> good (fst (fst (h now d (a, n))))"
    and core_kept: "np_core (snd (fst (h now d (a, n)))) = np_core n"
begin

definition inv :: "'n \<times> p2p \<Rightarrow> bool" where
  "inv st \<longleftrightarrow> good (fst st) \<and> network_ok (snd st)"

lemma read_status_inv: "inv st \<Longrightarrow> inv (fst (read_status (Some (h now)) d st))"
proof -
  assume "inv st"
  then have "inv (fst (h now d st))"
    using good_kept [of "fst st" now d "snd st"] core_kept [of now d "fst st" "snd st"] network_core
    by (auto simp: inv_def)
  then show ?thesis
    by (auto simp: read_status_def split: prod.splits sum.splits handler_error.splits)
qed

lemma policy_inv: "inv st \<Longrightarrow> inv (fst (policy now addr s st))"
  using handle_status_ok [of "snd st" now "peer_id_from_addr addr" addr s]
  by (auto simp: policy_def inv_def split: prod.splits sum.splits)

lemma accept_inv: "network_ok n \<Longrightarrow> network_ok (accept_message cr t p addr s n)"
proof -
  assume "network_ok n"
  then have "network_ok (case mark_seen cr t p n of Inl e \<Rightarrow> n | Inr n' \<Rightarrow> n')"
    using mark_seen_ok by (auto split: sum.splits)
  then show ?thesis using network_core [OF core_simps(1)] by (simp add: accept_message_def Let_def)
qed

lemma read_message_inv:
  assumes "inv st"
  shows "inv (fst (read_message cr now (Some (h now')) d st))"
proof (cases "hash_key (field ''type'' d)")
  case (Inr k)
  show ?thesis
  proof (cases k)
    case (JStr t)
    show ?thesis
    proof (cases "is_duplicate cr t (field ''data'' d) (snd st)")
      case (Inl e)
      then show ?thesis using Inr JStr assms policy_inv by (simp add: read_message_def Let_def)
    next
      case dup: (Inr b)
      obtain st1 r where r: "read_status (Some (h now')) d st = (st1, r)" by fastforce
      with read_status_inv [OF assms, of now' d] have i1: "inv st1" by simp
      have p: "policy now a s st1 = (st2, x) \<Longrightarrow> inv st2" for a s st2 x
        using policy_inv [OF i1, of now a s] by simp
      have acc: "inv st2 \<Longrightarrow> inv (fst st2, accept_message cr t x a s (snd st2))" for st2 x a s
        using accept_inv by (auto simp: inv_def)
      show ?thesis using Inr JStr dup r i1 assms p acc
        by (auto simp: read_message_def Let_def split: bool.splits sum.splits option.splits prod.splits)
    qed
  qed (use Inr assms in \<open>simp_all add: read_message_def Let_def\<close>)
qed (simp add: read_message_def Let_def assms)

lemma reader_step_inv: "inv st \<Longrightarrow> inv (fst (reader_step cr now (Some (h now')) g m st))"
proof -
  assume i: "inv st"
  have tasks: "inv st' \<Longrightarrow> inv (fst st', run_tasks (snd st'))" for st'
    using network_core [OF core_simps(3)] by (simp add: inv_def)
  have send: "inv (fst st, send_command c (snd st))" for c
    using i network_core [OF core_simps(1)] by (simp add: inv_def)
  show ?thesis
  proof (cases m)
    case (Msg d)
    then show ?thesis using tasks [OF read_message_inv [OF i, of cr now now' d]]
      by (simp add: reader_step_def split_beta)
  next
    case (Malformed_from addr)
    then show ?thesis using tasks [OF policy_inv [OF i, of now addr MALFORMED]]
      by (simp add: reader_step_def split_beta)
  next
    case Peer_connected
    then show ?thesis using tasks [OF i] tasks [OF send]
      by (auto simp: reader_step_def split: option.splits)
  next
    case Unread
    then show ?thesis using tasks [OF i] by (simp add: reader_step_def)
  qed
qed

lemma run_reader_inv: "inv st \<Longrightarrow> inv (fst (run_reader cr (\<lambda>now. Some (h now)) g ms st))"
proof (induction ms arbitrary: st)
  case (Cons m ms)
  obtain now x where m: "m = (now, x)" by fastforce
  obtain st' r where s: "reader_step cr now (Some (h now)) g x st = (st', r)" by fastforce
  with reader_step_inv [OF Cons.prems, of cr now now g x] have "inv st'" by simp
  with Cons.IH [OF this] show ?case by (cases r) (simp_all add: m s)
qed simp

end

end
