(* ===== verification/PeersGuarantees.thy ===== *)
theory PeersGuarantees
  imports PeersInv ChainDemo
begin

section \<open>Guarantees of the peer-to-peer layer\<close>

subsection \<open>Messages on a stream\<close>

lemma parsed_frames:
  assumes "list_all (\<lambda>d. texts_ok (JObj d)) ds"
    and "list_all (\<lambda>d. length (canonical_json_dumps (JObj d)) + 4096 \<le> MAX_FRAME_BYTES) ds"
    and "concat xs = concat (map (\<lambda>d. frame (JObj d)) ds)" "list_all (\<lambda>x. x \<noteq> [] \<and> length x \<le> 4096) xs"
  shows "read_stream addr [] xs = map (\<lambda>d. Msg (dict_set ''_peer_addr'' (JStr addr) (norm_dict d))) ds"
proof -
  let ?js = "map JObj ds"
  have "split_lines (concat xs) = (map canonical_json_dumps ?js, [])"
    using split_frames [of ?js] assms(1,3) by (simp add: list.pred_map o_def)
  then have "read_stream addr [] xs = List.map_filter (parse_line addr) (map canonical_json_dumps ?js)"
    using assms(2,4) by (subst read_stream_lines [where k = 4096]) (simp_all add: list.pred_map o_def MAX_FRAME_BYTES_def)
  also have "\<dots> = map (\<lambda>d. Msg (dict_set ''_peer_addr'' (JStr addr) (norm_dict d))) ds"
    using assms(1) by (induction ds) (simp_all add: map_filter_simps parse_frame_line del: texts_ok.simps)
  finally show ?thesis .
qed

text \<open>A line that does not fit.\<close>

lemma too_long:
  assumes "\<not> list_ex newline l" "MAX_FRAME_BYTES \<le> length l" "buf @ concat xs = l @ s" "s \<noteq> []"
    and "length buf \<le> MAX_FRAME_BYTES" "list_all (\<lambda>x. x \<noteq> []) xs"
  shows "read_stream addr buf xs = [Malformed_from addr]"
  using assms(3,5,6)
proof (induction xs arbitrary: buf)
  case Nil
  then have "length l + length s \<le> MAX_FRAME_BYTES" by (metis append_Nil2 concat.simps(1) length_append)
  with assms(2,4) show ?case by (cases s) simp_all
next
  case (Cons x xs)
  show ?case
  proof (cases "MAX_FRAME_BYTES < length (buf @ x)")
    case True
    then show ?thesis using Cons.prems(3) by (simp add: feed_def Let_def)
  next
    case False
    have e: "(buf @ x) @ concat xs = l @ s" using Cons.prems(1) by simp
    have "length (buf @ x) \<le> length l" using False assms(2) by linarith
    then have "buf @ x = take (length (buf @ x)) l" using arg_cong [OF e, of "take (length (buf @ x))"] by simp
    then have "set (buf @ x) \<subseteq> set l" using set_take_subset by metis
    then have "\<not> list_ex newline (buf @ x)" using assms(1) by (auto simp: list_ex_iff)
    then have "split_lines (buf @ x) = ([], buf @ x)" by (rule split_rest)
    moreover have "read_stream addr (buf @ x) xs = [Malformed_from addr]"
      using False Cons.prems(3) by (intro Cons.IH [OF e]) simp_all
    ultimately show ?thesis using False Cons.prems(3) by (simp add: feed_def Let_def map_filter_simps)
  qed
qed

text \<open>C36: however the bytes of a stream are cut into reads of at most 4096, the reader receives exactly
  the messages that were written, in order and each with the sender's address (keys in sorted
  order), if every message is at least 4096 bytes shorter than the largest frame. Of a message whose text
  reaches the largest frame (a long answer to a \<open>chain_request\<close> can) nothing arrives: it is
  reported as malformed, and nothing after it is read.\<close>

theorem messages_arrive:
  assumes "list_all (\<lambda>d. texts_ok (JObj d)) ds"
    and "\<forall>d \<in> set ds. length (canonical_json_dumps (JObj d)) + 4096 \<le> MAX_FRAME_BYTES"
    and "concat xs = concat (map (\<lambda>d. frame (JObj d)) ds)" "list_all (\<lambda>x. x \<noteq> [] \<and> length x \<le> 4096) xs"
    and "texts_ok (JObj e)" "concat ys = frame (JObj e) @ later" "list_all (\<lambda>y. y \<noteq> [] \<and> length y \<le> 4096) ys"
  shows "read_stream addr [] xs = map (\<lambda>d. Msg (dict_set ''_peer_addr'' (JStr addr) (norm_dict d))) ds
    \<and> (MAX_FRAME_BYTES \<le> length (canonical_json_dumps (JObj e)) \<longrightarrow> read_stream addr [] ys = [Malformed_from addr])"
proof
  show "read_stream addr [] xs = map (\<lambda>d. Msg (dict_set ''_peer_addr'' (JStr addr) (norm_dict d))) ds"
    using parsed_frames [OF assms(1) _ assms(3,4)] assms(2) by (simp add: list_all_iff)
  have "\<not> list_ex newline (canonical_json_dumps (JObj e))"
    using line_canonical [OF assms(5)] by (auto simp: line_text_def newline_def list_all_iff list_ex_iff)
  moreover have "[] @ concat ys = canonical_json_dumps (JObj e) @ (char_of (10::nat) # later)"
    using assms(6) by (simp add: frame_def)
  ultimately show "MAX_FRAME_BYTES \<le> length (canonical_json_dumps (JObj e)) \<longrightarrow> read_stream addr [] ys = [Malformed_from addr]"
    using assms(7) by (intro impI too_long [where l = "canonical_json_dumps (JObj e)"]) (auto simp: list_all_iff)
qed

theorem messages_arrive_witness:
  "read_stream ''peer:q'' [] [''{\"type'', ''\":\"hello\"}'' @ [char_of (10::nat)]]
     = [Msg [(''type'', JStr ''hello''), (''_peer_addr'', JStr ''peer:q'')]]"
proof -
  have c: "canonical_json_dumps (JObj [(''type'', JStr ''hello'')]) = ''{\"type\":\"hello\"}''" by code_simp
  have u: "utf8_text ''type'' \<and> utf8_text ''hello''" by (simp add: utf8_ascii)
  show ?thesis
    using messages_arrive [of "[[(''type'', JStr ''hello'')]]" "[''{\"type'', ''\":\"hello\"}'' @ [char_of (10::nat)]]"
        "[(''type'', JStr ''hello'')]" "[''{\"type'', ''\":\"hello\"}'' @ [char_of (10::nat)]]" "[]" "''peer:q''"]
    by (simp add: c u frame_def MAX_FRAME_BYTES_def norm_dict_def)
qed

subsection \<open>Messages seen\<close>

lemma remember_last: "\<exists>us. remember k ks = us @ [k]"
proof -
  have "tl (us @ [k]) = tl us @ [k] \<or> us = []" for us by (cases us) auto
  moreover have "\<not> length [k] > SEEN_CACHE_MAX" by (simp add: SEEN_CACHE_MAX_def)
  ultimately show ?thesis unfolding remember_def Let_def by (metis append_Nil)
qed

lemma remember_keeps:
  assumes "ks = us @ k # vs" "length vs < m" "m < SEEN_CACHE_MAX"
  shows "\<exists>us' vs'. remember x ks = us' @ k # vs' \<and> length vs' \<le> m"
proof (cases "x = k")
  case True
  obtain us' where "remember k ks = us' @ [k]" using remember_last by blast
  with True show ?thesis by (intro exI [of _ us'] exI [of _ "[]"]) simp
next
  case False
  let ?us = "filter (\<lambda>y. y \<noteq> x) us" and ?vs = "filter (\<lambda>y. y \<noteq> x) vs @ [x]"
  have f: "filter (\<lambda>y. y \<noteq> x) ks @ [x] = ?us @ k # ?vs" using assms(1) False by simp
  have l: "length ?vs \<le> m" using assms(2) length_filter_le [of "\<lambda>y. y \<noteq> x" vs] by (simp del: length_filter_le)
  show ?thesis
  proof (cases ?us)
    case Nil
    then have "remember x ks = k # ?vs" using f l assms(3) by (simp add: remember_def Let_def)
    then show ?thesis using l by (intro exI [of _ "[]"] exI [of _ ?vs]) simp
  next
    case (Cons u us')
    then have "remember x ks = us' @ k # ?vs \<or> remember x ks = (u # us') @ k # ?vs"
      using f by (auto simp: remember_def Let_def)
    then show ?thesis using l by blast
  qed
qed

lemma remembered_long:
  assumes "ks = us @ k # vs" "length vs + length xs < SEEN_CACHE_MAX"
  shows "k \<in> set (fold remember xs ks)"
  using assms
proof (induction xs arbitrary: ks us vs)
  case (Cons x xs)
  from remember_keeps [OF Cons.prems(1), of "Suc (length vs)" x] Cons.prems(2)
  obtain us' vs' where "remember x ks = us' @ k # vs'" "length vs' \<le> Suc (length vs)" by auto
  with Cons.IH [of "remember x ks" us' vs'] Cons.prems(2) show ?case by simp
qed simp

text \<open>The messages of one type that are marked as seen.\<close>

definition mark_each :: "'a crypto_scheme \<Rightarrow> string \<Rightarrow> json list \<Rightarrow> p2p \<Rightarrow> p2p" where
  "mark_each cr t ps n = fold (\<lambda>p n. case mark_seen cr t p n of Inl e \<Rightarrow> n | Inr n' \<Rightarrow> n') ps n"

lemma mark_seen_set:
  "mark_seen cr t p n = Inr n' \<Longrightarrow>
    seen_set t n' = (case seen_key cr t p of Inr (Some k) \<Rightarrow> remember k (seen_set t n) | _ \<Rightarrow> seen_set t n)"
  by (auto simp: mark_seen_def seen_set_def split: sum.splits option.splits if_splits)

lemma mark_each_set:
  "\<exists>ks. seen_set t (mark_each cr t ps n) = fold remember ks (seen_set t n) \<and> length ks \<le> length ps"
proof (induction ps arbitrary: n)
  case (Cons p ps)
  show ?case
  proof (cases "mark_seen cr t p n")
    case (Inl e)
    then show ?thesis using Cons [of n] by (auto simp: mark_each_def)
  next
    case (Inr n')
    obtain ks where ks: "seen_set t (mark_each cr t ps n') = fold remember ks (seen_set t n')" "length ks \<le> length ps"
      using Cons by blast
    have "\<exists>k. seen_set t n' = remember k (seen_set t n) \<or> seen_set t n' = seen_set t n"
      using mark_seen_set [OF Inr] by (auto split: sum.splits option.splits)
    then obtain k where k: "seen_set t n' = fold remember [k] (seen_set t n) \<or> seen_set t n' = fold remember [] (seen_set t n)"
      by auto
    have e: "mark_each cr t (p # ps) n = mark_each cr t ps n'" using Inr by (simp add: mark_each_def)
    from k show ?thesis unfolding e ks(1)
    proof
      assume "seen_set t n' = fold remember [k] (seen_set t n)"
      then show "\<exists>ks'. fold remember ks (seen_set t n') = fold remember ks' (seen_set t n) \<and> length ks' \<le> length (p # ps)"
        using ks(2) by (intro exI [of _ "k # ks"]) simp
    next
      assume "seen_set t n' = fold remember [] (seen_set t n)"
      then show "\<exists>ks'. fold remember ks (seen_set t n') = fold remember ks' (seen_set t n) \<and> length ks' \<le> length (p # ps)"
        using ks(2) by (intro exI [of _ ks]) simp
    qed
  qed
qed (auto simp: mark_each_def intro: exI [of _ "[]"])

text \<open>a message that was marked is recognised as a duplicate while fewer than \<open>SEEN_CACHE_MAX\<close>
  others are marked after it.\<close>

lemma seen_window:
  assumes "seen_key cr t payload = Inr (Some k)" "mark_seen cr t payload n = Inr n'"
    and "length ps < SEEN_CACHE_MAX"
  shows "is_duplicate cr t payload (mark_each cr t ps n') = Inr True"
proof -
  have "seen_set t n' = remember k (seen_set t n)" using mark_seen_set [OF assms(2)] assms(1) by simp
  then obtain us where us: "seen_set t n' = us @ k # []" using remember_last by metis
  obtain ks where ks: "seen_set t (mark_each cr t ps n') = fold remember ks (seen_set t n')" "length ks \<le> length ps"
    using mark_each_set by blast
  have "k \<in> set (fold remember ks (seen_set t n'))"
    using remembered_long [OF us, of ks] ks(2) assms(3) by simp
  then show ?thesis by (simp add: is_duplicate_def assms(1) ks(1))
qed

definition quiet :: p2p where
  "quiet = \<lparr>np_seen_tx = [], np_seen_blocks = [],
     np_thresholds = [(MALFORMED, 3), (FAILED, 10), (INVALID, 1)],
     np_counters = [], np_disk = no_disk, np_peer_id = None, np_out = [], np_tasks = []\<rparr>"

lemma new_quiet: "new_p2p no_disk 10 3 10 1 = Inr quiet"
  by (simp add: new_p2p_def quiet_def)

definition block_named :: "string \<Rightarrow> json" where
  "block_named h = JObj [(''hash'', JStr h)]"

lemma seen_window_witness:
  "\<exists>n. mark_seen flat_ext ''block'' (block_named ''a'') quiet = Inr n
     \<and> is_duplicate flat_ext ''block'' (block_named ''a'') (mark_each flat_ext ''block'' [block_named ''b''] n) = Inr True"
proof -
  have k: "seen_key flat_ext ''block'' (block_named ''a'') = Inr (Some (JStr ''a''))"
    by (simp add: seen_key_def message_id_def payload_hash_def block_named_def)
  then have m: "mark_seen flat_ext ''block'' (block_named ''a'') quiet = Inr (quiet\<lparr>np_seen_blocks := [JStr ''a'']\<rparr>)"
    by (simp add: mark_seen_def quiet_def remember_def SEEN_CACHE_MAX_def)
  from seen_window [OF k m, of "[block_named ''b'']"] m show ?thesis by (simp add: SEEN_CACHE_MAX_def)
qed

subsection \<open>The reader\<close>

lemma hash_key_text: "hash_key (JStr s) = Inr (JStr s)"
  by simp

lemma seen_of_core: "np_core n' = np_core n \<Longrightarrow> seen_set t n' = seen_set t n"
  by (auto simp: np_core_def seen_set_def)

lemma policy_seen: "seen_set t (snd (fst (policy now addr s st))) = seen_set t (snd st)"
  by (auto simp: policy_def handle_validation_status_def increment_counter_def Let_def seen_set_def
      disconnect_peer_def send_command_def split: prod.splits sum.splits if_splits)

lemma accept_seen:
  "seen_set t (accept_message cr u p addr s n) = seen_set t n
     \<or> (\<exists>k. seen_set t (accept_message cr u p addr s n) = remember k (seen_set t n))"
proof -
  have c: "seen_set t (send_command c n') = seen_set t n'" for c n' by (simp add: seen_set_def send_command_def)
  have "seen_set t n' = seen_set t n \<or> (\<exists>k. seen_set t n' = remember k (seen_set t n))" if "mark_seen cr u p n = Inr n'" for n'
    using that by (auto simp: mark_seen_def seen_set_def split: sum.splits option.splits if_splits)
  then show ?thesis by (auto simp: accept_message_def Let_def c split: sum.splits)
qed

text \<open>What is read marks at most one key.\<close>

lemma step_seen:
  assumes core: "\<And>now d st. np_core (snd (fst (h now d st))) = np_core (snd st)"
  shows "\<exists>ks. length ks \<le> 1 \<and> seen_set t (snd (fst (reader_step cr now (Some (h now')) g m st))) = fold remember ks (seen_set t (snd st))"
proof -
  have r: "seen_set t (snd (fst (read_status (Some (h now')) d st))) = seen_set t (snd st)" for d st
    using seen_of_core [OF core [of now' d st]]
    by (auto simp: read_status_def split: prod.splits sum.splits handler_error.splits)
  have a: "\<exists>ks. length ks \<le> 1 \<and> seen_set t (accept_message cr u p addr s n) = fold remember ks (seen_set t n)" for u p addr s n
    using accept_seen [of t cr u p addr s n]
  proof
    assume "\<exists>k. seen_set t (accept_message cr u p addr s n) = remember k (seen_set t n)"
    then obtain k where "seen_set t (accept_message cr u p addr s n) = fold remember [k] (seen_set t n)" by auto
    then show ?thesis by (intro exI [of _ "[k]"]) simp
  qed (intro exI [of _ "[]"], simp)
  define P where "P A = (\<exists>ks. length ks \<le> 1 \<and> A = fold remember ks (seen_set t (snd st)))" for A
  have none: "A = seen_set t (snd st) \<Longrightarrow> P A" for A unfolding P_def by (intro exI [of _ "[]"]) simp
  have acc: "seen_set t n = seen_set t (snd st) \<Longrightarrow> P (seen_set t (accept_message cr u p addr s n))" for n u p addr s
    unfolding P_def using a [of u p addr s n] by metis
  have "P (seen_set t (snd (fst (read_message cr now (Some (h now')) d st))))" for d
  proof (cases "hash_key (field ''type'' d)")
    case (Inl e)
    then show ?thesis using none by (simp add: read_message_def Let_def)
  next
    case (Inr k)
    show ?thesis
    proof (cases k)
      case (JStr u)
      obtain st1 rs where rs: "read_status (Some (h now')) d st = (st1, rs)" by fastforce
      with r [of d st] have 1: "seen_set t (snd st1) = seen_set t (snd st)" by simp
      have 3: "policy now x v st1 = (st2, y) \<Longrightarrow> seen_set t (snd st2) = seen_set t (snd st)" for x v st2 y
        using policy_seen [of t now x v st1] 1 by simp
      show ?thesis
      proof (cases "is_duplicate cr u (field ''data'' d) (snd st)")
        case (Inl e)
        then show ?thesis using Inr JStr none by (simp add: read_message_def Let_def policy_seen)
      next
        case (Inr b)
        note dup = this
        show ?thesis
        proof (cases rs)
          case (Inl e)
          then show ?thesis using \<open>hash_key _ = _\<close> JStr dup rs 1 none by (cases b) (simp_all add: read_message_def Let_def)
        next
          case (Inr s)
          obtain st2 y where p: "(case s of None \<Rightarrow> (st1, Inr ()) | Some v \<Rightarrow> policy now (sender_addr d) v st1) = (st2, y)"
            by fastforce
          with 1 3 have 2: "seen_set t (snd st2) = seen_set t (snd st)" by (cases s) auto
          show ?thesis using \<open>hash_key _ = _\<close> JStr dup rs Inr p none [OF 2] acc [OF 2] none [OF refl]
            by (cases b; cases y) (simp_all add: read_message_def Let_def)
        qed
      qed
    qed (use Inr none in \<open>simp_all add: read_message_def Let_def\<close>)
  qed
  moreover have "seen_set t (run_tasks n) = seen_set t n" "seen_set t (send_command c n) = seen_set t n" for c n
    by (simp_all add: seen_set_def run_tasks_def send_command_def)
  ultimately have "P (seen_set t (snd (fst (reader_step cr now (Some (h now')) g m st))))"
    using none by (cases m) (simp_all add: reader_step_def split_beta policy_seen split: option.split)
  then show ?thesis unfolding P_def .
qed

lemma step_idle: "np_tasks (snd (fst (reader_step cr now h g m st))) = []"
  by (simp add: reader_step_def split_beta run_tasks_def)

lemma run_seen:
  assumes "\<And>now d st. np_core (snd (fst (h now d st))) = np_core (snd st)"
  shows "\<exists>ks. length ks \<le> length ms
    \<and> seen_set t (snd (fst (run_reader cr (\<lambda>t. Some (h t)) g ms st))) = fold remember ks (seen_set t (snd st))"
proof (induction ms arbitrary: st)
  case (Cons e ms)
  obtain now m where e: "e = (now, m)" by fastforce
  obtain st' r where s: "reader_step cr now (Some (h now)) g m st = (st', r)" by fastforce
  obtain ks where ks: "length ks \<le> 1" "seen_set t (snd st') = fold remember ks (seen_set t (snd st))"
    using step_seen [of h t cr now now g m st, OF assms] s by auto
  show ?case
  proof (cases r)
    case (Inl x)
    then show ?thesis using ks s e by (intro exI [of _ ks]) simp
  next
    case (Inr x)
    obtain ls where "length ls \<le> length ms"
      "seen_set t (snd (fst (run_reader cr (\<lambda>t. Some (h t)) g ms st'))) = fold remember ls (seen_set t (snd st'))"
      using Cons by blast
    then show ?thesis using ks s e Inr by (intro exI [of _ "ks @ ls"]) simp
  qed
qed (intro exI [of _ "[]"], simp)

lemma run_idle: "np_tasks (snd st) = [] \<Longrightarrow> np_tasks (snd (fst (run_reader cr h g ms st))) = []"
proof (induction ms arbitrary: st)
  case (Cons e ms)
  obtain now m where e: "e = (now, m)" by fastforce
  show ?case using step_idle [of cr now "h now" g m st] Cons.IH [of "fst (reader_step cr now (h now) g m st)"]
    by (auto simp: e split: prod.splits sum.splits)
qed simp

text \<open>C37: valid content travels once while it is remembered. The first time a message is read and the
  handler accepts it, it is sent on to every peer but its sender; when anyone sends it again
  after fewer than 10000 other messages were read (of any kind, valid or not, with any number of
  repetitions), nothing happens. The cache holds 10000 keys and forgets the oldest, so content can
  travel again after that.\<close>

theorem gossip_once:
  assumes "field ''type'' d = JStr t" "t \<in> {''tx'', ''block''}"
    and "seen_key cr t (field ''data'' d) = Inr (Some k)" "k \<notin> set (seen_set t n)" "np_tasks n = []"
    and "h now d (a, n) = ((a', n), Inr (Some VALID))" "VALID \<notin> fst ` set (np_thresholds n)"
    and "field ''type'' d' = JStr t" "field ''data'' d' = field ''data'' d"
    and "\<forall>now d st. np_core (snd (fst (h now d st))) = np_core (snd st)" "length ms < 10000"
  shows "\<exists>n' a2 n2. reader_step cr now (Some (h now)) g (Msg d) (a, n) = ((a', n'), Inr ())
    \<and> np_out n' = np_out n @ [Broadcast (message t (field ''data'' d)) (Some (sender_addr d))]
    \<and> fst (run_reader cr (\<lambda>t. Some (h t)) g ms (a', n')) = (a2, n2)
    \<and> reader_step cr now' (Some (h now')) g (Msg d') (a2, n2) = ((a2, n2), Inr ())"
proof -
  let ?p = "field ''data'' d"
  obtain n1 where m: "mark_seen cr t ?p n = Inr n1" using assms(3) by (simp add: mark_seen_def)
  have out: "np_out n1 = np_out n" "np_tasks n1 = []" using m assms(3,5)
    by (auto simp: mark_seen_def split: if_splits)
  let ?n' = "send_command (Broadcast (message t ?p) (Some (sender_addr d))) n1"
  have t: "t \<in> set SUPPORTED_MESSAGE_TYPES" using assms(2) by (auto simp: SUPPORTED_MESSAGE_TYPES_def)
  have fresh: "is_duplicate cr t ?p n = Inr False" using assms(3,4) by (simp add: is_duplicate_def)
  have pol: "policy now (sender_addr d) VALID (a', n) = ((a', n), Inr ())"
    using assms(7) by (simp add: policy_def handle_validation_status_def)
  have acc: "accept_message cr t ?p (sender_addr d) (Some VALID) n = ?n'"
    using m assms(2) by (simp add: accept_message_def)
  have idle: "run_tasks ?n' = ?n'" "np_tasks ?n' = []" using out(2) by (simp_all add: run_tasks_def send_command_def)
  have s1: "reader_step cr now (Some (h now)) g (Msg d) (a, n) = ((a', ?n'), Inr ())"
    using t fresh pol acc idle
    by (simp add: reader_step_def read_message_def assms(1,6) Let_def read_status_def)
  have "seen_set t ?n' = remember k (seen_set t n)"
    using mark_seen_set [OF m] assms(3) by (auto simp: seen_set_def send_command_def split: if_splits)
  then obtain us where us: "seen_set t ?n' = us @ k # []" using remember_last [of k "seen_set t n"] by auto
  obtain a2 n2 where r: "fst (run_reader cr (\<lambda>t. Some (h t)) g ms (a', ?n')) = (a2, n2)" by fastforce
  obtain ks where ks: "length ks \<le> length ms" "seen_set t n2 = fold remember ks (seen_set t ?n')"
    using run_seen [of h ms t cr g "(a', ?n')"] assms(10) r by auto
  have "k \<in> set (seen_set t n2)"
    using remembered_long [OF us, of ks] ks assms(11) by (simp add: SEEN_CACHE_MAX_def)
  then have dup: "is_duplicate cr t ?p n2 = Inr True" using assms(3) by (simp add: is_duplicate_def)
  have "np_tasks n2 = []" using run_idle [of "(a', ?n')" cr "\<lambda>t. Some (h t)" g ms] idle(2) r by simp
  then have "run_tasks n2 = n2" by (simp add: run_tasks_def)
  with dup have "reader_step cr now' (Some (h now')) g (Msg d') (a2, n2) = ((a2, n2), Inr ())"
    using t by (simp add: reader_step_def read_message_def assms(8,9) Let_def)
  with s1 r show ?thesis using out by (intro exI [of _ ?n'] exI [of _ a2] exI [of _ n2]) (simp add: send_command_def)
qed

definition agree :: "int \<Rightarrow> unit handler" where
  "agree now d st = (st, Inr (Some VALID))"

definition block_from :: "string \<Rightarrow> string \<Rightarrow> json dict" where
  "block_from h addr = [(''type'', JStr ''block''), (''data'', block_named h), (''_peer_addr'', JStr addr)]"

text \<open>The block \<open>a\<close>, then the block \<open>b\<close>, then \<open>a\<close> again.\<close>

theorem gossip_once_witness:
  "\<exists>n' st2. np_out n' = [Broadcast (message ''block'' (block_named ''a'')) (Some ''peer:q'')]
    \<and> reader_step flat_ext 5 (Some (agree 5)) (\<lambda>_. None) (Msg (block_from ''a'' ''peer:q'')) ((), quiet) = (((), n'), Inr ())
    \<and> fst (run_reader flat_ext (\<lambda>t. Some (agree t)) (\<lambda>_. None) [(6, Msg (block_from ''b'' ''peer:r''))] ((), n')) = st2
    \<and> reader_step flat_ext 7 (Some (agree 7)) (\<lambda>_. None) (Msg (block_from ''a'' ''peer:r'')) st2 = (st2, Inr ())"
proof -
  have f: "field ''type'' (block_from x p) = JStr ''block''" "field ''data'' (block_from x p) = block_named x"
    "sender_addr (block_from x p) = p" for x p
    by (simp_all add: field_def block_from_def sender_addr_def)
  have k: "seen_key flat_ext ''block'' (block_named ''a'') = Inr (Some (JStr ''a''))"
    by (simp add: seen_key_def message_id_def payload_hash_def block_named_def)
  have q: "JStr ''a'' \<notin> set (seen_set ''block'' quiet)" "np_tasks quiet = []"
    "VALID \<notin> fst ` set (np_thresholds quiet)" "np_out quiet = []"
    by (simp_all add: quiet_def seen_set_def)
  have h: "\<forall>now d st. np_core (snd (fst (agree now d st))) = np_core (snd st)" by (simp add: agree_def)
  have a: "agree 5 (block_from ''a'' ''peer:q'') ((), quiet) = (((), quiet), Inr (Some VALID))" by (simp add: agree_def)
  have b: "''block'' \<in> {''tx'', ''block'' :: string}" "length [(6 :: int, Msg (block_from ''b'' ''peer:r''))] < 10000" by simp_all
  have k': "seen_key flat_ext ''block'' (field ''data'' (block_from ''a'' ''peer:q'')) = Inr (Some (JStr ''a''))"
    by (simp only: f k)
  have d: "field ''data'' (block_from ''a'' ''peer:r'') = field ''data'' (block_from ''a'' ''peer:q'')" by (simp only: f)
  from gossip_once [OF f(1) b(1) k' q(1,2) a q(3) f(1) d h b(2), of "\<lambda>_. None" 7] show ?thesis
    unfolding f q(4) append_Nil by metis
qed

lemma policy_goes_on: "snd (policy now addr s st) \<noteq> Inl Unhashable_type"
  by (auto simp: policy_def split: prod.splits sum.splits)

lemma policy_error: "policy now addr s st = (st', Inl e) \<Longrightarrow> e \<noteq> Unhashable_type"
  using policy_goes_on [of now addr s st] by auto

lemma status_error: "read_status h d st = (st', Inl e) \<Longrightarrow> e \<noteq> Unhashable_type"
  by (auto simp: read_status_def split: option.splits prod.splits sum.splits handler_error.splits)

lemma read_unhashable:
  "snd (read_message cr now h d st) = Inl Unhashable_type \<longleftrightarrow> (\<exists>e. hash_key (field ''type'' d) = Inl e)"
proof (cases "hash_key (field ''type'' d)")
  case (Inl e)
  then show ?thesis by (simp add: read_message_def Let_def)
next
  case (Inr k)
  have "snd (read_message cr now h d st) \<noteq> Inl Unhashable_type"
  proof (cases k)
    case (JStr t)
    obtain st1 rs where rs: "read_status h d st = (st1, rs)" by fastforce
    show ?thesis
    proof (cases "is_duplicate cr t (field ''data'' d) (snd st)")
      case (Inl e')
      then show ?thesis using Inr JStr by (simp add: read_message_def Let_def policy_goes_on)
    next
      case dup: (Inr b)
      show ?thesis using Inr JStr dup rs
        by (auto simp: read_message_def Let_def split: prod.splits sum.splits bool.splits option.splits
            dest: policy_error status_error)
    qed
  qed (use Inr in \<open>simp_all add: read_message_def Let_def\<close>)
  with Inr show ?thesis by simp
qed

lemma unhashable: "(\<exists>e. hash_key j = Inl e) \<longleftrightarrow> (\<exists>xs. j = JArr xs) \<or> (\<exists>kvs. j = JObj kvs)"
  by (cases j) auto

lemma step_unhashable:
  "snd (reader_step cr now h g m st) = Inl Unhashable_type
     \<longleftrightarrow> (\<exists>d. m = Msg d \<and> (\<exists>e. hash_key (field ''type'' d) = Inl e))"
proof (cases m)
  case (Msg d)
  then show ?thesis using read_unhashable [of cr now h d st] by (simp add: reader_step_def split_beta)
next
  case (Malformed_from addr)
  then show ?thesis by (simp add: reader_step_def split_beta policy_goes_on)
qed (simp_all add: reader_step_def split: option.splits)

definition deafening :: "json dict" where
  "deafening = [(''type'', JArr [])]"

text \<open>only a message whose type is a list or a dictionary ends the reader's task with an
  exception of its own (the membership test needs a hash); and a peer can send one, as the line
  \<open>{"type":[]}\<close>. The node then hears nothing any more.\<close>

lemma reader_stopped_by_type:
  "(snd (reader_step cr now h g m st) = Inl Unhashable_type
     \<longleftrightarrow> (\<exists>d. m = Msg d \<and> ((\<exists>xs. field ''type'' d = JArr xs) \<or> (\<exists>kvs. field ''type'' d = JObj kvs))))
   \<and> (\<exists>d. read_stream addr [] [frame (JObj deafening)] = [Msg d]
        \<and> snd (reader_step cr now h g (Msg d) st) = Inl Unhashable_type)"
proof (intro conjI exI)
  show "snd (reader_step cr now h g m st) = Inl Unhashable_type
     \<longleftrightarrow> (\<exists>d. m = Msg d \<and> ((\<exists>xs. field ''type'' d = JArr xs) \<or> (\<exists>kvs. field ''type'' d = JObj kvs)))"
    by (simp only: step_unhashable unhashable)
  let ?d = "dict_set ''_peer_addr'' (JStr addr) (norm_dict deafening)"
  have "canonical_json_dumps (JObj deafening) = ''{\"type\":[]}''" by code_simp
  then show "read_stream addr [] [frame (JObj deafening)] = [Msg ?d]"
    using parsed_frames [of "[deafening]" "[frame (JObj deafening)]" addr]
    by (simp add: deafening_def frame_def MAX_FRAME_BYTES_def utf8_ascii)
  show "snd (reader_step cr now h g (Msg ?d) st) = Inl Unhashable_type"
    by (simp add: step_unhashable deafening_def norm_dict_def field_def)
qed

subsection \<open>Misbehaviour\<close>

text \<open>A number of statuses of one kind in a row.\<close>

definition misbehave :: "int \<Rightarrow> string \<Rightarrow> string \<Rightarrow> validation_status \<Rightarrow> nat \<Rightarrow> p2p \<Rightarrow> p2p" where
  "misbehave now pid addr s k n = ((\<lambda>n. fst (handle_validation_status now pid addr s n)) ^^ k) n"

lemma misbehave_steps:
  fixes now :: int and addr :: string
  assumes "disk_ok (np_disk n)" "map_of (np_thresholds n) s = Some t" "count_of s (peer_counts pid n) = 0" "0 < t"
  defines "n' k \<equiv> misbehave now pid addr s k n"
  shows "disk_ok (np_disk (n' k)) \<and> np_thresholds (n' k) = np_thresholds n \<and> count_of s (peer_counts pid (n' k)) = int k
    \<and> is_peer_banned p (np_disk (n' k)) = Inr (is_peer_banned p (np_disk n) = Inr True \<or> p = pid \<and> t \<le> int k)
    \<and> np_out (n' k) = np_out n @ replicate (if s \<in> {MALFORMED, INVALID} then k else k - nat (t - 1)) (Disconnect addr)"
proof (induction k)
  case 0
  have "is_peer_banned p (np_disk n) = Inr (banned.look (disk_db (np_disk n)) p \<noteq> None)"
    by (rule is_banned_look [OF assms(1)])
  then show ?case using assms by (auto simp: misbehave_def)
next
  case (Suc k)
  have n: "n' (Suc k) = fst (handle_validation_status now pid addr s (n' k))" by (simp add: n'_def misbehave_def)
  have "map_of (np_thresholds (n' k)) s = Some t" using Suc assms(2) by simp
  note h = handle_once [OF _ this, where pid = pid and c = "int k" and now = now and addr = addr, folded n]
  have r: "replicate (Suc i) x = replicate i x @ [x]" for i and x :: command
    by (simp add: replicate_append_same)
  have "Suc k - nat (t - 1) = (if t \<le> int k + 1 then Suc (k - nat (t - 1)) else 0)"
    "\<not> t \<le> int k + 1 \<Longrightarrow> k - nat (t - 1) = 0"
    using assms(4) by auto
  then show ?case using h(1-3) h(4) [of p] h(5) Suc assms(4) r by (auto simp del: replicate.simps)
qed

text \<open>C38: a peer is banned exactly when its counter of a status reaches the threshold, and no other
  peer is; every malformed or invalid message breaks the connection, a failed one only with the ban.\<close>

theorem ban_at_threshold:
  assumes "disk_ok (np_disk n)" "map_of (np_thresholds n) s = Some t" "0 < t"
    and "count_of s (peer_counts pid n) = 0" "is_peer_banned p (np_disk n) = Inr False"
  shows "is_peer_banned p (np_disk (misbehave now pid addr s k n)) = Inr (p = pid \<and> t \<le> int k)
    \<and> np_out (misbehave now pid addr s k n)
       = np_out n @ replicate (if s \<in> {MALFORMED, INVALID} then k else k - nat (t - 1)) (Disconnect addr)"
  using misbehave_steps [OF assms(1,2,4,3)] assms(5) by simp

theorem ban_at_threshold_witness:
  "is_peer_banned ''q'' (np_disk (misbehave 7 ''q'' ''peer:q'' FAILED 9 quiet)) = Inr False
    \<and> is_peer_banned ''q'' (np_disk (misbehave 7 ''q'' ''peer:q'' FAILED 10 quiet)) = Inr True
    \<and> np_out (misbehave 7 ''q'' ''peer:q'' FAILED 10 quiet) = [Disconnect ''peer:q'']"
proof -
  have q: "disk_ok (np_disk quiet)" "map_of (np_thresholds quiet) FAILED = Some 10" "(0::int) < 10"
    "count_of FAILED (peer_counts ''q'' quiet) = 0" "is_peer_banned ''q'' (np_disk quiet) = Inr False" "np_out quiet = []"
    by (simp_all add: quiet_def no_disk_def disk_ok_def peer_counts_def count_of_def is_peer_banned_def peer_rows_def)
  note b = ban_at_threshold [OF q(1-5), where now = 7 and addr = "''peer:q''"]
  show ?thesis using b [where k = 9] b [where k = 10] by (simp add: q(6))
qed

subsection \<open>Decay\<close>

lemma count_halved: "count_of s (map (\<lambda>(s, c). (s, c div 2)) cs) = count_of s cs div 2"
  by (induction cs) (auto simp: count_of_def)

lemma count_none: "list_all (\<lambda>(s, c). 0 \<le> c) cs \<Longrightarrow> \<not> list_ex (\<lambda>(s, c). 0 < c) cs \<Longrightarrow> count_of s cs = 0"
  by (induction cs) (auto simp: count_of_def)

lemma count_default: "count_of s (map (\<lambda>(s, _). (s, 0)) ts) = 0"
  by (induction ts) (auto simp: count_of_def)

lemma count_nonneg: "list_all (\<lambda>(s, c). 0 \<le> c) cs \<Longrightarrow> 0 \<le> count_of s cs"
  by (induction cs) (auto simp: count_of_def)

lemma decay_look:
  "distinct (map fst cs) \<Longrightarrow> map_of (filter (\<lambda>(p, x). P x) (map (\<lambda>(p, x). (p, f x)) cs)) p
     = (case map_of cs p of None \<Rightarrow> None | Some x \<Rightarrow> if P (f x) then Some (f x) else None)"
proof (induction cs)
  case (Cons a cs)
  obtain q x where a: "a = (q, x)" by fastforce
  show ?case
  proof (cases "q = p")
    case True
    with Cons.prems a have "map_of cs p = None" by (auto simp: map_of_eq_None_iff)
    with Cons a True show ?thesis by simp
  qed (use Cons a in simp)
qed simp

lemma decay_count:
  assumes "counters_ok n"
  shows "count_of s (peer_counts p (decay_counters n)) = count_of s (peer_counts p n) div 2"
proof (cases "map_of (np_counters n) p")
  case None
  then show ?thesis using assms
    by (simp add: peer_counts_def decay_counters_def counters_ok_def decay_look count_default)
next
  case (Some cs)
  let ?h = "map (\<lambda>(s, c). (s, c div 2)) cs"
  have "list_all (\<lambda>(s, c). 0 \<le> c) cs"
    using assms map_of_SomeD [OF Some] by (auto simp: counters_ok_def list_all_iff)
  then have "list_all (\<lambda>(s, c). 0 \<le> c) ?h" by (auto simp: list_all_iff)
  then have "\<not> list_ex (\<lambda>(s, c). 0 < c) ?h \<Longrightarrow> count_of s cs div 2 = 0"
    using count_none count_halved by metis
  then show ?thesis using Some assms
    by (auto simp: peer_counts_def decay_counters_def counters_ok_def decay_look count_default count_halved)
qed

lemma half_again: "c div 2 ^ k div 2 = c div (2 * 2 ^ k)" for c :: int
  using zdiv_zmult2_eq [of 2 c "2 ^ k"] by (simp add: mult.commute)

lemma decays_look:
  assumes "counters_ok n"
  shows "counters_ok ((decay_counters ^^ k) n) \<and>
    (case map_of (np_counters ((decay_counters ^^ k) n)) p of None \<Rightarrow> True
     | Some cs \<Rightarrow> cs = map (\<lambda>(s, c). (s, c div 2 ^ k)) (peer_counts p n) \<and> (0 < k \<longrightarrow> list_ex (\<lambda>(s, c). 0 < c) cs))"
proof (induction k)
  case 0
  then show ?case using assms by (auto simp: peer_counts_def split: option.split)
next
  case (Suc k)
  let ?n = "(decay_counters ^^ k) n"
  have "counters_ok ?n" using Suc by blast
  then have "map_of (np_counters (decay_counters ?n)) p = (case map_of (np_counters ?n) p of None \<Rightarrow> None
      | Some cs \<Rightarrow> if list_ex (\<lambda>(s, c). 0 < c) (map (\<lambda>(s, c). (s, c div 2)) cs) then Some (map (\<lambda>(s, c). (s, c div 2)) cs) else None)"
    by (simp add: decay_counters_def counters_ok_def decay_look)
  then show ?case using Suc decay_ok [OF \<open>counters_ok ?n\<close>]
    by (auto simp: o_def split_beta half_again split: option.splits)
qed

text \<open>\<open>k\<close> rounds of decay divide every counter by \<open>2 ^ k\<close>; a peer all of whose counters
  are below that is forgotten.\<close>

lemma counters_decay:
  assumes "counters_ok n"
  shows "count_of s (peer_counts p ((decay_counters ^^ k) n)) = count_of s (peer_counts p n) div 2 ^ k
    \<and> (0 < k \<and> list_all (\<lambda>(s, c). c < 2 ^ k) (peer_counts p n)
        \<longrightarrow> map_of (np_counters ((decay_counters ^^ k) n)) p = None)"
proof (intro conjI impI)
  show "count_of s (peer_counts p ((decay_counters ^^ k) n)) = count_of s (peer_counts p n) div 2 ^ k"
  proof (induction k)
    case (Suc k)
    then show ?case using decay_count [OF decays_look [OF assms, THEN conjunct1]]
      by (simp add: half_again)
  qed simp
next
  assume k: "0 < k \<and> list_all (\<lambda>(s, c). c < 2 ^ k) (peer_counts p n)"
  have "\<not> list_ex (\<lambda>(s, c). 0 < c) (map (\<lambda>(s, c). (s, c div 2 ^ k)) (peer_counts p n))"
    using k by (auto simp: list_ex_iff list_all_iff pos_imp_zdiv_pos_iff)
  with decays_look [OF assms, of k p] k show "map_of (np_counters ((decay_counters ^^ k) n)) p = None"
    by (auto split: option.splits)
qed

lemma counters_decay_witness:
  "map_of (np_counters ((decay_counters ^^ 2) (misbehave 7 ''q'' ''peer:q'' FAILED 3 quiet))) ''q'' = None"
proof -
  have m: "np_counters (misbehave 7 ''q'' ''peer:q'' FAILED 3 quiet) = [(''q'', [(MALFORMED, 0), (FAILED, 3), (INVALID, 0)])]"
    by (simp add: misbehave_def quiet_def handle_validation_status_def increment_counter_def peer_counts_def count_of_def numeral_3_eq_3)
  then have "counters_ok (misbehave 7 ''q'' ''peer:q'' FAILED 3 quiet)" by (simp add: counters_ok_def)
  from counters_decay [OF this, where k = 2 and p = "''q''"] m show ?thesis by (simp add: peer_counts_def)
qed

end
