(* ===== verification/Streams.thy ===== *)
theory Streams
  imports Peers
begin

section \<open>The network thread (p2p.py)\<close>

text \<open>
  \<open>P2PNetwork._serve\<close>: the registry of open streams, the handler of a stream from its start to
  its end, and the queue of commands. libp2p is an argument: \<open>from_base58\<close> reads a peer identifier
  (the model identifies an identifier with its text) and the outcome of a dial is the new
  stream, if there is one. A stream is a number with the peer it leads to. A handler runs from \<open>begin_stream\<close> to \<open>end_stream\<close>;
  between the two it is in \<open>ns_reading\<close>, also after a \<open>DISCONNECT\<close> has taken the stream out of
  \<open>ns_streams\<close>. Tasks that were started and have not run yet are in \<open>ns_started\<close>, handlers that
  sleep before they redial in \<open>ns_redials\<close> with the seconds they sleep.
\<close>

record net =
  ns_streams :: "(nat \<times> string) list"
  ns_count :: int
  ns_ids :: "string set"
  ns_dialing :: "string set"
  ns_dialed :: "(string \<times> string) list"
  ns_backoff :: "(string \<times> int) list"
  ns_started :: "(nat \<times> string) list"
  ns_reading :: "(nat \<times> string \<times> string) list"
  ns_redials :: "(int \<times> string) list"
  ns_disk :: disk
  ns_inbound :: "inbound list"
  ns_todo :: "command list"
  ns_written :: "(nat \<times> string) list"

definition REDIAL_BACKOFF_MAX :: int where "REDIAL_BACKOFF_MAX = 300"

definition take_out :: "nat \<times> string \<Rightarrow> net \<Rightarrow> net" where
  "take_out s n =
     (if s \<in> set (ns_streams n)
      then n\<lparr>ns_streams := remove1 s (ns_streams n), ns_count := ns_count n - 1,
             ns_ids := ns_ids n - {snd s}\<rparr>
      else n)"

subsection \<open>The handler of a stream\<close>

text \<open>A banned peer is refused before anything else.\<close>

definition begin_stream :: "nat \<times> string \<Rightarrow> net \<Rightarrow> db_error + net" where
  "begin_stream s n =
     (case is_peer_banned (snd s) (ns_disk n) of
        Inl e \<Rightarrow> Inl e
      | Inr True \<Rightarrow> Inr n
      | Inr False \<Rightarrow>
          Inr (n\<lparr>ns_streams := ns_streams n @ [s], ns_count := ns_count n + 1,
                 ns_ids := insert (snd s) (ns_ids n), ns_inbound := ns_inbound n @ [Peer_connected],
                 ns_reading := (fst s, snd s, []) # ns_reading n\<rparr>))"

text \<open>After the loop: the stream leaves the registry, and a peer that was dialed is dialed again
  after a pause.\<close>

definition end_stream :: "nat \<times> string \<Rightarrow> net \<Rightarrow> db_error + net" where
  "end_stream s n =
     (let pid = snd s;
          n1 = take_out s (n\<lparr>ns_dialing := ns_dialing n - {pid},
                 ns_reading := filter (\<lambda>r. fst r \<noteq> fst s) (ns_reading n)\<rparr>)
      in case map_of (ns_dialed n1) pid of
           None \<Rightarrow> Inr n1
         | Some addr \<Rightarrow>
             (let n2 = n1\<lparr>ns_dialed := AList.delete pid (ns_dialed n1)\<rparr>
              in case is_peer_banned pid (ns_disk n2) of
                   Inl e \<Rightarrow> Inl e
                 | Inr True \<Rightarrow> Inr n2
                 | Inr False \<Rightarrow>
                     (let delay = (case map_of (ns_backoff n2) pid of None \<Rightarrow> 1 | Some d \<Rightarrow> d)
                      in Inr (n2\<lparr>ns_backoff := AList.update pid (min (delay * 2) REDIAL_BACKOFF_MAX) (ns_backoff n2),
                                 ns_redials := ns_redials n2 @ [(delay, addr)]\<rparr>))))"

text \<open>One turn of the reading loop with what \<open>read\<close> returned.\<close>

definition read_stream_data :: "nat \<Rightarrow> string \<Rightarrow> string \<Rightarrow> string \<Rightarrow> net \<Rightarrow> db_error + net" where
  "read_stream_data sid pid buffer data n =
     (case feed (peer_addr pid) buffer data of
        (ms, b, go) \<Rightarrow>
          (let n1 = n\<lparr>ns_inbound := ns_inbound n @ ms,
                 ns_reading := AList.update sid (pid, b) (ns_reading n)\<rparr>
           in if go then Inr n1 else end_stream (sid, pid) n1))"

subsection \<open>The queue of commands\<close>

text \<open>\<open>arg.split("/p2p/")[-1]\<close>.\<close>

fun last_part :: "string \<Rightarrow> string \<Rightarrow> string" where
  "last_part acc [] = acc"
| "last_part acc (c # cs) =
     (if take 5 (c # cs) = ''/p2p/'' then last_part [] (drop 4 cs) else last_part (acc @ [c]) cs)"

definition last_hop :: "string \<Rightarrow> string" where
  "last_hop arg = last_part [] arg"

text \<open>\<open>CONNECT\<close>; \<open>dial\<close> is the stream that connecting yields.\<close>

definition run_connect :: "(string \<Rightarrow> string option) \<Rightarrow> int \<Rightarrow> nat option \<Rightarrow> string \<Rightarrow> net \<Rightarrow> net" where
  "run_connect from_base58 now dial arg n =
     (case from_base58 (last_hop arg) of
        None \<Rightarrow> n
      | Some pid \<Rightarrow>
          if pid \<in> ns_dialing n \<or> pid \<in> snd ` set (ns_streams n) then n
          else (case dial of
                  None \<Rightarrow> n
                | Some sid \<Rightarrow>
                    (let n1 = n\<lparr>ns_dialing := insert pid (ns_dialing n), ns_started := ns_started n @ [(sid, pid)]\<rparr>
                     in case remember_peer pid arg now (ns_disk n1) of
                          (d, Inl e) \<Rightarrow> n1\<lparr>ns_disk := d, ns_dialing := ns_dialing n1 - {pid}\<rparr>
                        | (d, Inr _) \<Rightarrow>
                            n1\<lparr>ns_disk := d, ns_dialed := AList.update pid arg (ns_dialed n1),
                               ns_backoff := AList.delete pid (ns_backoff n1)\<rparr>)))"

definition write_to :: "(nat \<times> string) list \<Rightarrow> json \<Rightarrow> net \<Rightarrow> net" where
  "write_to ss payload n = n\<lparr>ns_written := ns_written n @ map (\<lambda>s. (fst s, frame payload)) ss\<rparr>"

definition run_broadcast :: "json \<Rightarrow> string option \<Rightarrow> net \<Rightarrow> net" where
  "run_broadcast payload exclude n =
     write_to (filter (\<lambda>s. exclude = None \<or> exclude = Some [] \<or> Some (peer_addr (snd s)) \<noteq> exclude) (ns_streams n))
       payload n"

definition run_unicast :: "string \<Rightarrow> json \<Rightarrow> net \<Rightarrow> net" where
  "run_unicast target payload n = write_to (filter (\<lambda>s. peer_addr (snd s) = target) (ns_streams n)) payload n"

definition run_disconnect :: "string \<Rightarrow> net \<Rightarrow> net" where
  "run_disconnect addr n = fold take_out (filter (\<lambda>s. peer_addr (snd s) = addr) (ns_streams n)) n"

text \<open>\<open>None\<close>: the thread stops.\<close>

fun run_command :: "(string \<Rightarrow> string option) \<Rightarrow> int \<Rightarrow> nat option \<Rightarrow> command \<Rightarrow> net \<Rightarrow> net option" where
  "run_command b58 now dial Stop n = None"
| "run_command b58 now dial (Connect arg) n = Some (run_connect b58 now dial arg n)"
| "run_command b58 now dial (Broadcast payload exclude) n = Some (run_broadcast payload exclude n)"
| "run_command b58 now dial (Unicast target payload) n = Some (run_unicast target payload n)"
| "run_command b58 now dial (Disconnect addr) n = Some (run_disconnect addr n)"

text \<open>At the start every known peer is dialed, the one seen last first.\<close>

definition serve_start :: "disk \<Rightarrow> db_error + net" where
  "serve_start d =
     map_sum id (\<lambda>known. \<lparr>ns_streams = [], ns_count = 0, ns_ids = {}, ns_dialing = {}, ns_dialed = [],
          ns_backoff = [], ns_started = [], ns_reading = [], ns_redials = [], ns_disk = d, ns_inbound = [],
          ns_todo = map (\<lambda>r. Connect (fst (snd r))) known, ns_written = []\<rparr>)
       (get_known_peers 50 d)"

subsection \<open>The thread as a step relation\<close>

text \<open>What can happen next. \<open>keep\<close> says which files the other thread may leave behind; a stream
  number is new when it is used for the first time.\<close>

definition used :: "net \<Rightarrow> nat set" where
  "used n = fst ` set (ns_streams n) \<union> fst ` set (ns_started n) \<union> fst ` set (ns_reading n)"

inductive net_step :: "(string \<Rightarrow> string option) \<Rightarrow> (disk \<Rightarrow> bool) \<Rightarrow> net \<Rightarrow> net \<Rightarrow> bool"
  for b58 :: "string \<Rightarrow> string option" and keep :: "disk \<Rightarrow> bool" where
  Incoming: "sid \<notin> used n \<Longrightarrow> begin_stream (sid, pid) n = Inr n' \<Longrightarrow> net_step b58 keep n n'"
| Begin: "ns_started n = s # rest \<Longrightarrow> begin_stream s (n\<lparr>ns_started := rest\<rparr>) = Inr n' \<Longrightarrow> net_step b58 keep n n'"
| Read: "map_of (ns_reading n) sid = Some (pid, buffer) \<Longrightarrow> read_stream_data sid pid buffer data n = Inr n'
    \<Longrightarrow> net_step b58 keep n n'"
| Broken: "map_of (ns_reading n) sid = Some (pid, buffer) \<Longrightarrow> end_stream (sid, pid) n = Inr n'
    \<Longrightarrow> net_step b58 keep n n'"
| Redial: "ns_redials n = before @ (delay, addr) # after
    \<Longrightarrow> net_step b58 keep n (n\<lparr>ns_redials := before @ after, ns_todo := ns_todo n @ [Connect addr]\<rparr>)"
| Command: "ns_todo n = c # cs \<Longrightarrow> dial = None \<or> dial = Some sid \<and> sid \<notin> used n
    \<Longrightarrow> run_command b58 now dial c (n\<lparr>ns_todo := cs\<rparr>) = Some n' \<Longrightarrow> net_step b58 keep n n'"
| Other_thread: "keep d \<Longrightarrow> net_step b58 keep n (n\<lparr>ns_disk := d, ns_todo := ns_todo n @ cs\<rparr>)"

end
