(* ===== verification/StreamsGuarantees.thy ===== *)
theory StreamsGuarantees
  imports Streams PeersLaws
begin

section \<open>Guarantees of the network thread\<close>

inductive_cases net_stepE: "net_step b58 keep n n'"

subsection \<open>The registry of streams\<close>

definition registry_ok :: "net \<Rightarrow> bool" where
  "registry_ok n \<longleftrightarrow> ns_count n = int (length (ns_streams n)) \<and> distinct (map fst (ns_streams n))
     \<and> ns_ids n \<subseteq> snd ` set (ns_streams n)
     \<and> (\<forall>s \<in> set (ns_streams n). map_option fst (map_of (ns_reading n) (fst s)) = Some (snd s))
     \<and> distinct (map fst (ns_started n))
     \<and> fst ` set (ns_started n) \<inter> (fst ` set (ns_streams n) \<union> fst ` set (ns_reading n)) = {}"

lemma registry_cong:
  assumes "registry_ok n" "ns_streams n' = ns_streams n" "ns_count n' = ns_count n" "ns_ids n' = ns_ids n"
    and "ns_started n' = ns_started n"
    and "\<And>k. map_option fst (map_of (ns_reading n') k) = map_option fst (map_of (ns_reading n) k)"
  shows "registry_ok n'"
proof -
  have "k \<in> fst ` set (ns_reading n') \<longleftrightarrow> k \<in> fst ` set (ns_reading n)" for k
    using assms(6) [of k] by (metis map_of_eq_None_iff option.map_disc_iff)
  then have "fst ` set (ns_reading n') = fst ` set (ns_reading n)" by blast
  then show ?thesis using assms by (simp add: registry_ok_def)
qed

lemma take_out_streams:
  assumes "distinct (map fst (ns_streams n))"
  shows "set (ns_streams (take_out s n)) = set (ns_streams n) - {s}"
    "distinct (map fst (ns_streams (take_out s n)))"
proof -
  have d: "distinct (ns_streams n)" using assms by (simp add: distinct_map)
  show "set (ns_streams (take_out s n)) = set (ns_streams n) - {s}"
    using d by (auto simp: take_out_def)
  have "distinct (map fst (remove1 s xs))" if "distinct (map fst xs)" for xs :: "(nat \<times> string) list"
    using that by (induction xs) (auto dest: notin_set_remove1 [of _ _ s] simp: image_iff)
  then show "distinct (map fst (ns_streams (take_out s n)))" using assms by (simp add: take_out_def)
qed

lemma take_out_other [simp]:
  "ns_reading (take_out s n) = ns_reading n" "ns_started (take_out s n) = ns_started n"
  "ns_dialed (take_out s n) = ns_dialed n" "ns_backoff (take_out s n) = ns_backoff n"
  "ns_redials (take_out s n) = ns_redials n" "ns_disk (take_out s n) = ns_disk n"
  by (simp_all add: take_out_def)

lemma take_out_ok: "registry_ok n \<Longrightarrow> registry_ok (take_out s n)"
proof (cases "s \<in> set (ns_streams n)")
  case True
  assume r: "registry_ok n"
  then have d: "distinct (map fst (ns_streams n))" by (simp add: registry_ok_def)
  note t = take_out_streams [OF d, of s]
  have "ns_ids (take_out s n) \<subseteq> snd ` (set (ns_streams n) - {s})"
    using True r by (auto simp: take_out_def registry_ok_def)
  moreover have "0 < length (ns_streams n)" using True by (cases "ns_streams n") auto
  then have "ns_count (take_out s n) = int (length (ns_streams (take_out s n)))"
    using True r by (simp add: take_out_def registry_ok_def length_remove1 of_nat_diff Suc_le_eq)
  ultimately show ?thesis using r t by (auto simp: registry_ok_def)
qed (simp add: take_out_def)

lemma fold_take_out:
  "registry_ok n \<Longrightarrow> registry_ok (fold take_out ss n) \<and> set (ns_streams (fold take_out ss n)) = set (ns_streams n) - set ss"
proof (induction ss arbitrary: n)
  case (Cons s ss)
  have "distinct (map fst (ns_streams n))" using Cons.prems by (simp add: registry_ok_def)
  with Cons.IH [OF take_out_ok [OF Cons.prems], of s] take_out_streams(1) [of n s] show ?case by auto
qed simp

lemma begin_ok:
  assumes "registry_ok n" "begin_stream s n = Inr n'" "fst s \<notin> used n"
  shows "registry_ok n'"
proof -
  have "n' = n \<or> n' = n\<lparr>ns_streams := ns_streams n @ [s], ns_count := ns_count n + 1,
                 ns_ids := insert (snd s) (ns_ids n), ns_inbound := ns_inbound n @ [Peer_connected],
                 ns_reading := (fst s, snd s, []) # ns_reading n\<rparr>"
    using assms(2) by (auto simp: begin_stream_def split: sum.splits bool.splits)
  moreover have "fst t \<noteq> fst s" if "t \<in> set (ns_streams n)" for t
  proof
    assume "fst t = fst s"
    with imageI [OF that, of fst] assms(3) show False by (simp add: used_def)
  qed
  ultimately show ?thesis
  proof (elim disjE)
    assume f: "\<And>t. t \<in> set (ns_streams n) \<Longrightarrow> fst t \<noteq> fst s"
      and n': "n' = n\<lparr>ns_streams := ns_streams n @ [s], ns_count := ns_count n + 1,
                 ns_ids := insert (snd s) (ns_ids n), ns_inbound := ns_inbound n @ [Peer_connected],
                 ns_reading := (fst s, snd s, []) # ns_reading n\<rparr>"
    have "\<forall>t \<in> set (ns_streams n'). map_option fst (map_of (ns_reading n') (fst t)) = Some (snd t)"
      using assms(1) f by (auto simp: n' registry_ok_def)
    then show ?thesis using assms(1,3) by (auto simp: n' registry_ok_def used_def)
  qed (use assms(1) in simp)
qed

lemma registry_upd:
  assumes "registry_ok n" "map_option fst (map_of (ns_reading n) sid) = Some pid"
  shows "registry_ok (n\<lparr>ns_inbound := ms, ns_reading := AList.update sid (pid, b) (ns_reading n)\<rparr>)"
proof (rule registry_cong [OF assms(1)])
  fix k
  have "map_of (AList.update sid (pid, b) (ns_reading n)) k = (if k = sid then Some (pid, b) else map_of (ns_reading n) k)"
    by (simp add: update_conv)
  then show "map_option fst (map_of (ns_reading (n\<lparr>ns_inbound := ms, ns_reading := AList.update sid (pid, b) (ns_reading n)\<rparr>)) k)
      = map_option fst (map_of (ns_reading n) k)" using assms(2) by auto
qed simp_all

lemma end_ok:
  assumes "registry_ok n" "end_stream (sid, pid) n = Inr n'" "map_option fst (map_of (ns_reading n) sid) = Some pid"
  shows "registry_ok n'"
proof -
  let ?n = "take_out (sid, pid) n"
  let ?m = "take_out (sid, pid) (n\<lparr>ns_dialing := ns_dialing n - {pid}, ns_reading := filter (\<lambda>r. fst r \<noteq> sid) (ns_reading n)\<rparr>)"
  have r: "registry_ok ?n" by (rule take_out_ok [OF assms(1)])
  have d: "distinct (map fst (ns_streams n))" using assms(1) by (simp add: registry_ok_def)
  have m: "ns_streams ?m = ns_streams ?n" "ns_count ?m = ns_count ?n" "ns_ids ?m = ns_ids ?n"
    "ns_started ?m = ns_started n" "ns_reading ?m = filter (\<lambda>r. fst r \<noteq> sid) (ns_reading n)"
    by (simp_all add: take_out_def)
  have look: "map_of (filter (\<lambda>r. fst r \<noteq> sid) xs) k = (if k = sid then None else map_of xs k)" for k and xs :: "(nat \<times> string \<times> string) list"
    by (induction xs) auto
  have "fst t \<noteq> sid" if t: "t \<in> set (ns_streams ?n)" for t
  proof
    assume "fst t = sid"
    with t assms(1,3) take_out_streams(1) [OF d] have "t \<noteq> (sid, pid)" "snd t = pid" by (auto simp: registry_ok_def)
    with \<open>fst t = sid\<close> show False by (cases t) simp
  qed
  then have "registry_ok ?m" using r unfolding registry_ok_def m take_out_other by (auto simp: look)
  moreover have "ns_streams n' = ns_streams ?m \<and> ns_count n' = ns_count ?m \<and> ns_ids n' = ns_ids ?m
      \<and> ns_started n' = ns_started ?m \<and> ns_reading n' = ns_reading ?m"
    using assms(2) by (auto simp: end_stream_def Let_def split: option.splits sum.splits bool.splits)
  ultimately show ?thesis using registry_cong [of ?m n'] by simp
qed

lemma connect_ok:
  assumes "registry_ok n" "dial = None \<or> dial = Some sid \<and> sid \<notin> used n"
  shows "registry_ok (run_connect b58 now dial arg n)"
proof -
  let ?n = "run_connect b58 now dial arg n"
  have "ns_streams ?n = ns_streams n \<and> ns_count ?n = ns_count n \<and> ns_ids ?n = ns_ids n \<and> ns_reading ?n = ns_reading n
      \<and> (ns_started ?n = ns_started n \<or> (\<exists>pid. ns_started ?n = ns_started n @ [(sid, pid)]) \<and> sid \<notin> used n)"
    using assms(2) by (auto simp: run_connect_def Let_def split: option.splits prod.splits sum.splits)
  then show ?thesis using assms(1) by (elim conjE disjE exE) (simp_all add: registry_ok_def used_def)
qed

lemma command_ok:
  assumes "registry_ok n" "dial = None \<or> dial = Some sid \<and> sid \<notin> used n" "run_command b58 now dial c n = Some n'"
  shows "registry_ok n'"
proof (cases c)
  case (Connect arg)
  then show ?thesis using assms connect_ok by auto
next
  case (Disconnect addr)
  then show ?thesis using assms fold_take_out by (auto simp: run_disconnect_def)
next
  case (Broadcast payload exclude)
  then show ?thesis using assms(1,3) by (simp add: run_broadcast_def write_to_def) (auto intro!: registry_cong [OF assms(1)])
next
  case (Unicast target payload)
  then show ?thesis using assms(1,3) by (simp add: run_unicast_def write_to_def) (auto intro!: registry_cong [OF assms(1)])
qed (use assms in simp)

lemma step_registry:
  assumes "net_step b58 keep n n'" "registry_ok n"
  shows "registry_ok n'"
  using assms(1)
proof cases
  case (Incoming sid pid)
  then show ?thesis using begin_ok [OF assms(2)] by simp
next
  case (Begin s rest)
  then have "registry_ok (n\<lparr>ns_started := rest\<rparr>)" "fst s \<notin> used (n\<lparr>ns_started := rest\<rparr>)"
    using assms(2) by (auto simp: registry_ok_def used_def)
  then show ?thesis using Begin(2) begin_ok by blast
next
  case (Read sid pid buffer data)
  obtain ms b go where f: "feed (peer_addr pid) buffer data = (ms, b, go)" by (cases "feed (peer_addr pid) buffer data")
  let ?n = "n\<lparr>ns_inbound := ns_inbound n @ ms, ns_reading := AList.update sid (pid, b) (ns_reading n)\<rparr>"
  have "registry_ok ?n" using Read(1) by (intro registry_upd assms(2)) simp
  then show ?thesis using Read(2) f end_ok [of ?n sid pid n']
    by (auto simp: read_stream_data_def Let_def update_conv split: if_splits)
next
  case (Broken sid pid buffer)
  then show ?thesis using end_ok [OF assms(2)] by simp
next
  case (Command c cs dial sid now)
  have "registry_ok (n\<lparr>ns_todo := cs\<rparr>)" using assms(2) by (simp add: registry_ok_def)
  then show ?thesis using Command command_ok [of "n\<lparr>ns_todo := cs\<rparr>" dial sid b58 now c n'] by (simp add: used_def)
qed (use assms(2) in \<open>simp_all add: registry_ok_def\<close>)

text \<open>C39: in every state of the network thread, \<open>peer_count\<close> is the number of registered streams, no stream
  is registered twice, each has its handler running, and \<open>peer_ids\<close> names only peers with a
  registered stream.\<close>

theorem peer_count_counts:
  assumes "serve_start d = Inr n\<^sub>0" "(net_step b58 keep)\<^sup>*\<^sup>* n\<^sub>0 n"
  shows "ns_count n = int (length (ns_streams n)) \<and> distinct (map fst (ns_streams n))
    \<and> (\<forall>s \<in> set (ns_streams n). \<exists>b. map_of (ns_reading n) (fst s) = Some (snd s, b))
    \<and> ns_ids n \<subseteq> snd ` set (ns_streams n)"
proof -
  have "registry_ok n\<^sub>0" using assms(1)
    by (cases "get_known_peers 50 d") (auto simp: serve_start_def registry_ok_def)
  with assms(2) have "registry_ok n" by (induction rule: rtranclp_induct) (auto intro: step_registry)
  then show ?thesis by (auto simp: registry_ok_def)
qed

definition idle :: net where
  "idle = \<lparr>ns_streams = [], ns_count = 0, ns_ids = {}, ns_dialing = {}, ns_dialed = [], ns_backoff = [],
     ns_started = [], ns_reading = [], ns_redials = [], ns_disk = no_disk, ns_inbound = [], ns_todo = [], ns_written = []\<rparr>"

lemma nobody_banned: "is_peer_banned p no_disk = Inr False" "get_known_peers 50 no_disk = Inr []"
  by (simp_all add: is_peer_banned_def get_known_peers_def peer_rows_def no_disk_def newest_first_def)

lemma idle_start: "serve_start no_disk = Inr idle"
  by (simp add: serve_start_def nobody_banned idle_def)

definition joined :: "(nat \<times> string) list \<Rightarrow> net" where
  "joined ss = idle\<lparr>ns_streams := ss, ns_count := int (length ss), ns_ids := snd ` set ss,
     ns_inbound := replicate (length ss) Peer_connected, ns_reading := map (\<lambda>s. (fst s, snd s, [])) (rev ss)\<rparr>"

lemma one_joins:
  assumes "sid \<notin> fst ` set ss"
  shows "net_step b58 keep (joined ss) (joined (ss @ [(sid, pid)]))"
proof (rule net_step.Incoming)
  show "sid \<notin> used (joined ss)" using assms by (simp add: used_def joined_def idle_def image_image)
  have "is_peer_banned pid (ns_disk (joined ss)) = Inr False" by (simp add: joined_def idle_def nobody_banned)
  then show "begin_stream (sid, pid) (joined ss) = Inr (joined (ss @ [(sid, pid)]))"
    by (simp add: begin_stream_def joined_def idle_def replicate_append_same)
qed

lemma two_join: "(net_step b58 keep)\<^sup>*\<^sup>* idle (joined [(1, ''q''), (2, ''q'')])"
proof -
  have "idle = joined []" by (simp add: joined_def idle_def)
  moreover have "net_step b58 keep (joined []) (joined [(1, ''q'')])" using one_joins [of 1 "[]" b58 keep "''q''"] by simp
  moreover have "net_step b58 keep (joined [(1, ''q'')]) (joined [(1, ''q''), (2, ''q'')])"
    using one_joins [of 2 "[(1, ''q'')]" b58 keep "''q''"] by simp
  ultimately show ?thesis by auto
qed

theorem peer_count_counts_witness: "ns_count (joined [(1, ''q''), (2, ''q'')]) = 2"
  using peer_count_counts [OF idle_start two_join] by (simp add: joined_def)

text \<open>a peer may have two streams (each side dialed the other), and \<open>peer_ids\<close> is a set: when one of them
  ends, the peer is missing from \<open>peer_ids\<close> although its other stream is open and counted.\<close>

lemma connected_peer_not_listed:
  "\<exists>n. serve_start no_disk = Inr idle \<and> (net_step b58 keep)\<^sup>*\<^sup>* idle n
     \<and> ns_streams n = [(2, ''q'')] \<and> ns_count n = 1 \<and> ''q'' \<notin> ns_ids n"
proof -
  let ?n = "joined [(1, ''q''), (2, ''q'')]"
  let ?m = "?n\<lparr>ns_streams := [(2, ''q'')], ns_count := 1, ns_ids := {}, ns_reading := [(2, ''q'', [])]\<rparr>"
  have "end_stream (1, ''q'') ?n = Inr ?m"
    by (simp add: end_stream_def take_out_def joined_def idle_def)
  moreover have "map_of (ns_reading ?n) 1 = Some (''q'', [])" by (simp add: joined_def)
  ultimately have "net_step b58 keep ?n ?m" by (intro net_step.Broken)
  with two_join have "(net_step b58 keep)\<^sup>*\<^sup>* idle ?m" by (rule rtranclp.rtrancl_into_rtrancl)
  moreover have "ns_streams ?m = [(2, ''q'')] \<and> ns_count ?m = 1 \<and> ''q'' \<notin> ns_ids ?m" by simp
  ultimately show ?thesis using idle_start by blast
qed

subsection \<open>Dialing\<close>

text \<open>a dial to a banned peer is refused by the node's own handler, which returns before
  it takes the peer out of \<open>dialing\<close>: from then on every command to connect to it is
  skipped, also when the ban is lifted.\<close>

lemma refused_dial_blocks_peer:
  assumes "b58 (last_hop arg) = Some pid" "is_peer_banned pid (ns_disk n) = Inr True" "disk_ok (ns_disk n)"
    and "pid \<notin> ns_dialing n" "pid \<notin> snd ` set (ns_streams n)"
    and "n1 = run_connect b58 now (Some sid) arg n" "b58 (last_hop arg') = Some pid"
  shows "begin_stream (sid, pid) n1 = Inr n1 \<and> pid \<in> ns_dialing n1 \<and> ns_streams n1 = ns_streams n
    \<and> run_connect b58 now' dial' arg' (n1\<lparr>ns_disk := d\<rparr>) = n1\<lparr>ns_disk := d\<rparr>"
proof -
  obtain d1 where d1: "remember_peer pid arg now (ns_disk n) = (d1, Inr ())" "disk_ok d1"
    "banned.look (disk_db d1) pid = banned.look (disk_db (ns_disk n)) pid"
    by (simp add: remember_peer_def with_db_ok [OF assms(3)] banned.look_def banned_rows_def)
  then have "is_peer_banned pid d1 = Inr True" using assms(2,3) by (simp add: is_banned_look)
  moreover have "n1 = n\<lparr>ns_dialing := insert pid (ns_dialing n), ns_started := ns_started n @ [(sid, pid)], ns_disk := d1,
      ns_dialed := AList.update pid arg (ns_dialed n), ns_backoff := AList.delete pid (ns_backoff n)\<rparr>"
    using assms(1,4,5) d1(1) by (simp add: assms(6) run_connect_def Let_def)
  ultimately show ?thesis using assms(7) by (simp add: begin_stream_def run_connect_def)
qed

definition banning :: disk where
  "banning = fst (ban_peer ''q'' ''rude'' 5 no_disk)"

lemma refused_dial_blocks_peer_witness:
  "\<exists>n1. n1 = run_connect Some 6 (Some 1) ''/ip4/h/tcp/9/p2p/q'' (idle\<lparr>ns_disk := banning\<rparr>)
     \<and> begin_stream (1, ''q'') n1 = Inr n1
     \<and> run_connect Some 9 (Some 2) ''/ip4/h/tcp/9/p2p/q'' (n1\<lparr>ns_disk := no_disk\<rparr>) = n1\<lparr>ns_disk := no_disk\<rparr>"
proof -
  have ok: "disk_ok no_disk" by (simp add: disk_ok_def no_disk_def)
  have b: "is_peer_banned ''q'' banning = Inr True" "disk_ok banning"
    by (simp_all add: banning_def ban_peer_def with_db_ok [OF ok] is_banned_look banned.look_put)
  have "last_hop ''/ip4/h/tcp/9/p2p/q'' = ''q''" by (simp add: last_hop_def)
  with refused_dial_blocks_peer [of Some "''/ip4/h/tcp/9/p2p/q''" "''q''" "idle\<lparr>ns_disk := banning\<rparr>" _ 6 1 "''/ip4/h/tcp/9/p2p/q''" 9 "Some 2" no_disk, OF _ _ _ _ _ refl] b
  show ?thesis by (simp add: idle_def)
qed

text \<open>What keeps the pause before a redial at its first value.\<close>

definition redial_ok :: "net \<Rightarrow> bool" where
  "redial_ok n \<longleftrightarrow> (\<forall>p. map_of (ns_dialed n) p \<noteq> None \<longrightarrow> map_of (ns_backoff n) p = None)
     \<and> list_all (\<lambda>(delay, addr). delay = 1) (ns_redials n)"

lemma redial_cong:
  "redial_ok n \<Longrightarrow> ns_dialed n' = ns_dialed n \<Longrightarrow> ns_backoff n' = ns_backoff n \<Longrightarrow> ns_redials n' = ns_redials n
    \<Longrightarrow> redial_ok n'"
  by (simp add: redial_ok_def)

lemma redial_begin: "redial_ok n \<Longrightarrow> begin_stream s n = Inr n' \<Longrightarrow> redial_ok n'"
  by (erule redial_cong) (auto simp: begin_stream_def split: sum.splits bool.splits)

lemma redial_end:
  assumes "redial_ok n" "end_stream s n = Inr n'"
  shows "redial_ok n'"
proof -
  let ?n1 = "take_out s (n\<lparr>ns_dialing := ns_dialing n - {snd s}, ns_reading := filter (\<lambda>r. fst r \<noteq> fst s) (ns_reading n)\<rparr>)"
  have ok: "redial_ok ?n1" by (rule redial_cong [OF assms(1)]) simp_all
  have look: "map_of (AList.delete k al) = (map_of al)(k := None)" for k and al :: "(string \<times> string) list"
    by (simp add: delete_conv fun_eq_iff)
  show ?thesis
  proof (cases "map_of (ns_dialed ?n1) (snd s)")
    case None
    then have "n' = ?n1" using assms(2) by (simp add: end_stream_def Let_def)
    with ok show ?thesis by simp
  next
    case (Some addr)
    then have "map_of (ns_backoff ?n1) (snd s) = None" using ok unfolding redial_ok_def by (metis option.distinct(1))
    then have n': "ns_dialed n' = AList.delete (snd s) (ns_dialed ?n1)"
      "ns_backoff n' = ns_backoff ?n1 \<and> ns_redials n' = ns_redials ?n1
       \<or> ns_backoff n' = AList.update (snd s) 2 (ns_backoff ?n1) \<and> ns_redials n' = ns_redials ?n1 @ [(1, addr)]"
      using Some assms(2) by (auto simp: end_stream_def Let_def REDIAL_BACKOFF_MAX_def split: sum.splits bool.splits)
    from ok show ?thesis unfolding redial_ok_def n'(1) using n'(2)
      by (elim conjE disjE) (simp_all only: look update_conv list_all_append, auto)
  qed
qed

lemma redial_connect:
  assumes "redial_ok n"
  shows "redial_ok (run_connect b58 now dial arg n)"
proof -
  have look: "map_of (AList.delete k al) = (map_of al)(k := None)" for k and al :: "(string \<times> int) list"
    by (simp add: delete_conv fun_eq_iff)
  let ?n = "run_connect b58 now dial arg n"
  have "ns_redials ?n = ns_redials n \<and> (ns_dialed ?n = ns_dialed n \<and> ns_backoff ?n = ns_backoff n
      \<or> (\<exists>pid. ns_dialed ?n = AList.update pid arg (ns_dialed n) \<and> ns_backoff ?n = AList.delete pid (ns_backoff n)))"
    by (auto simp: run_connect_def Let_def split: option.splits prod.splits sum.splits)
  with assms show ?thesis unfolding redial_ok_def
    by (elim conjE disjE exE) (simp_all add: look update_conv)
qed

lemma fold_take_out_other:
  "ns_dialed (fold take_out ss n) = ns_dialed n \<and> ns_backoff (fold take_out ss n) = ns_backoff n
    \<and> ns_redials (fold take_out ss n) = ns_redials n \<and> ns_disk (fold take_out ss n) = ns_disk n"
  by (induction ss arbitrary: n) simp_all

lemma redial_command:
  assumes "redial_ok n" "run_command b58 now dial c n = Some n'"
  shows "redial_ok n'"
proof (cases c)
  case (Connect arg)
  then show ?thesis using assms redial_connect by auto
next
  case (Disconnect addr)
  then show ?thesis using assms fold_take_out_other by (auto simp: run_disconnect_def intro: redial_cong)
qed (use assms in \<open>auto simp: run_broadcast_def run_unicast_def write_to_def intro: redial_cong\<close>)

lemma step_redial:
  assumes "net_step b58 keep n n'" "redial_ok n"
  shows "redial_ok n'"
  using assms(1)
proof cases
  case (Begin s rest)
  have "redial_ok (n\<lparr>ns_started := rest\<rparr>)" by (rule redial_cong [OF assms(2)]) simp_all
  then show ?thesis using Begin(2) redial_begin by blast
next
  case (Read sid pid buffer data)
  obtain ms b go where f: "feed (peer_addr pid) buffer data = (ms, b, go)" by (cases "feed (peer_addr pid) buffer data")
  let ?n = "n\<lparr>ns_inbound := ns_inbound n @ ms, ns_reading := AList.update sid (pid, b) (ns_reading n)\<rparr>"
  have "redial_ok ?n" by (rule redial_cong [OF assms(2)]) simp_all
  then show ?thesis using Read(2) f redial_end [of ?n "(sid, pid)" n']
    by (auto simp: read_stream_data_def Let_def split: if_splits)
next
  case (Command c cs dial sid now)
  have "redial_ok (n\<lparr>ns_todo := cs\<rparr>)" by (rule redial_cong [OF assms(2)]) simp_all
  then show ?thesis using Command redial_command by blast
next
  case (Incoming sid pid)
  then show ?thesis using redial_begin assms(2) by blast
next
  case (Broken sid pid buffer)
  then show ?thesis using redial_end assms(2) by blast
qed (use assms(2) in \<open>simp_all add: redial_ok_def\<close>)

text \<open>the pause before a redial is always one second. A dial that works resets the pause, and one that
  fails is not repeated, so the doubling up to \<open>REDIAL_BACKOFF_MAX\<close> never shows.\<close>

lemma redial_pause_never_grows:
  assumes "serve_start d = Inr n\<^sub>0" "(net_step b58 keep)\<^sup>*\<^sup>* n\<^sub>0 n"
  shows "list_all (\<lambda>(delay, addr). delay = 1) (ns_redials n)"
proof -
  have "redial_ok n\<^sub>0" using assms(1)
    by (cases "get_known_peers 50 d") (auto simp: serve_start_def redial_ok_def)
  with assms(2) have "redial_ok n" by (induction rule: rtranclp_induct) (auto intro: step_redial)
  then show ?thesis by (simp add: redial_ok_def)
qed

definition dialed :: net where
  "dialed = run_connect Some 6 (Some 1) ''/ip4/h/tcp/9/p2p/q'' idle"

definition left :: net where
  "left = dialed\<lparr>ns_started := [], ns_inbound := [Peer_connected], ns_dialing := {}, ns_dialed := [],
     ns_backoff := [(''q'', 2)], ns_redials := [(1, ''/ip4/h/tcp/9/p2p/q'')]\<rparr>"

lemma dial_and_leave: "(net_step Some (\<lambda>_. True))\<^sup>*\<^sup>* idle left"
proof -
  let ?a = "''/ip4/h/tcp/9/p2p/q''" and ?keep = "\<lambda>_::disk. True"
  have hop: "last_hop ?a = ''q''" by (simp add: last_hop_def)
  have ok: "disk_ok no_disk" by (simp add: disk_ok_def no_disk_def)
  obtain d where rem: "remember_peer ''q'' ?a 6 no_disk = (d, Inr ())" and free: "is_peer_banned ''q'' d = Inr False"
    using nobody_banned(1) [of "''q''"] ok
    by (simp add: remember_peer_def with_db_ok [OF ok] is_banned_look banned.look_def banned_rows_def)
  have dialed: "dialed = idle\<lparr>ns_dialing := {''q''}, ns_started := [(1, ''q'')], ns_disk := d, ns_dialed := [(''q'', ?a)]\<rparr>"
    by (simp add: dialed_def run_connect_def hop idle_def rem)
  have "net_step Some ?keep idle (idle\<lparr>ns_todo := [Connect ?a]\<rparr>)"
    using net_step.Other_thread [of ?keep no_disk Some idle "[Connect ?a]"] by (simp add: idle_def)
  moreover have "net_step Some ?keep (idle\<lparr>ns_todo := [Connect ?a]\<rparr>) dialed"
    by (rule net_step.Command [where c = "Connect ?a" and cs = "[]" and dial = "Some 1" and sid = 1 and now = 6])
      (simp_all add: used_def idle_def dialed_def)
  moreover
  let ?b = "dialed\<lparr>ns_started := [], ns_streams := [(1, ''q'')], ns_count := 1, ns_ids := {''q''},
      ns_inbound := [Peer_connected], ns_reading := [(1, ''q'', [])]\<rparr>"
  have "net_step Some ?keep dialed ?b"
    by (rule net_step.Begin [where s = "(1, ''q'')" and rest = "[]"])
      (simp_all add: dialed begin_stream_def free, simp_all add: idle_def)
  moreover have "net_step Some ?keep ?b left"
    by (rule net_step.Broken [where sid = 1 and pid = "''q''" and buffer = "[]"])
      (simp_all add: end_stream_def take_out_def dialed free left_def REDIAL_BACKOFF_MAX_def Let_def, simp_all add: idle_def)
  ultimately show ?thesis by auto
qed

lemma redial_pause_never_grows_witness:
  "(net_step Some (\<lambda>_. True))\<^sup>*\<^sup>* idle left \<and> list_all (\<lambda>(delay, addr). delay = 1) (ns_redials left) \<and> ns_redials left \<noteq> []"
  using redial_pause_never_grows [OF idle_start dial_and_leave] dial_and_leave by (simp add: left_def)

subsection \<open>Bans\<close>

lemma remember_keeps_ban:
  assumes "disk_ok d" "is_peer_banned p d = Inr b"
  shows "disk_ok (fst (remember_peer q arg now d)) \<and> is_peer_banned p (fst (remember_peer q arg now d)) = Inr b"
  using assms by (simp add: remember_peer_def with_db_ok is_banned_look banned.look_def banned_rows_def)

definition shut_out :: "string \<Rightarrow> net \<Rightarrow> bool" where
  "shut_out p n \<longleftrightarrow> disk_ok (ns_disk n) \<and> is_peer_banned p (ns_disk n) = Inr True \<and> p \<notin> snd ` set (ns_streams n)"

lemma take_out_shut: "shut_out p n \<Longrightarrow> shut_out p (take_out s n)"
  using set_remove1_subset [of s "ns_streams n"] by (auto simp: shut_out_def take_out_def)

lemma fold_shut: "shut_out p n \<Longrightarrow> shut_out p (fold take_out ss n)"
  by (induction ss arbitrary: n) (simp_all add: take_out_shut)

lemma begin_shut: "shut_out p n \<Longrightarrow> begin_stream s n = Inr n' \<Longrightarrow> shut_out p n'"
proof -
  assume n: "shut_out p n" "begin_stream s n = Inr n'"
  then have "ns_streams n' = ns_streams n \<or> ns_streams n' = ns_streams n @ [s] \<and> p \<noteq> snd s" "ns_disk n' = ns_disk n"
    by (auto simp: begin_stream_def shut_out_def split: sum.splits bool.splits)
  with n(1) show ?thesis by (elim disjE conjE) (simp_all add: shut_out_def)
qed

lemma end_shut: "shut_out p n \<Longrightarrow> end_stream s n = Inr n' \<Longrightarrow> shut_out p n'"
proof -
  let ?n1 = "take_out s (n\<lparr>ns_dialing := ns_dialing n - {snd s}, ns_reading := filter (\<lambda>r. fst r \<noteq> fst s) (ns_reading n)\<rparr>)"
  assume n: "shut_out p n" "end_stream s n = Inr n'"
  then have "shut_out p ?n1" by (intro take_out_shut) (simp add: shut_out_def)
  moreover have "ns_streams n' = ns_streams ?n1 \<and> ns_disk n' = ns_disk ?n1"
    using n(2) by (auto simp: end_stream_def Let_def split: option.splits sum.splits bool.splits)
  ultimately show ?thesis by (simp add: shut_out_def)
qed

lemma command_shut:
  assumes "shut_out p n" "run_command b58 now dial c n = Some n'"
  shows "shut_out p n'"
proof (cases c)
  case (Connect arg)
  have "ns_streams (run_connect b58 now dial arg n) = ns_streams n \<and> (ns_disk (run_connect b58 now dial arg n) = ns_disk n
      \<or> (\<exists>q. ns_disk (run_connect b58 now dial arg n) = fst (remember_peer q arg now (ns_disk n))))"
    by (auto simp: run_connect_def Let_def split: option.splits prod.splits sum.splits) (metis fst_conv)+
  then show ?thesis using assms Connect remember_keeps_ban [of "ns_disk n" p True] by (auto simp: shut_out_def)
next
  case (Disconnect addr)
  then show ?thesis using assms fold_shut by (auto simp: run_disconnect_def)
qed (use assms in \<open>auto simp: run_broadcast_def run_unicast_def write_to_def shut_out_def\<close>)

lemma step_shut:
  assumes "net_step b58 (\<lambda>d. disk_ok d \<and> is_peer_banned p d = Inr True) n n'" "shut_out p n"
  shows "shut_out p n'"
  using assms(1)
proof cases
  case (Incoming sid pid)
  then show ?thesis using begin_shut assms(2) by blast
next
  case (Begin s rest)
  have "shut_out p (n\<lparr>ns_started := rest\<rparr>)" using assms(2) by (simp add: shut_out_def)
  then show ?thesis using Begin(2) begin_shut by blast
next
  case (Read sid pid buffer data)
  obtain ms b go where f: "feed (peer_addr pid) buffer data = (ms, b, go)" by (cases "feed (peer_addr pid) buffer data")
  let ?n = "n\<lparr>ns_inbound := ns_inbound n @ ms, ns_reading := AList.update sid (pid, b) (ns_reading n)\<rparr>"
  have "shut_out p ?n" using assms(2) by (simp add: shut_out_def)
  then show ?thesis using Read(2) f end_shut [of p ?n "(sid, pid)" n']
    by (auto simp: read_stream_data_def Let_def split: if_splits)
next
  case (Broken sid pid buffer)
  then show ?thesis using end_shut assms(2) by blast
next
  case (Command c cs dial sid now)
  have "shut_out p (n\<lparr>ns_todo := cs\<rparr>)" using assms(2) by (simp add: shut_out_def)
  then show ?thesis using Command command_shut by blast
qed (use assms(2) in \<open>simp_all add: shut_out_def\<close>)

text \<open>C40: when a peer is banned and disconnected, none of its streams is left, and none is opened while
  the ban stands, whatever else the peers and the other thread do.\<close>

theorem banned_peer_stays_out:
  assumes "serve_start d = Inr n\<^sub>0" "(net_step b58 keep)\<^sup>*\<^sup>* n\<^sub>0 n"
    and "disk_ok (ns_disk n)" "is_peer_banned p (ns_disk n) = Inr True"
    and "(net_step b58 (\<lambda>d. disk_ok d \<and> is_peer_banned p d = Inr True))\<^sup>*\<^sup>* (run_disconnect (peer_addr p) n) n'"
  shows "p \<notin> snd ` set (ns_streams n')"
proof -
  have "registry_ok n\<^sub>0" using assms(1)
    by (cases "get_known_peers 50 d") (auto simp: serve_start_def registry_ok_def)
  with assms(2) have "registry_ok n" by (induction rule: rtranclp_induct) (auto intro: step_registry)
  from fold_take_out [OF this] have "set (ns_streams (run_disconnect (peer_addr p) n))
      = set (ns_streams n) - {s \<in> set (ns_streams n). snd s = p}"
    by (simp add: run_disconnect_def peer_addr_def)
  then have "shut_out p (run_disconnect (peer_addr p) n)"
    using assms(3,4) fold_take_out_other by (auto simp: shut_out_def run_disconnect_def)
  with assms(5) have "shut_out p n'" by (induction rule: rtranclp_induct) (auto intro: step_shut)
  then show ?thesis by (simp add: shut_out_def)
qed

theorem banned_peer_stays_out_witness:
  "\<exists>n n'. (net_step Some (\<lambda>_. True))\<^sup>*\<^sup>* idle n \<and> ns_streams n = [(3, ''q'')]
     \<and> net_step Some (\<lambda>d. disk_ok d \<and> is_peer_banned ''q'' d = Inr True) (run_disconnect (peer_addr ''q'') n) n'
     \<and> ''q'' \<notin> snd ` set (ns_streams n')"
proof -
  let ?keep = "\<lambda>_::disk. True" and ?bans = "\<lambda>d. disk_ok d \<and> is_peer_banned ''q'' d = Inr True"
  let ?n = "(joined [(3, ''q'')])\<lparr>ns_disk := banning\<rparr>"
  have ok: "disk_ok no_disk" by (simp add: disk_ok_def no_disk_def)
  have b: "disk_ok banning" "is_peer_banned ''q'' banning = Inr True"
    by (simp_all add: banning_def ban_peer_def with_db_ok [OF ok] is_banned_look banned.look_put)
  have "idle = joined []" by (simp add: joined_def idle_def)
  moreover have "net_step Some ?keep (joined []) (joined [(3, ''q'')])" using one_joins [of 3 "[]" Some ?keep "''q''"] by simp
  moreover have "net_step Some ?keep (joined [(3, ''q'')]) ?n"
    using net_step.Other_thread [of ?keep banning Some "joined [(3, ''q'')]" "[]"] by (simp add: joined_def idle_def)
  ultimately have r: "(net_step Some ?keep)\<^sup>*\<^sup>* idle ?n" by auto
  let ?m = "run_disconnect (peer_addr ''q'') ?n"
  have d: "ns_disk ?m = banning" by (simp add: run_disconnect_def fold_take_out_other)
  have "begin_stream (7, ''q'') ?m = Inr ?m" by (simp add: begin_stream_def d b)
  moreover have "7 \<notin> used ?m"
    by (simp add: used_def run_disconnect_def take_out_def joined_def idle_def)
  ultimately have s: "net_step Some ?bans ?m ?m" by (intro net_step.Incoming)
  with banned_peer_stays_out [OF idle_start r, of "''q''" ?m] b r show ?thesis
    by (intro exI [of _ ?n] exI [of _ ?m]) (simp add: joined_def idle_def)
qed

end
