(* ===== verification/Node.thy ===== *)
theory Node
  imports Chain Mempool Pow Peers
begin

section \<open>The node (main.py)\<close>

text \<open>
  The parts of \<open>main.py\<close> that act on the chain, the mempool and the network by themselves: the
  miner, the handler of messages from peers and the greeting. Logging is left out. The clock stands still
  during one operation: \<open>now\<close> is the time in milliseconds.
\<close>

record node =
  nd_chain :: blockchain
  nd_pool :: mempool

definition set_accounts :: "accounts \<Rightarrow> blockchain \<Rightarrow> blockchain" where
  "set_accounts A bc = bc\<lparr>bc_state := (bc_state bc)\<lparr>st_accounts := A\<rparr>\<rparr>"

text \<open>\<open>chain.state.verify_transaction_logic(tx)\<close>; the look-up may add the sender's blank account.\<close>

definition check_transaction :: "'a crypto_scheme \<Rightarrow> transaction \<Rightarrow> blockchain \<Rightarrow> blockchain \<times> validation_status" where
  "check_transaction cr tx bc =
     (case verify_transaction_logic cr (bc_state bc) tx of (st, s) \<Rightarrow> (bc\<lparr>bc_state := st\<rparr>, s))"

subsection \<open>Mining\<close>

text \<open>The loop over the candidates: the state, the transactions that can be mined with their
  receipts, and the stale ones, in the order of the mempool. A nonce that is too low makes a
  transaction stale without an attempt to apply it; so does one that is too high after it.\<close>

fun select_txs ::
  "'a ext_scheme \<Rightarrow> state \<Rightarrow> transaction list \<Rightarrow> state \<times> (exn + (transaction \<times> receipt) list \<times> transaction list)" where
  "select_txs E st [] = (st, Inr ([], []))"
| "select_txs E st (tx # txs) =
     (let A = get_account (tx_sender tx) (st_accounts st); st1 = st\<lparr>st_accounts := A\<rparr> in
      if tx_nonce tx < nonce_of A (tx_sender tx)
      then (case select_txs E st1 txs of
              (st2, Inl e) \<Rightarrow> (st2, Inl e)
            | (st2, Inr (ms, stale)) \<Rightarrow> (st2, Inr (ms, tx # stale)))
      else case validate_and_apply_with_status E st1 tx of
             (st2, Inl e) \<Rightarrow> (st2, Inl e)
           | (st2, Inr (_, None)) \<Rightarrow>
               (case select_txs E st2 txs of
                  (st3, Inl e) \<Rightarrow> (st3, Inl e)
                | (st3, Inr (ms, stale)) \<Rightarrow> (st3, Inr (ms, tx # stale)))
           | (st2, Inr (_, Some r)) \<Rightarrow>
               (case select_txs E st2 txs of
                  (st3, Inl e) \<Rightarrow> (st3, Inl e)
                | (st3, Inr (ms, stale)) \<Rightarrow> (st3, Inr ((tx, r) # ms, stale))))"

text \<open>The block template; its state root may not exist.\<close>

definition candidate_block ::
  "'a ext_scheme \<Rightarrow> int \<Rightarrow> string \<Rightarrow> blockchain \<Rightarrow> (transaction \<times> receipt) list \<Rightarrow> state \<Rightarrow> exn + block" where
  "candidate_block E now miner bc ms st =
     (let txs = map fst ms; rs = map snd ms;
          st1 = st\<lparr>st_accounts := credit_mining_reward miner (Some (DEFAULT_MINING_REWARD + total_fees rs txs)) (st_accounts st)\<rparr>;
          prev = last_block bc
      in case state_root E (st_accounts st1) of
           Inl e \<Rightarrow> Inl e
         | Inr root \<Rightarrow>
             Inr (new_block E now (bl_index prev + 1) (case bl_hash prev of None \<Rightarrow> [] | Some h \<Rightarrow> h) (bc_target bc) txs
                    (max now (bl_timestamp prev + 1)) (Some root) (calculate_receipt_root E rs) rs (Some miner)))"

definition drop_stale :: "transaction list \<Rightarrow> node \<Rightarrow> node" where
  "drop_stale stale nd =
     (if stale = [] then nd else nd\<lparr>nd_pool := remove_transactions stale (nd_pool nd)\<rparr>)"

text \<open>The search for a nonce: \<open>late\<close> and \<open>start\<close> as in \<open>mine_block\<close>. The outcome is the block that was
  added, or none when the chain refuses it; then the candidates are offered to the mempool again.\<close>

datatype mining_error = Mining_raised exn | Mining_stopped mining_stop

definition mine_and_process_block ::
  "'a ext_scheme \<Rightarrow> int \<Rightarrow> (int \<Rightarrow> bool) \<Rightarrow> int \<Rightarrow> string \<Rightarrow> node \<Rightarrow> node \<times> (mining_error + block option)" where
  "mine_and_process_block E now late start miner nd =
     (let bc = nd_chain nd; pending = get_transactions_for_block (nd_pool nd) in
      case select_txs E (state_copy (bc_state bc)) pending of
        (st, Inl e) \<Rightarrow> (nd, Inl (Mining_raised e))
      | (st, Inr (ms, stale)) \<Rightarrow>
          let nd1 = drop_stale stale nd in
          (case candidate_block E now miner bc ms st of
             Inl e \<Rightarrow> (nd1, Inl (Mining_raised e))
           | Inr b0 \<Rightarrow>
               (case mine_block E b0 None None late (\<lambda>_ _. False) start of
                  (b, Inl e) \<Rightarrow> (nd1, Inl (Mining_raised e))
                | (b, Inr (Exceeded r)) \<Rightarrow> (nd1, Inl (Mining_stopped r))
                | (b, Inr Not_a_number) \<Rightarrow> (nd1, Inl (Mining_raised ValueError))
                | (b, Inr (Mined n h)) \<Rightarrow>
                    (case add_block E now b bc of
                       (bc', Inl e) \<Rightarrow> (nd1\<lparr>nd_chain := bc'\<rparr>, Inl (Mining_raised e))
                     | (bc', Inr s) \<Rightarrow>
                         if s = VALID
                         then (nd1\<lparr>nd_chain := bc', nd_pool := remove_transactions (map fst ms) (nd_pool nd1)\<rparr>, Inr (Some b))
                         else (nd1\<lparr>nd_chain := bc', nd_pool := fold (\<lambda>tx mp. fst (add_transaction E tx mp)) pending (nd_pool nd1)\<rparr>,
                               Inr None)))))"

subsection \<open>Messages from peers\<close>

text \<open>\<open>request_chain\<close>: a task that broadcasts a request.\<close>

definition request_chain :: "json \<Rightarrow> json \<Rightarrow> p2p \<Rightarrow> p2p" where
  "request_chain start limit =
     create_task (Broadcast (message ''chain_request'' (JObj [(''start_index'', start), (''limit'', limit)])) None)"

text \<open>The value of a field, with a default; a payload that is not a dictionary has no \<open>get\<close>.\<close>

definition pget :: "json \<Rightarrow> string \<Rightarrow> json \<Rightarrow> exn + json" where
  "pget payload k d =
     (case payload of
        JObj p \<Rightarrow> Inr (case dict_get p k of None \<Rightarrow> d | Some v \<Rightarrow> v)
      | _ \<Rightarrow> Inl AttributeError)"

text \<open>A number in a comparison.\<close>

fun as_number :: "json \<Rightarrow> exn + int" where
  "as_number (JInt i) = Inr i"
| "as_number (JBool b) = Inr (if b then 1 else 0)"
| "as_number _ = Inl TypeError"

type_synonym outcome = "(node \<times> p2p) \<times> (handler_error + validation_status option)"

definition raised :: "exn \<Rightarrow> node \<times> p2p \<Rightarrow> outcome" where
  "raised e st = (st, Inl (Handler_raised e))"

definition no_status :: "node \<times> p2p \<Rightarrow> outcome" where
  "no_status st = (st, Inr None)"

definition status :: "validation_status \<Rightarrow> node \<times> p2p \<Rightarrow> outcome" where
  "status s st = (st, Inr (Some s))"

definition on_net :: "(p2p \<Rightarrow> p2p) \<Rightarrow> node \<times> p2p \<Rightarrow> node \<times> p2p" where
  "on_net f st = (fst st, f (snd st))"

definition first_hash :: "blockchain \<Rightarrow> json" where
  "first_hash bc = of_str_option (bl_hash (hd (bc_chain bc)))"

definition handle_hello :: "string \<Rightarrow> json \<Rightarrow> node \<times> p2p \<Rightarrow> outcome" where
  "handle_hello addr payload st =
     (let bc = nd_chain (fst st) in
      case payload of
        JObj p \<Rightarrow>
          if field ''chain_id'' p \<noteq> JStr (bc_chain_id bc) then no_status (on_net (create_task (Disconnect addr)) st)
          else if field ''genesis_hash'' p \<noteq> first_hash bc then no_status (on_net (create_task (Disconnect addr)) st)
          else (case as_number (case dict_get p ''latest_block_index'' of None \<Rightarrow> JInt 0 | Some v \<Rightarrow> v) of
                  Inl e \<Rightarrow> raised e st
                | Inr peer_tip \<Rightarrow>
                    let own = bl_index (last_block bc);
                        st1 = (if peer_tip > own then on_net (request_chain (JInt (own + 1)) (JInt 500)) st else st)
                    in no_status (on_net (create_task (Unicast addr (message ''getaddr'' (JObj [])))) st1))
      | _ \<Rightarrow> raised AttributeError st)"

definition handle_tx :: "'a crypto_scheme \<Rightarrow> int \<Rightarrow> json \<Rightarrow> node \<times> p2p \<Rightarrow> outcome" where
  "handle_tx cr now payload st =
     (case (case payload of JObj p \<Rightarrow> tx_from_dict now p | _ \<Rightarrow> Inl (Raised TypeError)) of
        Inl Unmodelled \<Rightarrow> (st, Inl Handler_unmodelled)
      | Inl (Raised e) \<Rightarrow> status MALFORMED st
      | Inr tx \<Rightarrow>
          let (nd, n) = st in
          if tx_chain_id tx \<noteq> bc_chain_id (nd_chain nd) then status INVALID st
          else (case check_transaction cr tx (nd_chain nd) of
                  (bc, s) \<Rightarrow>
                    let nd1 = nd\<lparr>nd_chain := bc\<rparr> in
                    if s \<noteq> VALID then status INVALID (nd1, n)
                    else (case add_transaction cr tx (nd_pool nd) of
                            (mp, added) \<Rightarrow>
                              status (if added then VALID else FAILED) (nd1\<lparr>nd_pool := mp\<rparr>, n))))"

definition handle_block :: "'a ext_scheme \<Rightarrow> int \<Rightarrow> json \<Rightarrow> node \<times> p2p \<Rightarrow> outcome" where
  "handle_block E now payload st =
     (case (case payload of JObj p \<Rightarrow> block_from_dict E now p | _ \<Rightarrow> Inl (Raised AttributeError)) of
        Inl Unmodelled \<Rightarrow> (st, Inl Handler_unmodelled)
      | Inl (Raised e) \<Rightarrow> status MALFORMED st
      | Inr b \<Rightarrow>
          let (nd, n) = st in
          (case add_block E now b (nd_chain nd) of
             (bc, Inl e) \<Rightarrow> raised e (nd\<lparr>nd_chain := bc\<rparr>, n)
           | (bc, Inr s) \<Rightarrow>
               let nd1 = nd\<lparr>nd_chain := bc\<rparr>; tip = bl_index (last_block bc) in
               if s = VALID then status s (nd1\<lparr>nd_pool := remove_transactions (bl_transactions b) (nd_pool nd)\<rparr>, n)
               else if bl_index b > tip + 1 then status s (nd1, request_chain (JInt (tip + 1)) (JInt 500) n)
               else status s (nd1, request_chain (JInt (max 0 (bl_index b - 50))) (JInt 50) n)))"

text \<open>\<open>xs[a : b]\<close>.\<close>

definition py_slice :: "'x list \<Rightarrow> int \<Rightarrow> int \<Rightarrow> 'x list" where
  "py_slice xs a b =
     (let n = int (length xs); pos = (\<lambda>i. nat (if i < 0 then max 0 (n + i) else i))
      in drop (pos a) (take (pos b) xs))"

definition handle_chain_request :: "string \<Rightarrow> json \<Rightarrow> node \<times> p2p \<Rightarrow> outcome" where
  "handle_chain_request addr payload st =
     (case (pget payload ''start_index'' (JInt 0), pget payload ''limit'' (JInt 500)) of
        (Inr start, Inr limit) \<Rightarrow>
          (let blocks = bc_chain (nd_chain (fst st));
               reply = (\<lambda>bs. no_status (on_net (create_task (Unicast addr (message ''chain_response''
                 (JObj [(''blocks'', JArr (map (\<lambda>b. JObj (block_to_dict b)) bs)), (''requested_limit'', limit)])))) st))
           in case as_number start of
                Inl e \<Rightarrow> raised e st
              | Inr i \<Rightarrow>
                  if i < int (length blocks)
                  then (case as_number limit of Inl e \<Rightarrow> raised e st | Inr l \<Rightarrow> reply (py_slice blocks i (i + l)))
                  else reply [])
      | _ \<Rightarrow> raised AttributeError st)"

text \<open>The linear catch-up: the first block that is not added ends it with a request for earlier blocks;
  the third component says that all were added.\<close>

fun sync_blocks :: "'a ext_scheme \<Rightarrow> int \<Rightarrow> block list \<Rightarrow> node \<times> p2p \<Rightarrow> (node \<times> p2p) \<times> (exn + bool)" where
  "sync_blocks E now [] st = (st, Inr True)"
| "sync_blocks E now (b # bs) (nd, n) =
     (if bl_index b \<le> bl_index (last_block (nd_chain nd)) then sync_blocks E now bs (nd, n)
      else case add_block E now b (nd_chain nd) of
             (bc, Inl e) \<Rightarrow> ((nd\<lparr>nd_chain := bc\<rparr>, n), Inl e)
           | (bc, Inr s) \<Rightarrow>
               if s = VALID
               then sync_blocks E now bs (nd\<lparr>nd_chain := bc, nd_pool := remove_transactions (bl_transactions b) (nd_pool nd)\<rparr>, n)
               else ((nd\<lparr>nd_chain := bc\<rparr>, request_chain (JInt (max 0 (bl_index b - 50))) (JInt 50) n), Inr False))"

text \<open>\<open>len(new_chain) == requested_limit\<close>, and the request for the next batch.\<close>

definition next_batch :: "block list \<Rightarrow> json \<Rightarrow> node \<times> p2p \<Rightarrow> node \<times> p2p" where
  "next_batch bs limit st =
     (if as_number limit = Inr (int (length bs))
      then on_net (request_chain (JInt (bl_index (last_block (nd_chain (fst st))) + 1)) limit) st else st)"

definition sync_chain :: "'a ext_scheme \<Rightarrow> int \<Rightarrow> block list \<Rightarrow> json \<Rightarrow> node \<times> p2p \<Rightarrow> outcome" where
  "sync_chain E now bs limit st =
     (let (nd, n) = st; tip = last_block (nd_chain nd); first = hd bs in
      if bl_index first = bl_index tip + 1 \<and> Some (bl_previous_hash first) = bl_hash tip
      then (case sync_blocks E now bs st of
              (st1, Inl e) \<Rightarrow> raised e st1
            | (st1, Inr all_added) \<Rightarrow> no_status (if all_added then next_batch bs limit st1 else st1))
      else (case resolve_conflicts E now bs (nd_chain nd) of
              (bc, Inl e) \<Rightarrow> raised e (nd\<lparr>nd_chain := bc\<rparr>, n)
            | (bc, Inr (True, orphaned)) \<Rightarrow>
                no_status (next_batch bs limit
                  (nd\<lparr>nd_chain := bc, nd_pool := fold (\<lambda>tx mp. fst (add_transaction E tx mp)) orphaned (nd_pool nd)\<rparr>, n))
            | (bc, Inr (False, _)) \<Rightarrow>
                no_status (nd\<lparr>nd_chain := bc\<rparr>,
                  if bl_index first > 0 then request_chain (JInt (max 0 (bl_index first - 50))) (JInt 50) n else n)))"

definition handle_chain_response :: "'a ext_scheme \<Rightarrow> int \<Rightarrow> json \<Rightarrow> node \<times> p2p \<Rightarrow> outcome" where
  "handle_chain_response E now payload st =
     (case (pget payload ''blocks'' (JArr []), pget payload ''requested_limit'' (JInt 500)) of
        (Inr bs, Inr limit) \<Rightarrow>
          if \<not> json_truthy bs then no_status st
          else (case bs of
                  JArr js \<Rightarrow>
                    (case dec_objects (block_from_dict E now) js of
                       Inl Unmodelled \<Rightarrow> (st, Inl Handler_unmodelled)
                     | Inl (Raised _) \<Rightarrow> no_status st
                     | Inr blocks \<Rightarrow> sync_chain E now blocks limit st)
                | _ \<Rightarrow> no_status st)
      | _ \<Rightarrow> raised AttributeError st)"

definition handle_getaddr :: "string \<Rightarrow> node \<times> p2p \<Rightarrow> outcome" where
  "handle_getaddr addr st =
     (case get_known_peers 50 (np_disk (snd st)) of
        Inl e \<Rightarrow> (st, Inl (Handler_store e))
      | Inr known \<Rightarrow>
          no_status (on_net (create_task (Unicast addr (message ''addr''
            (JObj [(''addrs'', JArr (map (\<lambda>r. JStr (fst (snd r))) known))])))) st))"

text \<open>\<open>addr.rsplit("/p2p/", 1)[-1]\<close>.\<close>

fun after_hop :: "string \<Rightarrow> string option" where
  "after_hop [] = None"
| "after_hop (c # cs) =
     (case after_hop cs of
        Some r \<Rightarrow> Some r
      | None \<Rightarrow> if take 5 (c # cs) = ''/p2p/'' then Some (drop 4 cs) else None)"

definition candidate_id :: "string \<Rightarrow> string" where
  "candidate_id a = (case after_hop a of None \<Rightarrow> a | Some r \<Rightarrow> r)"

text \<open>The addresses that a peer announces: each is remembered and dialed, unless it leads to the
  node itself or to a banned peer. What is iterated over may be a text (its characters) or a
  dictionary (its keys).\<close>

fun learn_addrs :: "int \<Rightarrow> json list \<Rightarrow> node \<times> p2p \<Rightarrow> outcome" where
  "learn_addrs now [] st = no_status st"
| "learn_addrs now (JStr a # as) (nd, n) =
     (let pid = candidate_id a in
      if np_peer_id n = Some pid then learn_addrs now as (nd, n)
      else case is_peer_banned pid (np_disk n) of
             Inl e \<Rightarrow> ((nd, n), Inl (Handler_store e))
           | Inr True \<Rightarrow> learn_addrs now as (nd, n)
           | Inr False \<Rightarrow>
               (case remember_peer pid a now (np_disk n) of
                  (d, Inl e) \<Rightarrow> ((nd, n\<lparr>np_disk := d\<rparr>), Inl (Handler_store e))
                | (d, Inr _) \<Rightarrow> learn_addrs now as (nd, create_task (Connect a) (n\<lparr>np_disk := d\<rparr>))))"
| "learn_addrs now (JOpaque # as) st = (st, Inl Handler_unmodelled)"
| "learn_addrs now (_ # as) st = raised AttributeError st"

definition handle_addr :: "int \<Rightarrow> json \<Rightarrow> node \<times> p2p \<Rightarrow> outcome" where
  "handle_addr now payload st =
     (case pget payload ''addrs'' (JArr []) of
        Inl e \<Rightarrow> raised e st
      | Inr (JArr as) \<Rightarrow> learn_addrs now as st
      | Inr (JStr s) \<Rightarrow> learn_addrs now (map (\<lambda>c. JStr (utf8_encode c)) (utf8_decode s)) st
      | Inr (JObj kvs) \<Rightarrow> learn_addrs now (map (\<lambda>p. JStr (fst p)) kvs) st
      | Inr _ \<Rightarrow> raised TypeError st)"

text \<open>The handler that \<open>make_network_handler\<close> returns. The reader passes only messages whose type
  is a text.\<close>

definition node_handler :: "'a ext_scheme \<Rightarrow> int \<Rightarrow> node handler" where
  "node_handler E now data st =
     (let msg_type = field ''type'' data; payload = field ''data'' data;
          addr = (case dict_get data ''_peer_addr'' of Some (JStr a) \<Rightarrow> a | _ \<Rightarrow> ''unknown'') in
      if payload = JNull \<and> msg_type \<in> JStr ` {''hello'', ''chain_request'', ''chain_response'', ''getaddr'', ''addr''}
      then no_status st
      else if msg_type = JStr ''hello'' then handle_hello addr payload st
      else if msg_type = JStr ''tx'' then handle_tx E now payload st
      else if msg_type = JStr ''block'' then handle_block E now payload st
      else if msg_type = JStr ''chain_request'' then handle_chain_request addr payload st
      else if msg_type = JStr ''chain_response'' then handle_chain_response E now payload st
      else if msg_type = JStr ''getaddr'' then handle_getaddr addr st
      else if msg_type = JStr ''addr'' then handle_addr now payload st
      else no_status st)"

text \<open>The greeting for a new peer.\<close>

definition hello :: "node \<Rightarrow> json option" where
  "hello nd =
     (let bc = nd_chain nd in
      Some (message ''hello'' (JObj
        [(''chain_id'', JStr (bc_chain_id bc)), (''genesis_hash'', first_hash bc),
         (''latest_block_index'', JInt (bl_index (last_block bc))),
         (''latest_block_hash'', of_str_option (bl_hash (last_block bc)))])))"

end
