(* ===== verification/Rpc.thy ===== *)
theory Rpc
  imports Node
begin

section \<open>The JSON-RPC server (rpc.py)\<close>

text \<open>
  \<open>JSONRPCServer\<close> without the HTTP server: a request is the text of its body, a reply is a result or an
  error with its code and the identifier of the request. Of an error message the model keeps what
  it is made of. A task that broadcasts a transaction runs before the next request; what it
  raises is lost.
\<close>

datatype rpc_message =
    Parse_error
  | Invalid_request
  | Method_not_found json
  | Exception_text exn

datatype rpc_reply =
    Rpc_ok json json
  | Rpc_err int rpc_message json

text \<open>What happens inside the \<open>try\<close>: the result, the error of an unknown method, or an exception.
  \<open>Unmodelled\<close> says that the model does not follow the request.\<close>

datatype rpc_result = Rpc_value json | Rpc_no_method

type_synonym rpc_outcome = "(node \<times> p2p) \<times> rpc_result decoded"

text \<open>\<open>if not params: raise ValueError\<close>, then \<open>params[0]\<close>. A dictionary has only keys that are texts.\<close>

definition first_param :: "json \<Rightarrow> json decoded" where
  "first_param params =
     (if \<not> json_truthy params then Inl (Raised ValueError)
      else case params of
             JArr (x # xs) \<Rightarrow> Inr x
           | JStr s \<Rightarrow> (case utf8_decode s of [] \<Rightarrow> Inl Unmodelled | c # cs \<Rightarrow> Inr (JStr (utf8_encode c)))
           | JObj _ \<Rightarrow> Inl (Raised KeyError)
           | JOpaque \<Rightarrow> Inl Unmodelled
           | _ \<Rightarrow> Inl (Raised TypeError))"

definition rpc_get_block :: "json \<Rightarrow> node \<times> p2p \<Rightarrow> rpc_outcome" where
  "rpc_get_block params st =
     (let bs = bc_chain (nd_chain (fst st)) in
      (st, decode_bind (first_param params) (\<lambda>idx.
         if idx = JStr ''latest'' then Inr (Rpc_value (JObj (block_to_dict (last_block (nd_chain (fst st))))))
         else decode_bind (py_int idx) (\<lambda>i.
           if i < 0 \<or> i \<ge> int (length bs) then Inr (Rpc_value JNull)
           else Inr (Rpc_value (JObj (block_to_dict (bs ! nat i))))))))"

text \<open>The look-up adds a blank account for an address that has none. A value that is not a text but
  can be a key would become an address too, which the model has no form for.\<close>

definition rpc_get_balance :: "json \<Rightarrow> node \<times> p2p \<Rightarrow> rpc_outcome" where
  "rpc_get_balance params st =
     (case first_param params of
        Inl e \<Rightarrow> (st, Inl e)
      | Inr (JStr a) \<Rightarrow>
          (let (nd, n) = st; A = get_account a (st_accounts (bc_state (nd_chain nd)))
           in ((nd\<lparr>nd_chain := set_accounts A (nd_chain nd)\<rparr>, n), Inr (Rpc_value (JInt (balance_of A a)))))
      | Inr (JArr _) \<Rightarrow> (st, Inl (Raised TypeError))
      | Inr (JObj _) \<Rightarrow> (st, Inl (Raised TypeError))
      | Inr _ \<Rightarrow> (st, Inl Unmodelled))"

definition rpc_send_transaction :: "'a crypto_scheme \<Rightarrow> int \<Rightarrow> json \<Rightarrow> node \<times> p2p \<Rightarrow> rpc_outcome" where
  "rpc_send_transaction cr now params st =
     (case decode_bind (first_param params)
             (\<lambda>p. case p of JObj d \<Rightarrow> tx_from_dict now d | JOpaque \<Rightarrow> Inl Unmodelled | _ \<Rightarrow> Inl (Raised TypeError)) of
        Inl e \<Rightarrow> (st, Inl e)
      | Inr tx \<Rightarrow>
          let (nd, n) = st in
          if \<not> tx_verify cr tx then (st, Inl (Raised ValueError))
          else (case check_transaction cr tx (nd_chain nd) of
                  (bc, s) \<Rightarrow>
                    let nd1 = nd\<lparr>nd_chain := bc\<rparr> in
                    if s \<noteq> VALID then ((nd1, n), Inl (Raised ValueError))
                    else (case add_transaction cr tx (nd_pool nd) of
                            (mp, False) \<Rightarrow> ((nd1\<lparr>nd_pool := mp\<rparr>, n), Inl (Raised ValueError))
                          | (mp, True) \<Rightarrow>
                              ((nd1\<lparr>nd_pool := mp\<rparr>,
                                case broadcast_transaction cr tx n of Inl e \<Rightarrow> n | Inr n1 \<Rightarrow> n1),
                               Inr (Rpc_value (JStr (tx_id cr tx)))))))"

definition rpc_call :: "'a crypto_scheme \<Rightarrow> int \<Rightarrow> json \<Rightarrow> json \<Rightarrow> node \<times> p2p \<Rightarrow> rpc_outcome" where
  "rpc_call cr now meth params st =
     (if meth = JStr ''mc_blockNumber''
      then (st, Inr (Rpc_value (JInt (bl_index (last_block (nd_chain (fst st)))))))
      else if meth = JStr ''mc_getBlockByNumber'' then rpc_get_block params st
      else if meth = JStr ''mc_getBalance'' then rpc_get_balance params st
      else if meth = JStr ''mc_sendTransaction'' then rpc_send_transaction cr now params st
      else (st, Inr Rpc_no_method))"

text \<open>\<open>None\<close>: the model does not follow the request.\<close>

definition process_single :: "'a crypto_scheme \<Rightarrow> int \<Rightarrow> json \<Rightarrow> node \<times> p2p \<Rightarrow> (node \<times> p2p) \<times> rpc_reply option" where
  "process_single cr now req st =
     (case req of
        JObj d \<Rightarrow>
          (let req_id = field ''id'' d in
           case dict_get d ''method'' of
             None \<Rightarrow> (st, Some (Rpc_err (- 32600) Invalid_request req_id))
           | Some meth \<Rightarrow>
               if field ''jsonrpc'' d \<noteq> JStr ''2.0'' then (st, Some (Rpc_err (- 32600) Invalid_request req_id))
               else (case rpc_call cr now meth (case dict_get d ''params'' of None \<Rightarrow> JArr [] | Some v \<Rightarrow> v) st of
                       (st1, Inl Unmodelled) \<Rightarrow> (st1, None)
                     | (st1, Inl (Raised e)) \<Rightarrow> (st1, Some (Rpc_err (- 32000) (Exception_text e) req_id))
                     | (st1, Inr Rpc_no_method) \<Rightarrow> (st1, Some (Rpc_err (- 32601) (Method_not_found meth) req_id))
                     | (st1, Inr (Rpc_value v)) \<Rightarrow> (st1, Some (Rpc_ok v req_id))))
      | _ \<Rightarrow> (st, Some (Rpc_err (- 32600) Invalid_request JNull)))"

fun process_all :: "'a crypto_scheme \<Rightarrow> int \<Rightarrow> json list \<Rightarrow> node \<times> p2p \<Rightarrow> (node \<times> p2p) \<times> rpc_reply option list" where
  "process_all cr now [] st = (st, [])"
| "process_all cr now (r # rs) st =
     (case process_single cr now r st of
        (st1, a) \<Rightarrow> (case process_all cr now rs st1 of (st2, as) \<Rightarrow> (st2, a # as)))"

datatype rpc_body = Single "rpc_reply option" | Batch "rpc_reply option list"

definition handle_rpc :: "'a crypto_scheme \<Rightarrow> int \<Rightarrow> string \<Rightarrow> node \<times> p2p \<Rightarrow> (node \<times> p2p) \<times> rpc_body" where
  "handle_rpc cr now body st =
     (case json_loads body of
        Inl Unmodelled \<Rightarrow> (st, Single None)
      | Inl (Raised _) \<Rightarrow> (st, Single (Some (Rpc_err (- 32700) Parse_error JNull)))
      | Inr (JArr reqs) \<Rightarrow> (case process_all cr now reqs st of (st1, as) \<Rightarrow> (st1, Batch as))
      | Inr req \<Rightarrow> (case process_single cr now req st of (st1, a) \<Rightarrow> (st1, Single a)))"

text \<open>A reply as it is sent; \<open>txt\<close> writes a message out.\<close>

fun reply_json :: "(rpc_message \<Rightarrow> string) \<Rightarrow> rpc_reply \<Rightarrow> json" where
  "reply_json msg (Rpc_ok result i) = JObj [(''jsonrpc'', JStr ''2.0''), (''result'', result), (''id'', i)]"
| "reply_json msg (Rpc_err code m i) =
     JObj [(''jsonrpc'', JStr ''2.0''),
       (''error'', JObj [(''code'', JInt code), (''message'', JStr (msg m))]), (''id'', i)]"

end
