(* ===== verification/Keys.thy ===== *)
theory Keys
  imports JsonRead
begin

section \<open>Keys on disk (main.py, identity.py)\<close>

text \<open>
  The wallet's file \<open>keystore.json\<close> and the node's file \<open>nodekey\<close>. A file is its content, \<open>None\<close>
  when it does not exist. A \<open>SigningKey\<close> is its seed of 32 bytes; \<open>fresh\<close> is the key that the
  generator would return.
\<close>

subsection \<open>The wallet\<close>

text \<open>\<open>HexEncoder\<close>.\<close>

definition hex_text :: "string \<Rightarrow> string" where
  "hex_text bs = concat (map (\<lambda>c. [digit (of_char c div 16), digit (of_char c mod 16)]) bs)"

text \<open>\<open>SigningKey(bytes.fromhex(h))\<close>; \<open>None\<close> is an exception.\<close>

definition signing_key :: "string \<Rightarrow> string option" where
  "signing_key h =
     (case fromhex h of
        None \<Rightarrow> None
      | Some seed \<Rightarrow> if length seed = 32 then Some seed else None)"

text \<open>The \<open>try\<close> around reading the file: \<open>None\<close> when it gives no key.\<close>

definition read_keystore :: "string \<Rightarrow> string option decoded" where
  "read_keystore s =
     (if \<not> utf8_text s then Inr None
      else case json_loads s of
             Inl Unmodelled \<Rightarrow> Inl Unmodelled
           | Inr (JObj d) \<Rightarrow> (case dict_get d ''private_key'' of Some (JStr h) \<Rightarrow> Inr (signing_key h) | _ \<Rightarrow> Inr None)
           | _ \<Rightarrow> Inr None)"

definition keystore_text :: "string \<Rightarrow> string" where
  "keystore_text sk = dumps_with default_style (JObj [(''private_key'', JStr (hex_text sk))])"

text \<open>The key, and the file afterwards; a file that cannot be written stays as it is.\<close>

definition load_or_create_wallet :: "bool \<Rightarrow> string \<Rightarrow> string option \<Rightarrow> (string \<times> string option) decoded" where
  "load_or_create_wallet writable fresh keystore =
     decode_bind (case keystore of None \<Rightarrow> Inr None | Some s \<Rightarrow> read_keystore s)
       (\<lambda>k. case k of
               Some sk \<Rightarrow> Inr (sk, keystore)
             | None \<Rightarrow> Inr (fresh, if writable then Some (keystore_text fresh) else keystore))"

subsection \<open>The identity\<close>

text \<open>The key pairs of libp2p, with \<open>Ed25519PrivateKey.from_bytes\<close> (\<open>None\<close> when it raises) and
  \<open>to_bytes\<close>.\<close>

record 'k key_codec =
  kc_from_bytes :: "string \<Rightarrow> 'k option"
  kc_to_bytes :: "'k \<Rightarrow> string"

definition load_or_create_keypair :: "'k key_codec \<Rightarrow> 'k \<Rightarrow> string option \<Rightarrow> 'k \<times> string option" where
  "load_or_create_keypair kc fresh nodekey =
     (case (case nodekey of None \<Rightarrow> None | Some seed \<Rightarrow> kc_from_bytes kc seed) of
        Some k \<Rightarrow> (k, nodekey)
      | None \<Rightarrow> (fresh, Some (kc_to_bytes kc fresh)))"

subsection \<open>Laws\<close>

lemma fromhex_hex_text: "fromhex (hex_text bs) = Some bs"
proof (induction bs)
  case (Cons c bs)
  have c: "(of_char c :: nat) < 256" by simp
  then have d: "(of_char c :: nat) div 16 < 16" "(of_char c :: nat) mod 16 < 16" by linarith+
  then have v: "digit_val 16 (digit (of_char c div 16)) = Some (of_char c div 16)"
    "digit_val 16 (digit (of_char c mod 16)) = Some (of_char c mod 16)"
    by (simp_all add: digit_val_digit)
  have s: "\<not> is_space (digit (of_char c div 16))" using digit_not_special [OF d(1)] by simp
  have "char_of (16 * (of_char c div 16) + of_char c mod 16 :: nat) = c" by simp
  with Cons v s show ?case by (simp add: hex_text_def)
qed (simp add: hex_text_def)

text \<open>What the keystore holds are plain characters: printing leaves them as they are.\<close>

definition plain_char :: "char \<Rightarrow> bool" where
  "plain_char c \<longleftrightarrow> (let n = (of_char c :: nat) in 32 \<le> n \<and> n < 127 \<and> n \<noteq> 34 \<and> n \<noteq> 92)"

lemma hex_text_plain: "list_all plain_char (hex_text bs)"
proof -
  have "plain_char (digit d)" if "d < 16" for d
    using less_16_cases [OF that] by (auto simp: digit_def plain_char_def)
  moreover have "(of_char c :: nat) div 16 < 16" for c :: char
    using nat_of_char_less_256 [of c] by linarith
  ultimately show ?thesis by (auto simp: hex_text_def list_all_iff)
qed

lemma plain_decode: "list_all plain_char s \<Longrightarrow> utf8_decode s = map of_char s \<and> concat (map esc_ascii (utf8_decode s)) = s"
  by (induction s) (auto simp: plain_char_def esc_ascii_def Let_def)

lemma plain_utf8: "list_all (\<lambda>c. of_char c < (128::nat)) s \<Longrightarrow> utf8_text s"
  by (induction s) (auto simp: utf8_text_def Let_def code_point_def utf8_encode_ascii)

lemma plain_quote: "list_all plain_char s \<Longrightarrow> quote_str True s = [CHR 0x22] @ s @ [CHR 0x22]"
  by (simp only: quote_str_def if_True plain_decode [THEN conjunct2])

lemma plain_ascii: "list_all plain_char s \<Longrightarrow> list_all (\<lambda>c. of_char c < (128::nat)) s"
  by (induction s) (simp_all add: plain_char_def Let_def)

lemma keystore_utf8: "utf8_text (keystore_text sk)"
proof (rule plain_utf8)
  have "list_all plain_char ''private_key''" by (simp add: plain_char_def)
  then have "keystore_text sk = ''{'' @ [CHR 0x22] @ ''private_key'' @ [CHR 0x22] @ '': '' @ [CHR 0x22] @ hex_text sk @ [CHR 0x22] @ ''}''"
    by (simp add: keystore_text_def default_style_def plain_quote hex_text_plain)
  then show "list_all (\<lambda>c. of_char c < (128::nat)) (keystore_text sk)"
    using plain_ascii [OF hex_text_plain [of sk]] by simp
qed

lemma read_keystore_text: "length sk = 32 \<Longrightarrow> read_keystore (keystore_text sk) = Inr (Some sk)"
proof -
  assume k: "length sk = 32"
  have "json_ok default_style (JObj [(''private_key'', JStr (hex_text sk))])"
    using plain_utf8 [OF plain_ascii [OF hex_text_plain [of sk]]]
    by (simp add: readable_def plain_utf8)
  from json_loads_dumps [OF style_ok_used(1) this] have "json_loads (keystore_text sk) = Inr (JObj [(''private_key'', JStr (hex_text sk))])"
    using written_plain [of default_style] by (simp add: keystore_text_def default_style_def)
  with k show ?thesis by (simp add: read_keystore_def keystore_utf8 signing_key_def fromhex_hex_text)
qed

end
