(* ===== verification/Cli.thy ===== *)
theory Cli
  imports Node Keys
begin

section \<open>The terminal (main.py)\<close>

text \<open>
  The commands of \<open>cli_loop\<close>, and the start and the end of \<open>run_node\<close>. What is printed is left
  out. The clock stands still during one command: \<open>now\<close> is the time in milliseconds.
\<close>

subsection \<open>Commands\<close>

text \<open>\<open>parse_tx_params\<close>: amount, gas limit and fee from the words from position \<open>start\<close> on.\<close>

definition word_int :: "string list \<Rightarrow> nat \<Rightarrow> int option" where
  "word_int parts i = (if length parts > i then py_int_of_str 10 (parts ! i) else Some 0)"

definition parse_tx_params :: "string list \<Rightarrow> nat \<Rightarrow> (int \<times> int \<times> int) option" where
  "parse_tx_params parts start =
     (case (word_int parts start, word_int parts (start + 1), word_int parts (start + 2)) of
        (Some amount, Some gas_limit, Some fee_per_gas) \<Rightarrow>
          if amount < 0 \<or> gas_limit < 0 \<or> fee_per_gas < 0 then None
          else Some (amount, gas_limit, fee_per_gas)
      | _ \<Rightarrow> None)"

text \<open>\<open>submit_and_broadcast\<close>; the truth value says that the transaction was taken.\<close>

definition submit_and_broadcast :: "'a crypto_scheme \<Rightarrow> transaction \<Rightarrow> node \<times> p2p \<Rightarrow> (node \<times> p2p) \<times> (exn + bool)" where
  "submit_and_broadcast cr tx st =
     (let (nd, n) = st in
      case check_transaction cr tx (nd_chain nd) of
        (bc, s) \<Rightarrow>
          let nd1 = nd\<lparr>nd_chain := bc\<rparr> in
          if s \<noteq> VALID then ((nd1, n), Inr False)
          else (case add_transaction cr tx (nd_pool nd) of
                  (mp, False) \<Rightarrow> ((nd1\<lparr>nd_pool := mp\<rparr>, n), Inr False)
                | (mp, True) \<Rightarrow>
                    (case broadcast_transaction cr tx n of
                       Inl e \<Rightarrow> ((nd1\<lparr>nd_pool := mp\<rparr>, n), Inl e)
                     | Inr n1 \<Rightarrow> ((nd1\<lparr>nd_pool := mp\<rparr>, n1), Inr True))))"

text \<open>The common end of \<open>send\<close>, \<open>deploy\<close> and \<open>call\<close>: the nonce of the wallet's account, the signature
  and the submission. \<open>sk\<close> is the wallet's key.\<close>

definition submit_command ::
  "'a crypto_scheme \<Rightarrow> int \<Rightarrow> string \<Rightarrow> string option \<Rightarrow> int \<times> int \<times> int \<Rightarrow> string option \<Rightarrow> node \<times> p2p
     \<Rightarrow> (node \<times> p2p) \<times> (exn + bool)" where
  "submit_command cr now sk rcv params dat st =
     (let (amount, gas_limit, fee_per_gas) = params; pk = ed25519_public cr sk; (nd, n) = st;
          A = get_account pk (st_accounts (bc_state (nd_chain nd)));
          nd1 = nd\<lparr>nd_chain := set_accounts A (nd_chain nd)\<rparr>;
          tx = new_transaction now pk rcv amount (nonce_of A pk) gas_limit fee_per_gas dat
                 (bc_chain_id (nd_chain nd)) None None
      in case tx_sign cr sk tx of
           Inl e \<Rightarrow> ((nd1, n), Inl e)
         | Inr tx1 \<Rightarrow> submit_and_broadcast cr tx1 (nd1, n))"

text \<open>One command of the terminal, as its words with the first in lower case. \<open>files\<close> is what
  the file system holds; \<open>None\<close> ends the loop.\<close>

datatype cli_error = Cli_raised exn | Cli_mining mining_stop | Cli_store db_error

definition cli_send :: "'a crypto_scheme \<Rightarrow> int \<Rightarrow> string \<Rightarrow> string list \<Rightarrow> node \<times> p2p \<Rightarrow> (node \<times> p2p) \<times> (exn + bool)" where
  "cli_send cr now sk parts st =
     (if length parts < 3 \<or> \<not> is_valid_receiver (parts ! 1) then (st, Inr False)
      else case parse_tx_params parts 2 of
             None \<Rightarrow> (st, Inr False)
           | Some (amount, g, f) \<Rightarrow>
               if amount \<le> 0 then (st, Inr False)
               else submit_command cr now sk (Some (parts ! 1)) (amount, g, f) None st)"

definition cli_deploy ::
  "'a crypto_scheme \<Rightarrow> (string \<Rightarrow> string option) \<Rightarrow> int \<Rightarrow> string \<Rightarrow> string list \<Rightarrow> node \<times> p2p
     \<Rightarrow> (node \<times> p2p) \<times> (exn + bool)" where
  "cli_deploy cr files now sk parts st =
     (if length parts < 2 then (st, Inr False)
      else case files (parts ! 1) of
             None \<Rightarrow> (st, Inr False)
           | Some code \<Rightarrow>
               (case parse_tx_params parts 2 of
                  None \<Rightarrow> (st, Inr False)
                | Some ps \<Rightarrow> submit_command cr now sk None ps (Some code) st))"

definition cli_call :: "'a crypto_scheme \<Rightarrow> int \<Rightarrow> string \<Rightarrow> string list \<Rightarrow> node \<times> p2p \<Rightarrow> (node \<times> p2p) \<times> (exn + bool)" where
  "cli_call cr now sk parts st =
     (if length parts < 3 \<or> \<not> is_valid_receiver (parts ! 1) then (st, Inr False)
      else case parse_tx_params parts 3 of
             None \<Rightarrow> (st, Inr False)
           | Some ps \<Rightarrow> submit_command cr now sk (Some (parts ! 1)) ps (Some (parts ! 2)) st)"

definition cli_mine ::
  "'a ext_scheme \<Rightarrow> int \<Rightarrow> (int \<Rightarrow> bool) \<Rightarrow> int \<Rightarrow> string \<Rightarrow> node \<times> p2p \<Rightarrow> (node \<times> p2p) \<times> (cli_error + bool)" where
  "cli_mine E now late start sk st =
     (case mine_and_process_block E now late start (ed25519_public E sk) (fst st) of
        (nd, Inl (Mining_raised e)) \<Rightarrow> ((nd, snd st), Inl (Cli_raised e))
      | (nd, Inl (Mining_stopped r)) \<Rightarrow> ((nd, snd st), Inl (Cli_mining r))
      | (nd, Inr None) \<Rightarrow> ((nd, snd st), Inr False)
      | (nd, Inr (Some b)) \<Rightarrow>
          (case broadcast_block E b (snd st) of
             Inl e \<Rightarrow> ((nd, snd st), Inl (Cli_raised e))
           | Inr n \<Rightarrow> ((nd, n), Inr True)))"

definition cli_ban :: "int \<Rightarrow> string list \<Rightarrow> node \<times> p2p \<Rightarrow> (node \<times> p2p) \<times> (cli_error + bool)" where
  "cli_ban now parts st =
     (if length parts < 2 then (st, Inr False)
      else let (nd, n) = st; pid = parts ! 1 in
        case ban_peer pid ''Manual ban via CLI'' now (np_disk n) of
          (d, Inl e) \<Rightarrow> ((nd, n\<lparr>np_disk := d\<rparr>), Inl (Cli_store e))
        | (d, Inr _) \<Rightarrow> ((nd, disconnect_peer (peer_addr pid) (n\<lparr>np_disk := d\<rparr>)), Inr True))"

definition cli_unban :: "string list \<Rightarrow> node \<times> p2p \<Rightarrow> (node \<times> p2p) \<times> (cli_error + bool)" where
  "cli_unban parts st =
     (if length parts < 2 then (st, Inr False)
      else let (nd, n) = st in
        case unban_peer (parts ! 1) (np_disk n) of
          (d, Inl e) \<Rightarrow> ((nd, n\<lparr>np_disk := d\<rparr>), Inl (Cli_store e))
        | (d, Inr _) \<Rightarrow> ((nd, n\<lparr>np_disk := d\<rparr>), Inr True))"

text \<open>\<open>import_key\<close>: the wallet in memory and on disk; a key that cannot be saved is not taken.\<close>

definition cli_import :: "bool \<Rightarrow> string list \<Rightarrow> string \<times> string option \<Rightarrow> string \<times> string option" where
  "cli_import writable parts w =
     (if length parts < 2 then w
      else case signing_key (parts ! 1) of
             None \<Rightarrow> w
           | Some sk \<Rightarrow> if writable then (sk, Some (keystore_text sk)) else w)"

text \<open>One turn of \<open>cli_loop\<close> with the wallet and the node; \<open>False\<close> ends the loop, and so does an
  exception. The other commands only print: of these only \<open>list-banned\<close> can fail.\<close>

type_synonym terminal = "(string \<times> string option) \<times> node \<times> p2p"

definition on_node :: "string \<times> string option \<Rightarrow> (node \<times> p2p) \<times> (cli_error + bool) \<Rightarrow> terminal \<times> (cli_error + bool)" where
  "on_node w x = ((w, fst x), map_sum id (\<lambda>_. True) (snd x))"

definition cli_command ::
  "'a ext_scheme \<Rightarrow> (string \<Rightarrow> string option) \<Rightarrow> bool \<Rightarrow> int \<Rightarrow> (int \<Rightarrow> bool) \<Rightarrow> int \<Rightarrow> string list \<Rightarrow> terminal
     \<Rightarrow> terminal \<times> (cli_error + bool)" where
  "cli_command E files writable now late start parts t =
     (let (w, st) = t; sk = fst w; cmd = hd parts; raises = apsnd (map_sum Cli_raised id) in
      if parts = [] then (t, Inr True)
      else if cmd = ''send'' then on_node w (raises (cli_send E now sk parts st))
      else if cmd = ''deploy'' then on_node w (raises (cli_deploy E files now sk parts st))
      else if cmd = ''call'' then on_node w (raises (cli_call E now sk parts st))
      else if cmd = ''mine'' then on_node w (cli_mine E now late start sk st)
      else if cmd = ''connect'' \<and> length parts \<ge> 2
      then ((w, fst st, connect_to_peer (parts ! 1) (snd st)), Inr True)
      else if cmd = ''import_key'' then ((cli_import writable parts w, st), Inr True)
      else if cmd = ''list-banned''
      then (t, map_sum Cli_store (\<lambda>_. True) (get_banned_peers (np_disk (snd st))))
      else if cmd = ''ban'' then on_node w (cli_ban now parts st)
      else if cmd = ''unban'' then on_node w (cli_unban parts st)
      else (t, Inr (cmd \<notin> {''quit'', ''exit'', ''q''})))"

subsection \<open>Start and end\<close>

datatype boot_error = Refused | Boot_store db_error | Boot_genesis genesis_error | Boot_network exn

text \<open>\<open>run_node\<close> up to the network: a saved chain is loaded; one that is corrupt ends the program.\<close>

definition boot_chain :: "'a crypto_scheme \<Rightarrow> int \<Rightarrow> genesis_config \<Rightarrow> disk \<Rightarrow> boot_error + blockchain" where
  "boot_chain cr now g d =
     (if persistence_exists d
      then (case load cr now g d of
              Inl (Py_raised ValueError) \<Rightarrow> Inl Refused
            | Inl (Genesis_failed e) \<Rightarrow> Inl (Boot_genesis e)
            | Inl e \<Rightarrow> Inl (Boot_store e)
            | Inr bc \<Rightarrow> Inr bc)
      else map_sum Boot_genesis id (create_genesis cr now g))"

definition boot :: "'a crypto_scheme \<Rightarrow> int \<Rightarrow> genesis_config \<Rightarrow> disk \<Rightarrow> int \<Rightarrow> string \<Rightarrow> boot_error + node \<times> p2p" where
  "boot cr now g d fund pk =
     (case boot_chain cr now g d of
        Inl e \<Rightarrow> Inl e
      | Inr bc \<Rightarrow>
          (case new_p2p d DECAY_INTERVAL_MINUTES (int MALFORMED_THRESHOLD) (int FAILED_THRESHOLD) (int INVALID_THRESHOLD) of
             Inl e \<Rightarrow> Inl (Boot_network e)
           | Inr n \<Rightarrow>
               (let bc1 = (if fund > 0
                           then set_accounts (credit_mining_reward pk (Some fund) (st_accounts (bc_state bc))) bc else bc)
                in Inr (\<lparr>nd_chain = bc1, nd_pool = new_mempool None None\<rparr>, n))))"

text \<open>On the way out the chain is saved; an error is only logged.\<close>

definition shut_down :: "node \<times> p2p \<Rightarrow> disk" where
  "shut_down st = fst (save (nd_chain (fst st)) (np_disk (snd st)))"

end
