(* ===== verification/NodeInv.thy ===== *)
theory NodeInv
  imports Rpc Cli StoreLoad PeersInv
begin

section \<open>The invariant of the node\<close>

text \<open>Messages, commands and requests keep the chain linked, the mempool in order and the caches of the
  network bounded. The handler of messages is an instance of \<open>message_handler\<close>.\<close>

definition node_ok :: "'a crypto_scheme \<Rightarrow> node \<Rightarrow> bool" where
  "node_ok cr nd \<longleftrightarrow> chain_ok cr (nd_chain nd) \<and> mempool_ok cr (nd_pool nd)"

lemma plain_get_account: "plain_ok A \<Longrightarrow> plain_ok (get_account k A)"
  by (simp add: plain_ok_def get_account_def acc_depth_touch acc_depth_put)

lemma set_accounts_ok: "chain_ok cr bc \<Longrightarrow> plain_ok A \<Longrightarrow> chain_ok cr (set_accounts A bc)"
  by (simp add: chain_ok_def set_accounts_def)

lemma chain_plain: "chain_ok cr bc \<Longrightarrow> plain_ok (st_accounts (bc_state bc))"
  by (simp add: chain_ok_def)

lemma check_transaction_ok: "chain_ok cr bc \<Longrightarrow> check_transaction cr' tx bc = (bc', s) \<Longrightarrow> chain_ok cr bc'"
  by (auto simp: check_transaction_def verify_transaction_logic_def Let_def chain_ok_def plain_get_account
      split: if_splits prod.splits)

lemma add_all_ok: "mempool_ok cr mp \<Longrightarrow> mempool_ok cr (fold (\<lambda>tx mp. fst (add_transaction cr tx mp)) txs mp)"
  by (induction txs arbitrary: mp) (simp_all add: add_transaction_ok)

lemma add_one_ok: "mempool_ok cr mp \<Longrightarrow> add_transaction cr tx mp = (mp', b) \<Longrightarrow> mempool_ok cr mp'"
  using add_transaction_ok [of cr mp tx] by simp

lemmas keep_ok = add_block_ok resolve_ok check_transaction_ok add_all_ok add_one_ok remove_transactions_ok

subsection \<open>The handler\<close>

lemma outcome_simps [simp]:
  "fst (raised e st) = st" "fst (no_status st) = st" "fst (status s st) = st"
  "fst (on_net f st) = fst st" "snd (on_net f st) = f (snd st)" "np_core (request_chain a b n) = np_core n"
  by (simp_all add: raised_def no_status_def status_def on_net_def request_chain_def)

text \<open>What a handler keeps of a node and its network.\<close>

definition kept :: "'a crypto_scheme \<Rightarrow> node \<times> p2p \<Rightarrow> node \<times> p2p \<Rightarrow> bool" where
  "kept cr st st' \<longleftrightarrow> (node_ok cr (fst st) \<longrightarrow> node_ok cr (fst st')) \<and> np_core (snd st') = np_core (snd st)"

lemma kept_refl [simp]: "kept cr st st"
  by (simp add: kept_def)

lemma kept_net: "(\<And>n. np_core (f n) = np_core n) \<Longrightarrow> kept cr st (on_net f st)"
  by (simp add: kept_def)

lemma kept_trans: "kept cr a b \<Longrightarrow> kept cr b c \<Longrightarrow> kept cr a c"
  by (simp add: kept_def)

lemma hello_kept: "kept cr st (fst (handle_hello addr payload st))"
  by (auto simp: handle_hello_def Let_def kept_def split: json.splits sum.splits)

lemma tx_kept: "kept cr st (fst (handle_tx cr now payload st))"
proof -
  obtain nd n where st: "st = (nd, n)" by fastforce
  show ?thesis
    by (auto simp: st handle_tx_def Let_def kept_def node_ok_def intro: keep_ok
        split: sum.splits decode_error.splits prod.splits)
qed

lemma block_kept: "kept E st (fst (handle_block E now payload st))"
proof -
  obtain nd n where st: "st = (nd, n)" by fastforce
  show ?thesis
    by (auto simp: st handle_block_def Let_def kept_def node_ok_def intro: keep_ok
        split: sum.splits decode_error.splits prod.splits)
qed

lemma chain_request_kept: "kept cr st (fst (handle_chain_request addr payload st))"
  by (auto simp: handle_chain_request_def Let_def kept_def split: sum.splits)

lemma sync_blocks_kept: "kept E st (fst (sync_blocks E now bs st))"
proof (induction E now bs st rule: sync_blocks.induct)
  case (2 E now b bs nd n)
  show ?case
  proof (cases "bl_index b \<le> bl_index (last_block (nd_chain nd))")
    case True
    then show ?thesis using 2(1) by simp
  next
    case False
    obtain bc r where a: "add_block E now b (nd_chain nd) = (bc, r)" by fastforce
    have ok: "chain_ok E (nd_chain nd) \<Longrightarrow> chain_ok E bc" using add_block_ok [OF _ a] by blast
    show ?thesis
    proof (cases "r = Inr VALID")
      case True
      have "kept E (nd, n) (nd\<lparr>nd_chain := bc, nd_pool := remove_transactions (bl_transactions b) (nd_pool nd)\<rparr>, n)"
        using ok by (simp add: kept_def node_ok_def remove_transactions_ok)
      note first = this
      show ?thesis using kept_trans [OF first 2(2) [OF False a [symmetric]]] True False a by simp
    next
      case False
      then show ?thesis using ok a \<open>\<not> bl_index b \<le> bl_index (last_block (nd_chain nd))\<close>
        by (cases r) (auto simp: kept_def node_ok_def)
    qed
  qed
qed simp

lemma next_batch_kept: "kept cr st (next_batch bs limit st)"
  by (simp add: next_batch_def kept_net)

lemma sync_chain_kept: "kept E st (fst (sync_chain E now bs limit st))"
proof -
  obtain nd n where st: "st = (nd, n)" by fastforce
  obtain bc r where rc: "resolve_conflicts E now bs (nd_chain nd) = (bc, r)" by fastforce
  have ok: "chain_ok E (nd_chain nd) \<Longrightarrow> chain_ok E bc" using resolve_ok [OF _ rc] by blast
  obtain st1 r1 where sb: "sync_blocks E now bs (nd, n) = (st1, r1)" by fastforce
  have k: "kept E (nd, n) st1" using sync_blocks_kept [of E "(nd, n)" now bs] sb by simp
  have k1: "kept E (nd, n) (next_batch bs limit st1)" by (rule kept_trans [OF k next_batch_kept])
  have k2: "kept E (nd, n) (next_batch bs limit
       (nd\<lparr>nd_chain := bc, nd_pool := fold (\<lambda>tx mp. fst (add_transaction E tx mp)) txs (nd_pool nd)\<rparr>, n))" for txs
    by (rule kept_trans [OF _ next_batch_kept]) (simp add: kept_def node_ok_def ok add_all_ok)
  have k3: "kept E (nd, n) (nd\<lparr>nd_chain := bc\<rparr>, m)" if "np_core m = np_core n" for m
    using that by (simp add: kept_def node_ok_def ok)
  show ?thesis using k k1 k2 k3
    by (auto simp: st sync_chain_def Let_def rc sb split: sum.splits bool.splits)
qed

lemma chain_response_kept: "kept E st (fst (handle_chain_response E now payload st))"
  by (auto simp: handle_chain_response_def Let_def sync_chain_kept split: sum.splits json.splits decode_error.splits)

lemma getaddr_kept: "kept cr st (fst (handle_getaddr addr st))"
  by (auto simp: handle_getaddr_def kept_def split: sum.splits)

lemma learn_kept: "kept cr st (fst (learn_addrs now as st))"
proof (induction now as st rule: learn_addrs.induct)
  case (2 now a as nd n)
  let ?pid = "candidate_id a"
  show ?case
  proof (cases "np_peer_id n = Some ?pid")
    case True
    then show ?thesis using 2(1) by simp
  next
    case False
    obtain d r where d: "remember_peer ?pid a now (np_disk n) = (d, r)" by fastforce
    have k: "kept cr (nd, n) (nd, create_task (Connect a) (n\<lparr>np_disk := d\<rparr>))" by (simp add: kept_def)
    show ?thesis using False d 2(2) [OF refl False] 2(3) [OF refl False _ _ d [symmetric]] kept_trans [OF k]
      by (auto simp: Let_def kept_def split: sum.splits bool.splits)
  qed
qed (simp_all add: no_status_def raised_def)

lemma addr_kept: "kept cr st (fst (handle_addr now payload st))"
  by (auto simp: handle_addr_def learn_kept split: sum.splits json.splits)

lemma handler_kept: "kept E st (fst (node_handler E now data st))"
  by (simp add: node_handler_def Let_def hello_kept tx_kept block_kept chain_request_kept chain_response_kept
      getaddr_kept addr_kept)

interpretation node: message_handler "\<lambda>now. node_handler E now" "node_ok E" for E :: "'a ext_scheme"
proof
  fix a d n now
  show "node_ok E a \<Longrightarrow> node_ok E (fst (fst (node_handler E now d (a, n))))"
    using handler_kept [of E "(a, n)" now d] by (simp add: kept_def)
  show "np_core (snd (fst (node_handler E now d (a, n)))) = np_core n"
    using handler_kept [of E "(a, n)" now d] by (simp add: kept_def)
qed

subsection \<open>Commands and requests\<close>

definition whole_ok :: "'a crypto_scheme \<Rightarrow> node \<times> p2p \<Rightarrow> bool" where
  "whole_ok cr st \<longleftrightarrow> node_ok cr (fst st) \<and> network_ok (snd st)"

lemma whole_inv:
  fixes E :: "'a ext_scheme"
  shows "message_handler.inv (node_ok E) st \<longleftrightarrow> whole_ok E st"
  by (simp add: message_handler.inv_def [OF node.message_handler_axioms] whole_ok_def)

lemma broadcast_ok:
  "network_ok n \<Longrightarrow> broadcast_transaction cr tx n = Inr n' \<Longrightarrow> network_ok n'"
  "network_ok n \<Longrightarrow> broadcast_block cr b n = Inr n' \<Longrightarrow> network_ok n'"
  using mark_seen_ok network_core [OF core_simps(1)]
  by (fastforce simp: broadcast_transaction_def broadcast_block_def map_sum_def split: sum.splits)+

lemma stale_ok: "node_ok cr nd \<Longrightarrow> node_ok cr (drop_stale txs nd) \<and> nd_chain (drop_stale txs nd) = nd_chain nd"
  by (simp add: drop_stale_def node_ok_def remove_transactions_ok)

lemma mine_ok:
  assumes "node_ok E nd" "mine_and_process_block E now late start pk nd = (nd', r)"
  shows "node_ok E nd'"
proof -
  let ?bc = "nd_chain nd" and ?pending = "get_transactions_for_block (nd_pool nd)"
  obtain st x where s: "select_txs E (state_copy (bc_state ?bc)) ?pending = (st, x)" by fastforce
  show ?thesis
  proof (cases x)
    case (Inl e)
    with assms s show ?thesis by (simp add: mine_and_process_block_def Let_def)
  next
    case (Inr y)
    obtain ms stale where y: "y = (ms, stale)" by fastforce
    let ?nd = "drop_stale stale nd"
    have k: "node_ok E ?nd" "nd_chain ?nd = ?bc" using stale_ok [OF assms(1)] by auto
    show ?thesis
    proof (cases "candidate_block E now pk ?bc ms st")
      case Inl
      with assms s Inr y k show ?thesis by (simp add: mine_and_process_block_def Let_def)
    next
      case b0: (Inr b0)
      obtain b m where m: "mine_block E b0 None None late (\<lambda>_ _. False) start = (b, m)" by fastforce
      obtain bc' z where z: "add_block E now b ?bc = (bc', z)" by fastforce
      have ok: "chain_ok E bc'" using assms(1) add_block_ok [OF _ z] by (simp add: node_ok_def)
      have "node_ok E ?nd" "node_ok E (?nd\<lparr>nd_chain := bc'\<rparr>)"
        "node_ok E (?nd\<lparr>nd_chain := bc', nd_pool := remove_transactions (map fst ms) (nd_pool ?nd)\<rparr>)"
        "node_ok E (?nd\<lparr>nd_chain := bc', nd_pool := fold (\<lambda>tx mp. fst (add_transaction E tx mp)) ?pending (nd_pool ?nd)\<rparr>)"
        using k ok by (auto simp: node_ok_def remove_transactions_ok add_all_ok)
      with assms(2) s Inr y b0 m z show ?thesis
        by (auto simp: mine_and_process_block_def Let_def split: sum.splits mine_outcome.splits if_splits)
    qed
  qed
qed

lemma submit_ok:
  assumes "whole_ok cr st" "submit_and_broadcast cr tx st = (st', r)"
  shows "whole_ok cr st'"
proof -
  obtain nd n where st: "st = (nd, n)" by fastforce
  obtain bc s where c: "check_transaction cr tx (nd_chain nd) = (bc, s)" by fastforce
  obtain mp b where a: "add_transaction cr tx (nd_pool nd) = (mp, b)" by fastforce
  have ok: "chain_ok cr bc" "mempool_ok cr mp" "mempool_ok cr (nd_pool nd)" "network_ok n"
    using assms(1) check_transaction_ok [OF _ c] add_one_ok [OF _ a] by (auto simp: st whole_ok_def node_ok_def)
  show ?thesis using assms(2) ok broadcast_ok(1) [OF ok(4)]
    by (auto simp: st submit_and_broadcast_def c a whole_ok_def node_ok_def Let_def split: if_splits bool.splits sum.splits)
qed

lemma submit_command_ok:
  assumes "whole_ok cr st" "submit_command cr now sk rcv ps dat st = (st', r)"
  shows "whole_ok cr st'"
proof -
  obtain nd n where st: "st = (nd, n)" by fastforce
  obtain am g f where ps: "ps = (am, g, f)" by (cases ps)
  let ?nd = "nd\<lparr>nd_chain := set_accounts (get_account (ed25519_public cr sk) (st_accounts (bc_state (nd_chain nd)))) (nd_chain nd)\<rparr>"
  have "whole_ok cr (?nd, n)" using assms(1)
    by (auto simp: st whole_ok_def node_ok_def intro!: set_accounts_ok plain_get_account chain_plain)
  then show ?thesis using assms(2) submit_ok [of cr "(?nd, n)"]
    by (auto simp: st ps submit_command_def Let_def split: sum.splits)
qed

lemma cli_ok:
  "whole_ok cr st \<Longrightarrow> cli_send cr now sk parts st = (st', r) \<Longrightarrow> whole_ok cr st'"
  "whole_ok cr st \<Longrightarrow> cli_deploy cr files now sk parts st = (st', r) \<Longrightarrow> whole_ok cr st'"
  "whole_ok cr st \<Longrightarrow> cli_call cr now sk parts st = (st', r) \<Longrightarrow> whole_ok cr st'"
  by (auto simp: cli_send_def cli_deploy_def cli_call_def split: if_splits option.splits dest: submit_command_ok)

lemma cli_mine_ok:
  assumes "whole_ok E st" "cli_mine E now late start sk st = (st', r)"
  shows "whole_ok E st'"
proof -
  obtain nd x where m: "mine_and_process_block E now late start (ed25519_public E sk) (fst st) = (nd, x)" by fastforce
  have "node_ok E nd" using mine_ok [OF _ m] assms(1) by (simp add: whole_ok_def)
  then show ?thesis using assms broadcast_ok(2) [of "snd st"]
    by (auto simp: cli_mine_def m whole_ok_def split: sum.splits mining_error.splits option.splits)
qed

lemma cli_ban_ok:
  "whole_ok cr st \<Longrightarrow> cli_ban now parts st = (st', x) \<Longrightarrow> whole_ok cr st'"
  "whole_ok cr st \<Longrightarrow> cli_unban parts st = (st', x) \<Longrightarrow> whole_ok cr st'"
  by (auto simp: cli_ban_def cli_unban_def whole_ok_def Let_def split: if_splits prod.splits sum.splits
      intro: network_core)

lemma rpc_send_ok:
  assumes "whole_ok cr st" "rpc_send_transaction cr now params st = (st', r)"
  shows "whole_ok cr st'"
proof -
  obtain nd n where st: "st = (nd, n)" by fastforce
  have k: "chain_ok cr (nd_chain nd)" "mempool_ok cr (nd_pool nd)" "network_ok n"
    using assms(1) by (auto simp: st whole_ok_def node_ok_def)
  show ?thesis using assms(2) k broadcast_ok(1) [OF k(3)]
    by (auto simp: st rpc_send_transaction_def whole_ok_def node_ok_def Let_def
        split: sum.splits if_splits prod.splits bool.splits dest: check_transaction_ok add_one_ok)
qed

lemma process_single_ok:
  assumes "whole_ok cr st" "process_single cr now req st = (st', r)"
  shows "whole_ok cr st'"
proof -
  have bal: "whole_ok cr st1" if "rpc_get_balance ps st = (st1, x)" for ps st1 x
    using that assms(1)
    by (auto simp: rpc_get_balance_def whole_ok_def node_ok_def Let_def split: sum.splits json.splits prod.splits
        intro!: set_accounts_ok plain_get_account chain_plain)
  have "whole_ok cr st1" if "rpc_call cr now meth ps st = (st1, x)" for meth ps st1 x
    using that assms(1) bal rpc_send_ok [OF assms(1)]
    by (auto simp: rpc_call_def rpc_get_block_def Let_def split: if_splits)
  then show ?thesis using assms
    by (auto simp: process_single_def Let_def split: json.splits option.splits if_splits prod.splits sum.splits
        decode_error.splits rpc_result.splits)
qed

lemma process_all_ok: "whole_ok cr st \<Longrightarrow> process_all cr now reqs st = (st', r) \<Longrightarrow> whole_ok cr st'"
proof (induction reqs arbitrary: st st' r)
  case (Cons q reqs)
  obtain st1 a where p: "process_single cr now q st = (st1, a)" by fastforce
  obtain st2 as where q: "process_all cr now reqs st1 = (st2, as)" by fastforce
  have "whole_ok cr st2" by (rule Cons.IH [OF process_single_ok [OF Cons.prems(1) p] q])
  then show ?case using Cons.prems(2) p q by simp
qed simp

lemma handle_rpc_ok: "whole_ok cr st \<Longrightarrow> handle_rpc cr now body st = (st', r) \<Longrightarrow> whole_ok cr st'"
  by (auto simp: handle_rpc_def split: sum.splits decode_error.splits json.splits prod.splits
      dest: process_single_ok process_all_ok)

lemma cli_command_ok:
  assumes "whole_ok E (snd t)" "cli_command E files writable now late start parts t = (t', r)"
  shows "whole_ok E (snd t')"
proof -
  obtain w nd n where t: "t = (w, nd, n)" by (cases t) auto
  let ?st = "(nd, n)"
  have "whole_ok E ?st" using assms(1) t by simp
  note ok = this
  have "whole_ok E (fst (cli_send E now k parts ?st))" "whole_ok E (fst (cli_deploy E files now k parts ?st))"
    "whole_ok E (fst (cli_call E now k parts ?st))" "whole_ok E (fst (cli_mine E now late start k ?st))"
    "whole_ok E (fst (cli_ban now parts ?st))" "whole_ok E (fst (cli_unban parts ?st))" for k
    using ok cli_ok cli_mine_ok cli_ban_ok by (metis prod.collapse)+
  moreover have "whole_ok E (nd, connect_to_peer a n)" for a
    using ok network_core [of "connect_to_peer a n" n] by (simp add: whole_ok_def)
  ultimately show ?thesis using assms ok
    by (auto simp: t cli_command_def Let_def on_node_def split: if_splits)
qed

subsection \<open>Start\<close>

lemma boot_ok:
  assumes "boot cr now g d fund pk = Inr st" "\<And>bc. boot_chain cr now g d = Inr bc \<Longrightarrow> chain_ok cr bc"
  shows "whole_ok cr st"
proof -
  from assms(1) obtain bc n where b: "boot_chain cr now g d = Inr bc"
    "new_p2p d DECAY_INTERVAL_MINUTES (int MALFORMED_THRESHOLD) (int FAILED_THRESHOLD) (int INVALID_THRESHOLD) = Inr n"
    "st = (\<lparr>nd_chain = (if fund > 0 then set_accounts (credit_mining_reward pk (Some fund) (st_accounts (bc_state bc))) bc else bc),
        nd_pool = new_mempool None None\<rparr>, n)"
    by (auto simp: boot_def split: sum.splits)
  have ok: "chain_ok cr bc" using assms(2) b(1) by blast
  then have "plain_ok (credit_mining_reward pk (Some fund) (st_accounts (bc_state bc)))"
    by (auto simp: chain_ok_def plain_ok_def keeps_ok.reward_closed keeps_depth.reward_closed)
  with ok b new_network_ok [OF b(2)] show ?thesis
    by (simp add: whole_ok_def node_ok_def set_accounts_ok new_mempool_ok)
qed

lemma boot_fresh_ok:
  assumes "boot cr now g d fund pk = Inr st" "\<not> persistence_exists d" "dict_ok (gc_alloc g)"
  shows "whole_ok cr st"
proof (rule boot_ok [OF assms(1)])
  fix bc assume "boot_chain cr now g d = Inr bc"
  then have "create_genesis cr now g = Inr bc" using assms(2)
    by (auto simp: boot_chain_def map_sum_def split: sum.splits)
  with genesis_laws [OF this assms(3)] show "chain_ok cr bc" by blast
qed

lemma boot_saved_ok:
  assumes "boot cr now g (shut_down st) fund pk = Inr st'" "whole_ok cr st" "storable cr now (nd_chain (fst st))"
    and "dk_db (np_disk (snd st)) \<noteq> Some Not_a_database" "dict_ok (gc_alloc g)"
  shows "whole_ok cr st'"
proof (rule boot_ok [OF assms(1)])
  let ?bc = "nd_chain (fst st)" and ?d = "np_disk (snd st)"
  fix bc assume b: "boot_chain cr now g (shut_down st) = Inr bc"
  have ok: "chain_ok cr ?bc" using assms(2) by (simp add: whole_ok_def node_ok_def)
  have "persistence_exists (shut_down st) \<Longrightarrow> load cr now g (shut_down st) = Inr bc"
    using b by (auto simp: boot_chain_def split: sum.splits db_error.splits exn.splits)
  moreover have "\<not> persistence_exists (shut_down st) \<Longrightarrow> create_genesis cr now g = Inr bc"
    using b by (auto simp: boot_chain_def map_sum_def split: sum.splits)
  ultimately show "chain_ok cr bc"
    using reloaded_ok [OF ok assms(3,5,4)] genesis_laws [OF _ assms(5)]
    by (cases "persistence_exists (shut_down st)") (auto simp: shut_down_def)
qed

subsection \<open>The states of a running node\<close>

text \<open>A node that starts without saved data, or from what it saved when it was shut down, and then
  reads messages, runs commands and answers requests in any order and at any time. The network
  thread tells it its identifier; counters decay between other events.\<close>

inductive node_reach :: "'a ext_scheme \<Rightarrow> genesis_config \<Rightarrow> node \<times> p2p \<Rightarrow> bool"
  for E :: "'a ext_scheme" and g :: genesis_config where
  Fresh: "boot E now g d fund pk = Inr st \<Longrightarrow> \<not> persistence_exists d \<Longrightarrow> node_reach E g st"
| Restart: "node_reach E g st \<Longrightarrow> storable E now (nd_chain (fst st)) \<Longrightarrow>
     dk_db (np_disk (snd st)) \<noteq> Some Not_a_database \<Longrightarrow>
     boot E now g (shut_down st) fund pk = Inr st' \<Longrightarrow> node_reach E g st'"
| Identity: "node_reach E g (nd, n) \<Longrightarrow> node_reach E g (nd, n\<lparr>np_peer_id := Some pid\<rparr>)"
| Decay: "node_reach E g (nd, n) \<Longrightarrow> node_reach E g (nd, decay_counters n)"
| Read: "node_reach E g st \<Longrightarrow>
     reader_step E now (Some (node_handler E now')) hello m st = (st', r) \<Longrightarrow> node_reach E g st'"
| Command: "node_reach E g st \<Longrightarrow>
     cli_command E files writable now late start parts (w, st) = ((w', st'), r) \<Longrightarrow> node_reach E g st'"
| Request: "node_reach E g st \<Longrightarrow> handle_rpc E now body st = (st', r) \<Longrightarrow> node_reach E g st'"

inductive_cases node_reach_cases: "node_reach E g st"

lemma node_reach_ok:
  assumes "node_reach E g st" "dict_ok (gc_alloc g)"
  shows "whole_ok E st"
  using assms(1)
proof (induction rule: node_reach.induct)
  case (Fresh now d fund pk st)
  then show ?case by (rule boot_fresh_ok [OF _ _ assms(2)])
next
  case (Restart st now fund pk st')
  then show ?case using boot_saved_ok assms(2) by blast
next
  case (Identity nd n pid)
  then show ?case using network_core [of "n\<lparr>np_peer_id := Some pid\<rparr>" n]
    by (simp add: whole_ok_def np_core_def)
next
  case (Decay nd n)
  then have "seen_ok (decay_counters n)"
    by (simp add: whole_ok_def network_ok_def seen_ok_def decay_counters_def)
  with Decay show ?case by (simp add: whole_ok_def network_ok_def decay_ok)
next
  case (Read st now now' m st' r)
  then show ?case using node.reader_step_inv [of E st E now now' hello m] by (simp add: whole_inv)
next
  case (Command st files writable now late start parts w w' st' r)
  then show ?case using cli_command_ok [of E "(w, st)"] by fastforce
next
  case (Request st now body st' r)
  then show ?case using handle_rpc_ok by blast
qed

end
