(* ===== verification/NodeDemo.thy ===== *)
theory NodeDemo
  imports NodeInv ChainDemo
begin

section \<open>A concrete node\<close>

text \<open>A node that has just started on an empty disk with the small chain.\<close>

definition demo_node :: node where
  "demo_node = \<lparr>nd_chain = flat_chain 1000, nd_pool = new_mempool None None\<rparr>"

definition demo_net :: p2p where
  "demo_net = \<lparr>np_seen_tx = [], np_seen_blocks = [],
     np_thresholds = [(MALFORMED, 15), (FAILED, 15), (INVALID, 1)], np_counters = [], np_disk = no_disk,
     np_peer_id = None, np_out = [], np_tasks = []\<rparr>"

lemma demo_boot: "boot flat_ext 2000 (flat_config 1000) no_disk 0 pk = Inr (demo_node, demo_net)"
proof -
  have "boot_chain flat_ext 2000 (flat_config 1000) no_disk = Inr (flat_chain 1000)"
    using flat_genesis [of 1000 2000] by (simp add: boot_chain_def persistence_exists_def no_disk_def MAX_TARGET_def)
  then show ?thesis
    by (simp add: boot_def new_p2p_def demo_node_def demo_net_def DECAY_INTERVAL_MINUTES_def
        MALFORMED_THRESHOLD_def FAILED_THRESHOLD_def INVALID_THRESHOLD_def)
qed

lemma demo_reach: "node_reach flat_ext (flat_config 1000) (demo_node, demo_net)"
  by (rule node_reach.Fresh [OF demo_boot]) (simp add: persistence_exists_def no_disk_def)

lemma demo_ok: "whole_ok flat_ext (demo_node, demo_net)" "chain_ok flat_ext (flat_chain 1000)"
proof -
  show "whole_ok flat_ext (demo_node, demo_net)"
    by (rule node_reach_ok [OF demo_reach]) (simp add: flat_start_ok)
  then show "chain_ok flat_ext (flat_chain 1000)" by (simp add: whole_ok_def node_ok_def demo_node_def)
qed

lemma demo_net_facts:
  "disk_ok (np_disk demo_net)" "map_of (np_thresholds demo_net) INVALID = Some 1" "network_ok demo_net"
  using demo_ok by (simp_all add: whole_ok_def) (simp_all add: demo_net_def disk_ok_def no_disk_def)

text \<open>A block of the small chain is ready to be sent.\<close>

lemma flat_block_ready:
  "block_ready flat_ext (flat_block i p 1000 (1000 + t)) \<and> list_all plain_receipt (bl_receipts (flat_block i p 1000 (1000 + t)))
     \<and> reread_block (flat_block i p 1000 (1000 + t)) = flat_block i p 1000 (1000 + t)" if "0 \<le> t" for t
  using that by (simp add: flat_block_def new_block_def block_ready_def merkle_root_def calculate_receipt_root_def
      MAX_TARGET_def reread_block_def)

lemma flat_block_read:
  "0 \<le> t \<Longrightarrow> block_from_dict flat_ext now (block_to_dict (flat_block i p 1000 (1000 + t))) = Inr (flat_block i p 1000 (1000 + t))"
  using block_reread [of flat_ext "flat_block i p 1000 (1000 + t)" now] flat_block_ready [of t i p]
  by (simp add: reread_block_def)

lemma flat_block_unseen: "is_duplicate flat_ext ''block'' (JObj (block_to_dict (flat_block i p tgt ts))) demo_net = Inr False"
  by (simp add: is_duplicate_def seen_key_def message_id_def payload_hash_def block_to_dict_get demo_net_def
      seen_set_def flat_block_def of_str_option_def)

text \<open>A message of the peer \<open>q\<close>.\<close>

definition from_q :: "string \<Rightarrow> json \<Rightarrow> json dict" where
  "from_q t payload = [(''type'', JStr t), (''data'', payload), (''_peer_addr'', JStr (peer_addr ''q''))]"

lemma from_q_fields: "field ''type'' (from_q t p) = JStr t" "field ''data'' (from_q t p) = p"
  "sender_addr (from_q t p) = peer_addr ''q''"
  by (simp_all add: from_q_def field_def sender_addr_def)

end
