(* ===== verification/Exchange.thy ===== *)
theory Exchange
  imports NodeDemo
begin

section \<open>Conversations between two nodes\<close>

text \<open>The messages with which a node gets blocks from a peer, as the reader of either side hands them
  to the handler, and the sequence of requests and answers that a first request starts.\<close>

subsection \<open>Messages\<close>

text \<open>Blocks in the form that nodes make, which another node reads from the JSON form.\<close>

definition sendable :: "'a crypto_scheme \<Rightarrow> block \<Rightarrow> bool" where
  "sendable cr b \<longleftrightarrow> block_made cr b
     \<and> (\<forall>t \<in> set (bl_transactions b). tx_timestamp t = 0 \<or> 10 ^ 12 \<le> tx_timestamp t)
     \<and> (\<forall>r \<in> set (bl_receipts b). plain_receipt r)"

lemma blocks_read:
  "\<forall>b \<in> set bs. sendable cr b \<Longrightarrow>
     dec_objects (block_from_dict cr now) (map (\<lambda>b. JObj (norm_dict (block_to_dict b))) bs) = Inr (map reread_block bs)"
  by (induction bs)
    (simp_all add: sendable_def block_read_sorted block_ready_iff settled_stamps_def list_all_iff decode_bind_def)

text \<open>A message as the reader gets it from the stream.\<close>

definition received :: "string \<Rightarrow> json \<Rightarrow> string \<Rightarrow> json dict" where
  "received t p addr = dict_set ''_peer_addr'' (JStr addr) (norm_dict [(''type'', JStr t), (''data'', p)])"

lemma received_get:
  "dict_get (received t p addr) ''type'' = Some (JStr t)" "dict_get (received t p addr) ''data'' = Some (norm p)"
  "dict_get (received t p addr) ''_peer_addr'' = Some (JStr addr)"
  by (simp_all add: received_def norm_dict_get)

definition chain_request :: "int \<Rightarrow> nat \<Rightarrow> json" where
  "chain_request i l = JObj [(''start_index'', JInt i), (''limit'', JInt (int l))]"

definition blocks_payload :: "block list \<Rightarrow> int \<Rightarrow> json" where
  "blocks_payload bs limit =
     JObj [(''blocks'', JArr (map (\<lambda>b. JObj (block_to_dict b)) bs)), (''requested_limit'', JInt limit)]"

lemma received_payload:
  "norm (blocks_payload bs limit) =
     JObj [(''blocks'', JArr (map (\<lambda>b. JObj (norm_dict (block_to_dict b))) bs)), (''requested_limit'', JInt limit)]"
proof -
  have "norm (JObj (block_to_dict b)) = JObj (norm_dict (block_to_dict b))" for b by (rule norm_JObj)
  then have n: "map (\<lambda>b. norm (JObj (block_to_dict b))) bs = map (\<lambda>b. JObj (norm_dict (block_to_dict b))) bs"
    by simp
  have "\<not> (''requested_limit'' :: string) \<le> ''blocks''" by code_simp
  then show ?thesis using n by (simp add: blocks_payload_def o_def del: norm.simps(2)) (simp add: norm_JObj norm_dict_def o_def)
qed

lemma received_request: "norm (chain_request i l) = JObj [(''limit'', JInt (int l)), (''start_index'', JInt i)]"
proof -
  have "\<not> (''start_index'' :: string) \<le> ''limit''" "(''limit'' :: string) \<le> ''start_index''" by code_simp+
  then show ?thesis by (simp add: chain_request_def)
qed

text \<open>What a node answers to a request.\<close>

lemma peer_answers:
  "node_handler E now (received ''chain_request'' (chain_request (int k) l) a) (peer, m)
    = no_status (peer, create_task (Unicast a (message ''chain_response''
        (blocks_payload (take l (drop k (bc_chain (nd_chain peer)))) (int l)))) m)"
proof -
  have "nat (int k + int l) = k + l" by simp
  then have "py_slice bs (int k) (int k + int l) = take l (drop k bs)" for bs :: "block list"
    by (simp add: py_slice_def Let_def take_drop add.commute del: nat_int_add)
  moreover have "k < length bs \<or> drop k bs = []" for bs :: "block list" by auto
  ultimately show ?thesis
    by (auto simp: node_handler_def field_def received_get received_request handle_chain_request_def pget_def Let_def
        blocks_payload_def on_net_def)
qed

subsection \<open>Conversations\<close>

text \<open>The conversation that a request starts: the peer (at the address \<open>a\<close>, which does not change meanwhile) answers
  it, the node reads the answer, and either asks nothing more, or asks again.\<close>

inductive conversation :: "'a ext_scheme \<Rightarrow> int \<Rightarrow> string \<Rightarrow> node \<times> p2p \<Rightarrow> json \<Rightarrow> node \<times> p2p \<Rightarrow> node \<times> p2p \<Rightarrow> bool"
  for E :: "'a ext_scheme" and now a peer where
  Finished: "conversation E now a peer r st st'"
  if "node_handler E now (received ''chain_request'' r a) peer
        = no_status (fst peer, create_task (Unicast a (message ''chain_response'' p)) (snd peer))"
    "node_handler E now (received ''chain_response'' p a) st = no_status st'"
    "np_tasks (snd st') = np_tasks (snd st)"
| Goes_on: "conversation E now a peer r st st'"
  if "node_handler E now (received ''chain_request'' r a) peer
        = no_status (fst peer, create_task (Unicast a (message ''chain_response'' p)) (snd peer))"
    "node_handler E now (received ''chain_response'' p a) st = no_status st1"
    "np_tasks (snd st1) = np_tasks (snd st) @ [Broadcast (message ''chain_request'' r') None]"
    "conversation E now a peer r' st1 st'"

lemma wrong_parent: 
  "Some (bl_previous_hash b) \<noteq> bl_hash (last_block bc) \<Longrightarrow> add_block E now b bc = (bc, Inr INVALID)"
  by (simp add: add_block_def apply_block_def validate_block_link_and_hash_def link_status_def)

lemma tip_index: "chain_ok E bc \<Longrightarrow> bl_index (last_block bc) + 1 = int (length (bc_chain bc))"
  using linked_positions [of E "bc_chain bc" "length (bc_chain bc) - 1"]
  by (simp add: chain_ok_def last_block_def last_conv_nth of_nat_diff Suc_leI)


end
