(* ===== verification/NodeGuarantees.thy ===== *)
theory NodeGuarantees
  imports Exchange
begin

section \<open>Guarantees of the node\<close>

text \<open>The invariant of a running node, what the handler does with blocks and transactions that do
  not fit, mining on the own chain, catching up with a longer chain, and the exchange of addresses.\<close>

subsection \<open>Bans\<close>

lemma peer_id_addr [simp]: "peer_id_from_addr (peer_addr pid) = pid"
  by (simp add: peer_id_from_addr_def peer_addr_def)

text \<open>What the reader does with a message that the handler calls invalid.\<close>

lemma invalid_message:
  assumes d: "field ''type'' d = JStr t" "t \<in> set SUPPORTED_MESSAGE_TYPES" "sender_addr d = peer_addr pid"
    and new: "is_duplicate cr t (field ''data'' d) n = Inr False"
    and h: "h d (a, n) = ((a', n1), Inr (Some INVALID))" "np_core n1 = np_core n" "np_disk n1 = np_disk n"
    and ok: "network_ok n" "disk_ok (np_disk n)" "map_of (np_thresholds n) INVALID = Some 1"
  shows "\<exists>n'. reader_step cr now (Some h) g (Msg d) (a, n) = ((a', n'), Inr ())
    \<and> is_peer_banned pid (np_disk n') = Inr True \<and> Disconnect (peer_addr pid) \<in> set (np_out n')
    \<and> set (np_tasks n1) \<subseteq> set (np_out n')"
proof -
  let ?x = "handle_validation_status now pid (peer_addr pid) INVALID n1"
  have ok1: "network_ok n1" "disk_ok (np_disk n1)" "map_of (np_thresholds n1) INVALID = Some 1"
    using ok h(2,3) network_core [OF h(2)] by (auto simp: np_core_def)
  note x = handle_once [OF ok1(2,3) refl, where pid = pid and now = now and addr = "peer_addr pid"]
  have "0 \<le> count_of INVALID (peer_counts pid n1)" using ok1(1) by (intro count_of_nonneg) (simp add: network_ok_def)
  then have b: "is_peer_banned pid (np_disk (fst ?x)) = Inr True" "Disconnect (peer_addr pid) \<in> set (np_out (fst ?x))"
    using x(4) [of pid] x(5) by auto
  obtain n2 where n2: "?x = (n2, Inr ())" using handle_returns(1) [OF ok1(2)] by (metis prod.collapse)
  have t: "np_tasks n2 = np_tasks n1"
    using handle_returns(2) [OF ok1(2), of now pid "peer_addr pid" INVALID] n2 by simp
  have p: "policy now (peer_addr pid) INVALID (a', n1) = ((a', n2), Inr ())" by (simp add: policy_def n2)
  have "reader_step cr now (Some h) g (Msg d) (a, n) = ((a', run_tasks n2), Inr ())"
    using d new h(1) p by (simp add: reader_step_def read_message_def Let_def read_status_def)
  moreover have "is_peer_banned pid (np_disk (run_tasks n2)) = Inr True"
    "Disconnect (peer_addr pid) \<in> set (np_out (run_tasks n2))" "set (np_tasks n1) \<subseteq> set (np_out (run_tasks n2))"
    using b n2 t by (auto simp: run_tasks_def)
  ultimately show ?thesis by blast
qed

text \<open>C8: a block that does not follow the tip (a node that is behind gets such blocks, and so does one
  whose tip lost a race) leaves the chain as it is; the handler asks for the chain, but its
  status bans the sender at once and breaks the connection.\<close>

theorem out_of_order_block_bans:
  assumes "field ''type'' d = JStr ''block''" "field ''data'' d = JObj p" "sender_addr d = peer_addr pid"
    and "block_from_dict E now p = Inr b" "is_duplicate E ''block'' (JObj p) n = Inr False"
    and "Some (bl_previous_hash b) \<noteq> bl_hash (last_block (nd_chain nd))"
    and "network_ok n" "disk_ok (np_disk n)" "map_of (np_thresholds n) INVALID = Some 1"
  shows "\<exists>n'. reader_step E now (Some (node_handler E now)) hello (Msg d) (nd, n) = ((nd, n'), Inr ())
    \<and> is_peer_banned pid (np_disk n') = Inr True \<and> Disconnect (peer_addr pid) \<in> set (np_out n')
    \<and> (\<exists>start limit. Broadcast (message ''chain_request'' (JObj [(''start_index'', start), (''limit'', limit)])) None
          \<in> set (np_out n'))"
proof -
  let ?tip = "bl_index (last_block (nd_chain nd))"
  let ?n = "if bl_index b > ?tip + 1 then request_chain (JInt (?tip + 1)) (JInt 500) n
    else request_chain (JInt (max 0 (bl_index b - 50))) (JInt 50) n"
  have h: "node_handler E now d (nd, n) = ((nd, ?n), Inr (Some INVALID))"
    using assms(1,2,4) wrong_parent [OF assms(6), of E now]
    by (simp add: node_handler_def handle_block_def Let_def status_def)
  have keep: "np_core ?n = np_core n" "np_disk ?n = np_disk n" by simp_all (simp_all add: request_chain_def create_task_def)
  have t: "''block'' \<in> set SUPPORTED_MESSAGE_TYPES" by (simp add: SUPPORTED_MESSAGE_TYPES_def)
  have "\<exists>start limit. Broadcast (message ''chain_request'' (JObj [(''start_index'', start), (''limit'', limit)])) None
      \<in> set (np_tasks ?n)"
    by (auto simp: request_chain_def create_task_def)
  with invalid_message [where h = "node_handler E now", OF assms(1) t assms(3) _ h keep assms(7-9), of E now hello] assms(2,5)
  show ?thesis by auto
qed

theorem out_of_order_block_bans_witness:
  "\<exists>d n'. reader_step flat_ext 2000 (Some (node_handler flat_ext 2000)) hello (Msg d) (demo_node, demo_net)
       = ((demo_node, n'), Inr ()) \<and> is_peer_banned ''q'' (np_disk n') = Inr True"
proof -
  let ?b = "flat_block 2 ''5'' 1000 1100"
  have b: "block_from_dict flat_ext 2000 (block_to_dict ?b) = Inr ?b"
    using flat_block_read [of 100] by simp
  have tip: "Some (bl_previous_hash ?b) \<noteq> bl_hash (last_block (nd_chain demo_node))"
    by (simp add: demo_node_def last_block_def flat_chain_def flat_block_def new_block_def)
  from out_of_order_block_bans [OF from_q_fields b flat_block_unseen tip demo_net_facts(3,1,2)] show ?thesis by blast
qed

text \<open>a signed transaction whose nonce is not the next one (the second of two pending ones of a
  sender, or one that was mined meanwhile) is \<open>FAILED\<close> for the state, which has a threshold of 15;
  but the handler returns \<open>INVALID\<close>, so the peer that relayed it is banned at once. The mempool does
  not take it.\<close>

lemma stale_tx_bans:
  assumes "field ''type'' d = JStr ''tx''" "field ''data'' d = JObj p" "sender_addr d = peer_addr pid"
    and "tx_from_dict now p = Inr tx" "is_duplicate E ''tx'' (JObj p) n = Inr False"
    and "tx_chain_id tx = bc_chain_id (nd_chain nd)" "tx_verify E tx"
    and "nonce_of (get_account (tx_sender tx) (st_accounts (bc_state (nd_chain nd)))) (tx_sender tx) \<noteq> tx_nonce tx"
    and "whole_ok E (nd, n)" "disk_ok (np_disk n)" "map_of (np_thresholds n) INVALID = Some 1"
  shows "snd (verify_transaction_logic E (bc_state (nd_chain nd)) tx) = FAILED
    \<and> (\<exists>nd' n'. reader_step E now (Some (node_handler E now)) hello (Msg d) (nd, n) = ((nd', n'), Inr ())
    \<and> nd_pool nd' = nd_pool nd \<and> is_peer_banned pid (np_disk n') = Inr True
    \<and> Disconnect (peer_addr pid) \<in> set (np_out n'))"
proof -
  let ?bc = "nd_chain nd"
  have ok: "st_chain_id (bc_state ?bc) = bc_chain_id ?bc" "network_ok n"
    using assms(9) by (auto simp: whole_ok_def node_ok_def chain_ok_def)
  obtain st s where v: "verify_transaction_logic E (bc_state ?bc) tx = (st, s)" by fastforce
  have s: "s = FAILED" using v assms(6-8) ok(1)
    by (auto simp: verify_transaction_logic_def Let_def split: if_splits)
  let ?nd = "nd\<lparr>nd_chain := ?bc\<lparr>bc_state := st\<rparr>\<rparr>"
  have h: "node_handler E now d (nd, n) = ((?nd, n), Inr (Some INVALID))"
    using assms(1,2,4,6) v s
    by (simp add: node_handler_def handle_tx_def Let_def status_def check_transaction_def)
  have t: "''tx'' \<in> set SUPPORTED_MESSAGE_TYPES" by (simp add: SUPPORTED_MESSAGE_TYPES_def)
  from invalid_message [where h = "node_handler E now", OF assms(1) t assms(3) _ h refl refl ok(2) assms(10,11), of E now hello] assms(2,5)
  obtain n' where "reader_step E now (Some (node_handler E now)) hello (Msg d) (nd, n) = ((?nd, n'), Inr ())"
    "is_peer_banned pid (np_disk n') = Inr True" "Disconnect (peer_addr pid) \<in> set (np_out n')" by auto
  then show ?thesis using v s by auto
qed

text \<open>The second transaction of a sender whose first one waits to be mined.\<close>

definition second_tx :: transaction where
  "second_tx = reread (demo_tx (Some demo_address) 10 1 0 0 None)"

lemma stale_tx_bans_witness:
  "tx_verify flat_ext second_tx \<and> snd (verify_transaction_logic flat_ext (bc_state (nd_chain demo_node)) second_tx) = FAILED
   \<and> (\<exists>d nd' n'. reader_step flat_ext 2000 (Some (node_handler flat_ext 2000)) hello (Msg d) (demo_node, demo_net)
       = ((nd', n'), Inr ()) \<and> is_peer_banned ''q'' (np_disk n') = Inr True)"
proof -
  let ?p = "tx_to_dict (demo_tx (Some demo_address) 10 1 0 0 None)"
  have t: "tx_from_dict 2000 ?p = Inr second_tx" by (simp add: second_tx_def from_dict_to_dict)
  have new: "is_duplicate flat_ext ''tx'' (JObj ?p) demo_net = Inr False"
    by (simp add: is_duplicate_def seen_key_def message_id_def demo_net_def seen_set_def)
  have v: "tx_verify flat_ext second_tx" by code_simp
  have "nonce_of (get_account (tx_sender second_tx) (st_accounts (bc_state (flat_chain 1000)))) (tx_sender second_tx) \<noteq> tx_nonce second_tx"
    "tx_chain_id second_tx = bc_chain_id (flat_chain 1000)"
    by code_simp+
  then have n: "nonce_of (get_account (tx_sender second_tx) (st_accounts (bc_state (nd_chain demo_node)))) (tx_sender second_tx) \<noteq> tx_nonce second_tx"
    "tx_chain_id second_tx = bc_chain_id (nd_chain demo_node)"
    by (simp_all add: demo_node_def)
  from stale_tx_bans [OF from_q_fields t new n(2) v n(1) demo_ok(1) demo_net_facts(1,2)] v show ?thesis by blast
qed

subsection \<open>Mining\<close>

lemma touch_twice: "acc_touch k (acc_touch k A) = acc_touch k A"
proof (induction A)
  case (Journal b c)
  show ?case
  proof (cases "k \<in> set (map fst c)")
    case False
    then show ?thesis by (cases "acc_view b k") (simp_all add: dict_mem)
  qed simp
qed simp

lemma get_account_twice: "get_account k (get_account k A) = get_account k A"
proof -
  have "acc_contains (get_account k A) k" by (simp add: get_account_def acc_contains_view view_simps)
  then show ?thesis by (simp add: get_account_def touch_twice)
qed

lemma validate_after_lookup:
  assumes "validate_and_apply_with_status E (st\<lparr>st_accounts := get_account (tx_sender tx) (st_accounts st)\<rparr>) tx = (st', Inr (s, Some r))"
  shows "validate_and_apply_with_status E st tx = (st', Inr (VALID, Some r))"
proof -
  have "s = VALID" using assms by (auto simp: validate_and_apply_with_status_def split: if_splits prod.splits sum.splits)
  moreover have "validate_and_apply_with_status E (st\<lparr>st_accounts := get_account (tx_sender tx) (st_accounts st)\<rparr>) tx
      = validate_and_apply_with_status E st tx" if "tx_verify E tx" "tx_chain_id tx = st_chain_id st" "amounts_well_formed tx"
    using that by (simp add: validate_and_apply_with_status_def verify_transaction_logic_def Let_def get_account_twice)
  moreover have "tx_verify E tx \<and> tx_chain_id tx = st_chain_id st \<and> amounts_well_formed tx"
    using assms by (auto simp: validate_and_apply_with_status_def verify_transaction_logic_def split: if_splits)
  ultimately show ?thesis using assms by simp
qed

lemma select_all:
  "select_txs E st txs = (st', Inr (ms, [])) \<Longrightarrow> map fst ms = txs \<and> apply_txs E st txs = (st', Inr (VALID, map snd ms))"
proof (induction txs arbitrary: st ms)
  case (Cons tx txs)
  let ?st = "st\<lparr>st_accounts := get_account (tx_sender tx) (st_accounts st)\<rparr>"
  obtain st1 x where v: "validate_and_apply_with_status E ?st tx = (st1, x)" by fastforce
  obtain st2 y where s: "select_txs E st1 txs = (st2, y)" by fastforce
  have "\<not> tx_nonce tx < nonce_of (st_accounts ?st) (tx_sender tx)"
    using Cons.prems by (auto simp: Let_def split: prod.splits sum.splits)
  then obtain s r ms' where x: "x = Inr (s, Some r)" and y: "y = Inr (ms', [])" "st2 = st'" "ms = (tx, r) # ms'"
    using Cons.prems v s by (auto simp: Let_def split: prod.splits sum.splits option.splits)
  from Cons.IH s y have "map fst ms' = txs \<and> apply_txs E st1 txs = (st', Inr (VALID, map snd ms'))" by blast
  with validate_after_lookup [OF v [unfolded x]] y show ?case by simp
qed simp

lemma mine_block_own:
  assumes "mine_block cr b None m late stop start = (b', Inr (Mined n h))"
  shows "b' = b\<lparr>bl_nonce := n, bl_hash := Some h\<rparr>" "h = compute_hash cr b'"
    "\<exists>v. py_int_of_str 16 h = Some v \<and> v < bl_target b" "0 < bl_target b"
proof -
  let ?m = "case m of None \<Rightarrow> int MINING_MAX_NONCE | Some m \<Rightarrow> m"
  from assms have t: "0 < bl_target b" and b': "b' = b\<lparr>bl_nonce := n, bl_hash := Some h\<rparr>"
    and l: "mine_loop cr (to_header_dict b) (bl_target b) ?m late stop start start = Mined n h"
    by (auto simp: mine_block_def Let_def split: if_splits mine_outcome.splits)
  then show "b' = b\<lparr>bl_nonce := n, bl_hash := Some h\<rparr>" "0 < bl_target b" by auto
  from mine_loop_Mined [OF l] have n: "h = compute_hash cr (b\<lparr>bl_nonce := n\<rparr>)" "hits cr (to_header_dict b) (bl_target b) n"
    by (auto simp: nonce_hash_block)
  have "b' = b\<lparr>bl_nonce := n\<rparr>\<lparr>bl_hash := Some h\<rparr>" by (simp add: b')
  with n(1) show "h = compute_hash cr b'" by (simp only: compute_hash_hash)
  show "\<exists>v. py_int_of_str 16 h = Some v \<and> v < bl_target b"
    using n by (auto simp: hits_def nonce_hash_block split: option.splits)
qed

text \<open>A block that passes every check of \<open>apply_block\<close> is added.\<close>

lemma add_block_accepts:
  assumes "validate_block_link_and_hash E now (last_block bc) b = None" "bl_target b = bc_target bc"
    and "apply_txs E ((state_copy (bc_state bc))\<lparr>st_chain_id := bc_chain_id bc\<rparr>) (bl_transactions b) = (st, Inr (VALID, bl_receipts b))"
    and "bl_receipt_root b = calculate_receipt_root E (bl_receipts b)"
    and "state_root E (st_accounts (pay_miner b (total_fees (bl_receipts b) (bl_transactions b)) st)) = Inr root"
    and "bl_state_root b = Some root" "bc_target_block_time bc \<noteq> 0"
  shows "\<exists>bc'. add_block E now b bc = (bc', Inr VALID) \<and> bc_chain bc' = bc_chain bc @ [b]"
  using assms by (simp add: add_block_def apply_block_def Let_def next_target_def)

text \<open>C9: the miner's own chain accepts the block: when no candidate is stale and the clock is not more
  than the allowed drift behind the tip, a nonce that is found makes a block with exactly the
  candidates, which is appended to the chain, and the candidates leave the mempool.\<close>

theorem mined_block_accepted:
  assumes ok: "chain_ok E (nd_chain nd)" and tip: "bl_hash (last_block (nd_chain nd)) = Some h0"
    and cfg: "bc_target_block_time (nd_chain nd) \<noteq> 0" "miner \<noteq> []"
    and clock: "0 < now" "bl_timestamp (last_block (nd_chain nd)) < now + MAX_FUTURE_BLOCK_TIME_MS"
    and sel: "select_txs E (state_copy (bc_state (nd_chain nd))) (get_transactions_for_block (nd_pool nd)) = (st, Inr (ms, []))"
    and cand: "candidate_block E now miner (nd_chain nd) ms st = Inr b0"
    and mined: "mine_block E b0 None None late (\<lambda>_ _. False) start = (b, Inr (Mined n h))"
  shows "\<exists>bc'. mine_and_process_block E now late start miner nd
        = (nd\<lparr>nd_chain := bc', nd_pool := remove_transactions (get_transactions_for_block (nd_pool nd)) (nd_pool nd)\<rparr>, Inr (Some b))
      \<and> bc_chain bc' = bc_chain (nd_chain nd) @ [b]
      \<and> bl_transactions b = get_transactions_for_block (nd_pool nd)"
proof -
  let ?bc = "nd_chain nd" and ?txs = "get_transactions_for_block (nd_pool nd)"
  let ?prev = "last_block ?bc" and ?rs = "map snd ms"
  note a = select_all [OF sel]
  let ?A = "credit_mining_reward miner (Some (DEFAULT_MINING_REWARD + total_fees ?rs ?txs)) (st_accounts st)"
  from cand a tip obtain root where root: "state_root E ?A = Inr root"
    and b0: "b0 = new_block E now (bl_index ?prev + 1) h0 (bc_target ?bc) ?txs (max now (bl_timestamp ?prev + 1)) (Some root)
        (calculate_receipt_root E ?rs) ?rs (Some miner)"
    by (auto simp: candidate_block_def Let_def split: sum.splits)
  note m = mine_block_own [OF mined]
  have t: "0 < bc_target ?bc" "bc_target ?bc \<le> MAX_TARGET" "st_chain_id (bc_state ?bc) = bc_chain_id ?bc"
    using ok by (auto simp: chain_ok_def MIN_TARGET_def)
  have b: "bl_transactions b = ?txs" "bl_receipts b = ?rs" "bl_receipt_root b = calculate_receipt_root E ?rs"
    "bl_state_root b = Some root" "bl_target b = bc_target ?bc" "bl_miner b = Some miner" "bl_index b = bl_index ?prev + 1"
    "bl_previous_hash b = h0" "bl_timestamp b = max now (bl_timestamp ?prev + 1)" "bl_hash b = Some h"
    using clock(1) by (simp_all add: m(1) b0 new_block_def calculate_receipt_root_def)
  have hash: "bl_hash b = Some (compute_hash E b)" "\<exists>v. py_int_of_str 16 (compute_hash E b) = Some v \<and> v < bl_target b"
    using b(10) m(2,3) b0 b(5) by (simp_all add: new_block_def)
  have "linked E ?prev b"
    using hash t(1,2) tip by (auto simp: linked_def b(5,7-9))
  then have l: "validate_block_link_and_hash E now ?prev b = None"
    using clock by (simp add: validate_link b MAX_FUTURE_BLOCK_TIME_MS_def)
  have cid: "(state_copy (bc_state ?bc))\<lparr>st_chain_id := bc_chain_id ?bc\<rparr> = state_copy (bc_state ?bc)"
    using t(3) by (simp add: state_copy_def)
  have pay: "st_accounts (pay_miner b (total_fees ?rs ?txs) st) = ?A" using cfg(2) by (simp add: pay_miner_def b)
  obtain bc' where bc': "add_block E now b ?bc = (bc', Inr VALID)" "bc_chain bc' = bc_chain ?bc @ [b]"
    using add_block_accepts [OF l b(5), of st root] a root cfg(1) by (auto simp: b(1-4) cid pay)
  have "mine_and_process_block E now late start miner nd
        = (nd\<lparr>nd_chain := bc', nd_pool := remove_transactions ?txs (nd_pool nd)\<rparr>, Inr (Some b))"
    using sel cand mined bc'(1) a by (simp add: mine_and_process_block_def Let_def drop_stale_def)
  with bc'(2) b(1) show ?thesis by blast
qed

theorem mined_block_accepted_witness:
  "\<exists>nd' b. mine_and_process_block flat_ext 2000 (\<lambda>_. False) 0 ''bb'' demo_node = (nd', Inr (Some b))
     \<and> bc_chain (nd_chain nd') = bc_chain (flat_chain 1000) @ [b]"
proof -
  let ?st = "state_copy (bc_state (flat_chain 1000))"
  have "state_root flat_ext (credit_mining_reward ''bb'' (Some (DEFAULT_MINING_REWARD + total_fees [] [])) (st_accounts ?st)) = Inr ''2''"
    by code_simp
  then obtain b0 where b0: "candidate_block flat_ext 2000 ''bb'' (flat_chain 1000) [] ?st = Inr b0" "bl_target b0 = 1000"
    by (simp add: candidate_block_def Let_def new_block_def) (simp add: flat_chain_def)
  obtain b where m: "mine_block flat_ext b0 None None (\<lambda>_. False) (\<lambda>_ _. False) 0 = (b, Inr (Mined 0 ''1''))"
    by (simp add: mine_block_def Let_def b0(2) mine_loop.simps nonce_hash_def read_one MINING_MAX_NONCE_def)
  have tip: "bl_hash (last_block (flat_chain 1000)) = Some ''1''" "bc_target_block_time (flat_chain 1000) \<noteq> 0"
    "bl_timestamp (last_block (flat_chain 1000)) < 2000 + MAX_FUTURE_BLOCK_TIME_MS"
    by (simp_all add: last_block_def flat_chain_def flat_block_def new_block_def MAX_FUTURE_BLOCK_TIME_MS_def)
  have nd: "nd_chain demo_node = flat_chain 1000" "get_transactions_for_block (nd_pool demo_node) = []"
    by (simp_all add: demo_node_def new_mempool_def get_transactions_for_block_def py_prefix_def)
  from mined_block_accepted [of flat_ext demo_node "''1''" "''bb''" 2000 ?st "[]" b0 "\<lambda>_. False" 0 b 0 "''1''"]
  show ?thesis using demo_ok(2) tip b0(1) m by (auto simp: nd)
qed

subsection \<open>Catching up\<close>

text \<open>Blocks that are all added one after the other.\<close>

fun adds :: "'a ext_scheme \<Rightarrow> int \<Rightarrow> block list \<Rightarrow> blockchain \<Rightarrow> blockchain option" where
  "adds E now [] bc = Some bc"
| "adds E now (b # bs) bc =
     (case add_block E now b bc of (bc', r) \<Rightarrow> if r = Inr VALID then adds E now bs bc' else None)"

lemma added_tip: "add_block E now b bc = (bc', Inr VALID) \<Longrightarrow> last_block bc' = b \<and> bc_chain bc' = bc_chain bc @ [b]
    \<and> bl_index b = bl_index (last_block bc) + 1 \<and> Some (bl_previous_hash b) = bl_hash (last_block bc)"
proof -
  assume a: "add_block E now b bc = (bc', Inr VALID)"
  obtain st rs avg where "block_applied E now (last_block bc) b (bc_target bc)
       ((state_copy (bc_state bc))\<lparr>st_chain_id := bc_chain_id bc\<rparr>) st rs"
    "bc_chain bc' = bc_chain bc @ [b]"
    by (rule add_block_VALID [OF a]) (metis blockchain.select_convs(1) blockchain.surjective blockchain.update_convs)
  then show ?thesis by (simp add: last_block_def block_applied_def linked_def)
qed

lemma sync_all:
  "adds E now bs (nd_chain nd) = Some bc' \<Longrightarrow>
     \<exists>mp. sync_blocks E now bs (nd, n) = ((nd\<lparr>nd_chain := bc', nd_pool := mp\<rparr>, n), Inr True)"
proof (induction bs arbitrary: nd)
  case Nil
  then show ?case by (intro exI [of _ "nd_pool nd"]) simp
next
  case (Cons b bs)
  obtain bc where a: "add_block E now b (nd_chain nd) = (bc, Inr VALID)" "adds E now bs bc = Some bc'"
    using Cons.prems by (auto split: prod.splits if_splits)
  let ?nd = "nd\<lparr>nd_chain := bc, nd_pool := remove_transactions (bl_transactions b) (nd_pool nd)\<rparr>"
  have "\<not> bl_index b \<le> bl_index (last_block (nd_chain nd))" using added_tip [OF a(1)] by simp
  with a Cons.IH [of ?nd] show ?case by simp
qed

lemma adds_chain: "adds E now bs bc = Some bc' \<Longrightarrow>
    bc_chain bc' = bc_chain bc @ bs \<and> bl_index (last_block bc') = bl_index (last_block bc) + int (length bs)
    \<and> (bs \<noteq> [] \<longrightarrow> bl_index (hd bs) = bl_index (last_block bc) + 1 \<and> Some (bl_previous_hash (hd bs)) = bl_hash (last_block bc))"
proof (induction bs arbitrary: bc)
  case (Cons b bs)
  obtain bc1 where a: "add_block E now b bc = (bc1, Inr VALID)" "adds E now bs bc1 = Some bc'"
    using Cons.prems by (auto split: prod.splits if_splits)
  with Cons.IH [of bc1] added_tip [OF a(1)] show ?case by simp
qed simp

lemma adds_append: "adds E now (as @ bs) bc = Some bc' \<Longrightarrow> \<exists>bc1. adds E now as bc = Some bc1 \<and> adds E now bs bc1 = Some bc'"
proof (induction as arbitrary: bc)
  case (Cons b bs)
  then show ?case by (auto split: prod.splits if_splits)
qed simp

text \<open>What the node does with the answer.\<close>

lemma node_reads:
  assumes "adds E now (map reread_block bs) (nd_chain nd) = Some bc'" "bs \<noteq> []" "\<forall>b \<in> set bs. sendable E b"
  shows "\<exists>nd' n'. node_handler E now (received ''chain_response'' (blocks_payload bs 500) a) (nd, n) = no_status (nd', n') \<and> nd_chain nd' = bc'
      \<and> np_tasks n' = np_tasks n @ (if length bs = 500
            then [Broadcast (message ''chain_request'' (chain_request (bl_index (last_block bc') + 1) 500)) None] else [])"
proof -
  let ?bs = "map reread_block bs"
  note c = adds_chain [OF assms(1)]
  obtain mp where s: "sync_blocks E now ?bs (nd, n) = ((nd\<lparr>nd_chain := bc', nd_pool := mp\<rparr>, n), Inr True)"
    using sync_all [OF assms(1)] by blast
  let ?st = "(nd\<lparr>nd_chain := bc', nd_pool := mp\<rparr>, n)"
  have "node_handler E now (received ''chain_response'' (blocks_payload bs 500) a) (nd, n) = sync_chain E now ?bs (JInt 500) (nd, n)"
    using assms(2) blocks_read [OF assms(3), of now]
    by (simp add: node_handler_def field_def received_get received_payload handle_chain_response_def pget_def)
  also have "\<dots> = no_status (next_batch ?bs (JInt 500) ?st)"
    using c s assms(2) by (simp add: sync_chain_def Let_def)
  finally show ?thesis
    by (intro exI [of _ "fst (next_batch ?bs (JInt 500) ?st)"] exI [of _ "snd (next_batch ?bs (JInt 500) ?st)"])
      (auto simp: next_batch_def on_net_def request_chain_def create_task_def chain_request_def)
qed

lemma catches_up:
  assumes "bc_chain (nd_chain peer) = old @ new" "bl_index (last_block (nd_chain nd)) + 1 = int (length old)"
    and "adds E now (map reread_block new) (nd_chain nd) = Some bc'" "\<forall>b \<in> set new. sendable E b"
  shows "\<exists>nd' n'. conversation E now a (peer, m) (chain_request (int (length old)) 500) (nd, n) (nd', n') \<and> nd_chain nd' = bc'"
  using assms
proof (induction "length new" arbitrary: old new nd n rule: less_induct)
  case less
  have ans: "node_handler E now (received ''chain_request'' (chain_request (int (length old)) 500) a) (peer, m)
    = no_status (peer, create_task (Unicast a (message ''chain_response'' (blocks_payload (take 500 new) 500))) m)"
    using peer_answers [of E now "length old" 500 a peer m] less.prems(1) by simp
  show ?case
  proof (cases "new = []")
    case True
    have "node_handler E now (received ''chain_response'' (blocks_payload [] 500) a) (nd, n) = no_status (nd, n)"
      by (simp add: node_handler_def field_def received_get received_payload handle_chain_response_def pget_def)
    then have "conversation E now a (peer, m) (chain_request (int (length old)) 500) (nd, n) (nd, n)"
      using ans True by (intro conversation.Finished) simp_all
    moreover have "nd_chain nd = bc'" using less.prems(3) True by simp
    ultimately show ?thesis by blast
  next
    case False
    have "map reread_block new = map reread_block (take 500 new) @ map reread_block (drop 500 new)"
      by (simp flip: map_append)
    then obtain bc1 where a1: "adds E now (map reread_block (take 500 new)) (nd_chain nd) = Some bc1"
      "adds E now (map reread_block (drop 500 new)) bc1 = Some bc'"
      using adds_append less.prems(3) by metis
    have s: "\<forall>b \<in> set (take 500 new). sendable E b" "\<forall>b \<in> set (drop 500 new). sendable E b"
      using less.prems(4) by (auto dest: in_set_takeD in_set_dropD)
    have ne: "take 500 new \<noteq> []" using False by simp
    obtain nd1 n1 where r: "node_handler E now (received ''chain_response'' (blocks_payload (take 500 new) 500) a) (nd, n) = no_status (nd1, n1)"
      "nd_chain nd1 = bc1"
      and t: "np_tasks n1 = np_tasks n @ (if length (take 500 new) = 500
            then [Broadcast (message ''chain_request'' (chain_request (bl_index (last_block bc1) + 1) 500)) None] else [])"
      using node_reads [OF a1(1) ne s(1), of a n] by blast
    have i: "bl_index (last_block bc1) + 1 = int (length (old @ take 500 new))"
      using adds_chain [OF a1(1)] less.prems(2) by simp
    show ?thesis
    proof (cases "length (take 500 new) = 500")
      case True
      have c: "bc_chain (nd_chain peer) = (old @ take 500 new) @ drop 500 new" using less.prems(1) by simp
      have "length (drop 500 new) < length new" using False by simp
      from less.hyps [OF this c, of nd1 n1] i a1(2) r(2) s(2)
      obtain nd' n' where g: "conversation E now a (peer, m) (chain_request (int (length (old @ take 500 new))) 500) (nd1, n1) (nd', n')"
        "nd_chain nd' = bc'" by auto
      have t1: "np_tasks (snd (nd1, n1)) = np_tasks (snd (nd, n))
          @ [Broadcast (message ''chain_request'' (chain_request (int (length (old @ take 500 new))) 500)) None]"
        using t by (simp only: i snd_conv True refl if_True)
      have "conversation E now a (peer, m) (chain_request (int (length old)) 500) (nd, n) (nd', n')"
        by (rule conversation.Goes_on [OF _ r(1) t1 g(1)]) (simp add: ans)
      with g(2) show ?thesis by blast
    next
      case False
      then have "drop 500 new = []" by simp
      then have "nd_chain nd1 = bc'" using a1(2) r(2) by simp
      moreover have "conversation E now a (peer, m) (chain_request (int (length old)) 500) (nd, n) (nd1, n1)"
        by (rule conversation.Finished [OF _ r(1)]) (use ans t False in simp_all)
      ultimately show ?thesis by blast
    qed
  qed
qed

text \<open>C6: catching up. When a node reads the greeting of a peer of the same chain whose blocks beyond the
  node's own length it can add one after the other, it asks for the blocks after its tip, and the
  conversation that follows (batches of 500, the next asked for after each full one) ends with the
  node's chain as long as the peer's: its own blocks and the peer's new ones, their transactions
  without seal and identifier cache. The conditions on the new blocks: as nodes make them, and with
  every transaction's time stamp 0 or at least 10^12 (C32). The clock and the peer stand still meanwhile, and
  messages arrive, so a batch of blocks fits in a frame (C36).\<close>

theorem catch_up_completes:
  assumes "chain_ok E (nd_chain nd)" "chain_ok E (nd_chain peer)"
    and "bc_chain_id (nd_chain peer) = bc_chain_id (nd_chain nd)" "first_hash (nd_chain peer) = first_hash (nd_chain nd)"
    and "hello peer = Some (message ''hello'' greeting)"
    and "bc_chain (nd_chain peer) = old @ new" "length old = length (bc_chain (nd_chain nd))" "new \<noteq> []"
    and "adds E now (map reread_block new) (nd_chain nd) = Some bc'"
    and "\<forall>b \<in> set new. block_made E b
      \<and> (\<forall>t \<in> set (bl_transactions b). tx_timestamp t = 0 \<or> 10 ^ 12 \<le> tx_timestamp t)
      \<and> (\<forall>r \<in> set (bl_receipts b). plain_receipt r)"
  shows "\<exists>r n1 nd' n'. node_handler E now (received ''hello'' greeting a) (nd, n) = no_status (nd, n1)
    \<and> np_tasks n1 = np_tasks n @ [Broadcast (message ''chain_request'' r) None, Unicast a (message ''getaddr'' (JObj []))]
    \<and> conversation E now a (peer, m) r (nd, n1) (nd', n')
    \<and> nd_chain nd' = bc' \<and> bc_chain bc' = bc_chain (nd_chain nd) @ map reread_block new"
proof -
  let ?own = "bl_index (last_block (nd_chain nd))" and ?r = "chain_request (int (length old)) 500"
  have i: "?own + 1 = int (length old)" using tip_index [OF assms(1)] assms(7) by simp
  have "bl_index (last_block (nd_chain peer)) + 1 = int (length old) + int (length new)"
    using tip_index [OF assms(2)] assms(6) by simp
  then have tip: "?own < bl_index (last_block (nd_chain peer))" using i assms(8) by (cases new) simp_all
  let ?n1 = "create_task (Unicast a (message ''getaddr'' (JObj []))) (request_chain (JInt (?own + 1)) (JInt 500) n)"
  have g: "greeting = JObj [(''chain_id'', JStr (bc_chain_id (nd_chain peer))), (''genesis_hash'', first_hash (nd_chain peer)),
         (''latest_block_index'', JInt (bl_index (last_block (nd_chain peer)))),
         (''latest_block_hash'', of_str_option (bl_hash (last_block (nd_chain peer))))]"
    using assms(5) by (simp add: hello_def message_def Let_def)
  have sc: "norm (first_hash c) = first_hash c" for c by (simp add: first_hash_def of_str_option_def split: option.split)
  have "node_handler E now (received ''hello'' greeting a) (nd, n) = no_status (nd, ?n1)"
    using tip assms(3,4) sc
    by (simp add: node_handler_def field_def received_get g norm_JObj handle_hello_def norm_dict_get Let_def on_net_def
        del: norm.simps(2))
  moreover have "np_tasks ?n1 = np_tasks n @ [Broadcast (message ''chain_request'' ?r) None, Unicast a (message ''getaddr'' (JObj []))]"
    using i by (simp add: create_task_def request_chain_def chain_request_def)
  moreover obtain nd' n' where "conversation E now a (peer, m) ?r (nd, ?n1) (nd', n')" "nd_chain nd' = bc'"
    using catches_up [OF assms(6) i assms(9), of a m ?n1] assms(10) by (auto simp: sendable_def)
  moreover have "bc_chain bc' = bc_chain (nd_chain nd) @ map reread_block new" using adds_chain [OF assms(9)] by simp
  ultimately show ?thesis by blast
qed

theorem catch_up_completes_witness:
  "\<exists>greeting r n1 nd' n'. hello (demo_node\<lparr>nd_chain := flat_next\<rparr>) = Some (message ''hello'' greeting)
    \<and> node_handler flat_ext 2000 (received ''hello'' greeting (peer_addr ''q'')) (demo_node, demo_net) = no_status (demo_node, n1)
    \<and> Broadcast (message ''chain_request'' r) None \<in> set (np_tasks n1)
    \<and> conversation flat_ext 2000 (peer_addr ''q'') (demo_node\<lparr>nd_chain := flat_next\<rparr>, demo_net) r (demo_node, n1) (nd', n')
    \<and> nd_chain nd' = flat_next"
proof -
  let ?b = "flat_block 1 ''1'' 1000 1050" and ?peer = "demo_node\<lparr>nd_chain := flat_next\<rparr>"
  have nd: "nd_chain demo_node = flat_chain 1000" by (simp add: demo_node_def)
  have r: "map reread_block [?b] = [?b]" "block_ready flat_ext ?b \<and> list_all plain_receipt (bl_receipts ?b)"
    using flat_block_ready [of 50 1 "''1''"] by simp_all
  have a: "adds flat_ext 2000 (map reread_block [?b]) (nd_chain demo_node) = Some flat_next"
    unfolding r(1) by (simp add: nd flat_add)
  have ok: "chain_ok flat_ext (nd_chain demo_node)" "chain_ok flat_ext (nd_chain ?peer)"
    using demo_ok(2) reachable_ok [OF flat_reachable flat_start_ok(2)] by (simp_all add: nd)
  have c: "bc_chain (nd_chain ?peer) = bc_chain (flat_chain 1000) @ [?b]"
    using added_tip [OF flat_add] by simp
  have flat_id: "bc_chain_id flat_next = bc_chain_id (flat_chain 1000)" by code_simp
  have same: "bc_chain_id (nd_chain ?peer) = bc_chain_id (nd_chain demo_node)" "first_hash (nd_chain ?peer) = first_hash (nd_chain demo_node)"
    using c flat_id by (simp_all add: nd first_hash_def) (simp add: flat_chain_def)
  obtain g where h: "hello ?peer = Some (message ''hello'' g)" by (simp add: hello_def Let_def)
  have "\<forall>b \<in> set [?b]. block_made flat_ext b
      \<and> (\<forall>t \<in> set (bl_transactions b). tx_timestamp t = 0 \<or> 10 ^ 12 \<le> tx_timestamp t)
      \<and> (\<forall>r \<in> set (bl_receipts b). plain_receipt r)"
    using r(2) by (simp add: block_ready_iff settled_stamps_def list_all_iff)
  from catch_up_completes [OF ok same h c _ _ a this, of "peer_addr ''q''" demo_net demo_net] h show ?thesis
    by (fastforce simp: nd)
qed

subsection \<open>Addresses\<close>

lemma known_replaced: 
  "disk_ok d \<Longrightarrow> get_known_peers k (d\<lparr>dk_db := Some (Database db)\<rparr>) = Inr (take k (newest_first (known_rows db)))"
  by (simp add: get_known_peers_def peer_rows_def db_connect_def known_rows_def)

text \<open>an address that a peer announced is shared with whoever asks, before it has been dialed (the
  command to dial is still waiting), not only those that were dialed with success.\<close>

lemma undialed_peers_shared:
  assumes "disk_ok (np_disk n)" "np_peer_id n \<noteq> Some (candidate_id a)"
    and "is_peer_banned (candidate_id a) (np_disk n) = Inr False" "length (known_rows (disk_db (np_disk n))) < 50"
  shows "\<exists>n1 n2 addrs. handle_addr now (JObj [(''addrs'', JArr [JStr a])]) (nd, n) = no_status (nd, n1)
    \<and> np_out n1 = np_out n \<and> np_tasks n1 = np_tasks n @ [Connect a]
    \<and> handle_getaddr asker (nd, n1) = no_status (nd, n2)
    \<and> np_tasks n2 = np_tasks n1 @ [Unicast asker (message ''addr'' (JObj [(''addrs'', JArr addrs)]))]
    \<and> JStr a \<in> set addrs"
proof -
  let ?pid = "candidate_id a" and ?db = "disk_db (np_disk n)"
  let ?rows = "sql_replace ?pid (a, now) (rows_of (db_known ?db))"
  let ?d = "np_disk n\<lparr>dk_db := Some (Database (?db\<lparr>db_known := Some ?rows\<rparr>))\<rparr>"
  let ?n1 = "create_task (Connect a) (n\<lparr>np_disk := ?d\<rparr>)"
  have r: "remember_peer ?pid a now (np_disk n) = (?d, Inr ())"
    by (simp add: remember_peer_def with_db_ok [OF assms(1)])
  have h: "handle_addr now (JObj [(''addrs'', JArr [JStr a])]) (nd, n) = no_status (nd, ?n1)"
    using assms(2,3) r by (simp add: handle_addr_def pget_def Let_def)
  have rows: "known_rows (?db\<lparr>db_known := Some ?rows\<rparr>) = ?rows" by (simp add: known_rows_def rows_of_def)
  have "length ?rows \<le> Suc (length (known_rows ?db))" by (simp add: sql_replace_def known_rows_def)
  then have len: "length (newest_first ?rows) \<le> 50" using assms(4) by (simp add: newest_first_def)
  then have k: "get_known_peers 50 ?d = Inr (newest_first ?rows)"
    using known_replaced [OF assms(1)] by (simp add: rows)
  let ?addrs = "map (\<lambda>r. JStr (fst (snd r))) (newest_first ?rows)"
  have "(?pid, a, now) \<in> set (newest_first ?rows)" by (simp add: newest_first_def sql_replace_def)
  then have "JStr a \<in> set ?addrs" by force
  moreover have "handle_getaddr asker (nd, ?n1)
      = no_status (nd, create_task (Unicast asker (message ''addr'' (JObj [(''addrs'', JArr ?addrs)]))) ?n1)"
    using k by (simp add: handle_getaddr_def create_task_def on_net_def)
  ultimately show ?thesis using h
    by (intro exI [of _ ?n1] exI [of _ "create_task (Unicast asker (message ''addr'' (JObj [(''addrs'', JArr ?addrs)]))) ?n1"]
        exI [of _ ?addrs]) (simp add: create_task_def)
qed

lemma undialed_peers_shared_witness:
  "\<exists>n1 n2 addrs. handle_addr 5 (JObj [(''addrs'', JArr [JStr ''/ip4/1.2.3.4/p2p/r''])]) (demo_node, demo_net) = no_status (demo_node, n1)
    \<and> np_out n1 = [] \<and> handle_getaddr (peer_addr ''q'') (demo_node, n1) = no_status (demo_node, n2)
    \<and> JStr ''/ip4/1.2.3.4/p2p/r'' \<in> set addrs
    \<and> Unicast (peer_addr ''q'') (message ''addr'' (JObj [(''addrs'', JArr addrs)])) \<in> set (np_tasks n2)"
proof -
  have o: "np_out demo_net = []" "np_peer_id demo_net \<noteq> Some (candidate_id ''/ip4/1.2.3.4/p2p/r'')"
    "is_peer_banned (candidate_id ''/ip4/1.2.3.4/p2p/r'') (np_disk demo_net) = Inr False"
    "length (known_rows (disk_db (np_disk demo_net))) < 50"
    by (simp_all add: demo_net_def no_disk_def is_peer_banned_def peer_rows_def disk_db_def known_rows_def
        empty_database_def rows_of_def)
  from undialed_peers_shared [OF demo_net_facts(1) o(2-4), of 5 demo_node "peer_addr ''q''"] o(1) show ?thesis by fastforce
qed

subsection \<open>The invariant\<close>

text \<open>C2: whatever messages, commands and requests a node gets, in any order and at any time, and over
  restarts: its chain is linked block to block from index 0 with the target in range, the accounts
  are a dictionary and the mempool is in order of nonces, verified and within its size; the caches
  of messages have no duplicates and at most 10000 entries, and no counter is negative.\<close>

theorem node_invariant:
  assumes "node_reach E g (nd, n)" "dict_ok (gc_alloc g)"
  shows "chain_ok E (nd_chain nd) \<and> mempool_ok E (nd_pool nd) \<and> seen_ok n \<and> counters_ok n"
  using node_reach_ok [OF assms] by (simp add: whole_ok_def node_ok_def network_ok_def)

theorem node_invariant_witness:
  "\<exists>(nd :: node) (n :: p2p). nd_chain nd = flat_next \<and> chain_ok flat_ext (nd_chain nd) \<and> seen_ok n"
proof -
  let ?b = "flat_block 1 ''1'' 1000 1050"
  let ?d = "from_q ''block'' (JObj (block_to_dict ?b))"
  let ?nd = "demo_node\<lparr>nd_chain := flat_next, nd_pool := remove_transactions (bl_transactions ?b) (nd_pool demo_node)\<rparr>"
  obtain nd n r where s: "reader_step flat_ext 2000 (Some (node_handler flat_ext 2000)) hello (Msg ?d) (demo_node, demo_net) = ((nd, n), r)"
    by (metis prod.collapse)
  have "add_block flat_ext 2000 ?b (nd_chain demo_node) = (flat_next, Inr VALID)" by (simp add: demo_node_def flat_add)
  then have h: "node_handler flat_ext 2000 ?d (demo_node, demo_net) = ((?nd, demo_net), Inr (Some VALID))"
    using flat_block_read [of 50] by (simp add: node_handler_def from_q_fields handle_block_def Let_def status_def)
  have p: "policy 2000 (peer_addr ''q'') VALID (?nd, demo_net) = ((?nd, demo_net), Inr ())"
    by (simp add: policy_def handle_validation_status_def demo_net_def)
  have t: "''block'' \<in> set SUPPORTED_MESSAGE_TYPES" by (simp add: SUPPORTED_MESSAGE_TYPES_def)
  have "nd = ?nd" using s h p t flat_block_unseen
    by (simp add: reader_step_def read_message_def Let_def read_status_def from_q_fields)
  moreover have "node_reach flat_ext (flat_config 1000) (nd, n)" by (rule node_reach.Read [OF demo_reach s])
  from node_invariant [OF this] have "chain_ok flat_ext (nd_chain nd) \<and> seen_ok n" by (simp add: flat_start_ok)
  ultimately have "nd_chain nd = flat_next \<and> chain_ok flat_ext (nd_chain nd) \<and> seen_ok n" by simp
  then show ?thesis by blast
qed

end
