(* ===== verification/SyncGuarantees.thy ===== *)
theory SyncGuarantees
  imports Exchange
begin

section \<open>Guarantees of the synchronization\<close>

text \<open>What a node does when blocks do not fit its chain: it asks for earlier ones.\<close>

subsection \<open>The search for the fork\<close>

lemma work_equal: "\<forall>b \<in> set bs. bl_target b = t \<Longrightarrow> get_total_work bs = int (length bs) * (2 ^ 256 div (if t = 0 then 1 else t))"
  by (induction bs) (auto simp: get_total_work_def algebra_simps)

lemma no_more_work:
  assumes "\<forall>b \<in> set chain. bl_target b = t" "\<forall>b \<in> set new. bl_target b = t" "0 < t" "length (py_prefix chain k) + length new \<le> length chain"
  shows "get_total_work (py_prefix chain k @ new) \<le> get_total_work chain"
proof -
  have "set (py_prefix chain k) \<subseteq> set chain" unfolding py_prefix_def by (auto dest: in_set_takeD)
  then have p: "\<forall>b \<in> set (py_prefix chain k @ new). bl_target b = t" using assms(1,2) by auto
  have "0 \<le> 2 ^ 256 div (if t = 0 then 1 else t)" using assms(3) by (simp add: pos_imp_zdiv_nonneg_iff)
  then show ?thesis using assms(4) by (simp add: work_equal [OF p] work_equal [OF assms(1)] mult_right_mono del: of_nat_add flip: of_nat_add)
qed

text \<open>One answer in the search. \<open>away\<close> says that a request cannot lead to more blocks than the node
  has: it starts at 0, or the 50 blocks from it on end inside the own chain.\<close>

definition away :: "int \<Rightarrow> blockchain \<Rightarrow> bool" where
  "away i bc \<longleftrightarrow> i = 0 \<or> 0 < i \<and> i + 50 \<le> int (length (bc_chain bc))"

definition unmined_genesis :: "blockchain \<Rightarrow> bool" where
  "unmined_genesis bc \<longleftrightarrow> (\<exists>h v. bl_hash (hd (bc_chain bc)) = Some h \<and> py_int_of_str 16 h = Some v \<and> bl_target (hd (bc_chain bc)) \<le> v)"

lemma answer_refused:
  assumes ok: "chain_ok E bc" "chain_ok E pc" and i: "away (int k) bc"
    and t: "\<forall>b \<in> set (bc_chain bc) \<union> set (bc_chain pc). bl_target b = t" and gen: "unmined_genesis bc"
    and bs: "bs = map reread_block (take 50 (drop k (bc_chain pc)))" "bs \<noteq> []"
  shows "resolve_conflicts E now bs bc = (bc, Inr (False, []))" "bl_index (hd bs) = int k"
    "bl_index (hd bs) \<noteq> bl_index (last_block bc) + 1"
proof -
  let ?own = "bc_chain bc" and ?ps = "take 50 (drop k (bc_chain pc))"
  have ne: "?own \<noteq> []" "?ps \<noteq> []" using ok(1) bs by (auto simp: chain_ok_def)
  have k: "k < length (bc_chain pc)" using ne(2) by simp
  have hd: "hd ?ps = bc_chain pc ! k" using k by (simp add: hd_drop_conv_nth)
  show idx: "bl_index (hd bs) = int k"
    using ok(2) linked_positions [of E "bc_chain pc" k] k hd ne(2) by (simp add: chain_ok_def bs(1) hd_map)
  show lin: "bl_index (hd bs) \<noteq> bl_index (last_block bc) + 1"
    using i ne(1) by (simp add: tip_index [OF ok(1)] idx away_def) (auto simp: neq_Nil_conv)
  obtain first rest where fr: "bs = first # rest" using bs(2) unfolding neq_Nil_conv by blast
  have t0: "bl_target (hd ?own) = t" "0 < t" "t \<le> MAX_TARGET"
    using ok(1) ne(1) t by (auto simp: chain_ok_def)
  have tb: "\<forall>b \<in> set bs. bl_target b = t" using t unfolding bs(1) by (auto dest!: in_set_takeD in_set_dropD)
  have work: "get_total_work (py_prefix ?own (int k) @ bs) \<le> get_total_work ?own" if "0 < k"
  proof (rule no_more_work)
    show "length (py_prefix ?own (int k)) + length bs \<le> length ?own"
      using i that by (simp add: away_def py_prefix_def bs(1) min_def)
  qed (use t t0 tb in auto)
  have f0: "k = 0 \<Longrightarrow> bl_hash first = bl_hash (hd ?own) \<Longrightarrow> fast_pow bs = Some (Inr False)"
    using gen t0 tb by (auto simp: fr unmined_genesis_def)
  have pow: "fast_pow xs \<in> {None, Some (Inr False)}" if "\<forall>x \<in> set xs. \<exists>h v. bl_hash x = Some h \<and> py_int_of_str 16 h = Some v" for xs
    using that by (induction xs) (auto split: if_splits)
  have hashed: "\<forall>x \<in> set bs. \<exists>h v. bl_hash x = Some h \<and> py_int_of_str 16 h = Some v" if "0 < k"
  proof
    fix x assume "x \<in> set bs"
    then obtain j where j: "bl_hash x = bl_hash (bc_chain pc ! (k + j))" "k + j < length (bc_chain pc)"
      by (auto simp: bs(1) in_set_conv_nth)
    then have "linked E (bc_chain pc ! (k + j - 1)) (bc_chain pc ! (k + j))"
      using ok(2) that successively_nth [of "linked E" "bc_chain pc" "k + j - 1"] by (simp add: chain_ok_def)
    with j(1) show "\<exists>h v. bl_hash x = Some h \<and> py_int_of_str 16 h = Some v"
      by (auto simp: linked_def split: option.splits)
  qed
  have f1: "bl_index first = int k" using idx fr by simp
  have py: "py_index ?own (int k - 1) \<noteq> None" if "0 < k"
    using i that by (auto simp: py_index_def away_def)
  show "resolve_conflicts E now bs bc = (bc, Inr (False, []))"
  proof (cases "k = 0")
    case True
    then show ?thesis using f0 f1 fr by (auto simp: resolve_conflicts_def fork_check_def Let_def simp del: fast_pow.simps)
  next
    case False
    with i have "\<not> int (length ?own) < int k" by (simp add: away_def)
    then have "fork_check ?own first \<in> {None, Some (Inr False)}"
      using False py f1 by (auto simp: fork_check_def split: if_splits)
    moreover have "fast_pow bs \<in> {None, Some (Inr False)}" using pow hashed False by blast
    moreover have "get_total_work (py_prefix ?own (bl_index first) @ bs) \<le> get_total_work ?own"
      using work False f1 by simp
    ultimately show ?thesis
      by (auto simp: fr resolve_conflicts_def Let_def simp del: fast_pow.simps)
  qed
qed

lemma search_round:
  assumes "chain_ok E (nd_chain nd)" "chain_ok E (nd_chain peer)" "away (int k) (nd_chain nd)"
    and "\<forall>b \<in> set (bc_chain (nd_chain nd)) \<union> set (bc_chain (nd_chain peer)). bl_target b = t"
    and "unmined_genesis (nd_chain nd)" "\<forall>b \<in> set (bc_chain (nd_chain peer)). sendable E b"
  shows "\<exists>n'. node_handler E now (received ''chain_response'' (blocks_payload (take 50 (drop k (bc_chain (nd_chain peer)))) 50) a) (nd, n)
        = no_status (nd, n')
     \<and> (np_tasks n' = np_tasks n
        \<or> 0 < k \<and> np_tasks n' = np_tasks n @ [Broadcast (message ''chain_request'' (chain_request (max 0 (int k - 50)) 50)) None])"
proof -
  let ?ps = "take 50 (drop k (bc_chain (nd_chain peer)))"
  have s: "\<forall>b \<in> set ?ps. sendable E b" using assms(6) by (auto dest: in_set_takeD in_set_dropD)
  show ?thesis
  proof (cases "?ps = []")
    case True
    then show ?thesis
      by (simp add: node_handler_def field_def received_get received_payload handle_chain_response_def pget_def)
        (simp add: no_status_def)
  next
    case False
    then have "map reread_block ?ps \<noteq> []" by simp
    note r = answer_refused(1) [where now = now, OF assms(1-5) refl this] answer_refused(2,3) [OF assms(1-5) refl this]
    have "node_handler E now (received ''chain_response'' (blocks_payload ?ps 50) a) (nd, n)
        = sync_chain E now (map reread_block ?ps) (JInt 50) (nd, n)"
      using False blocks_read [OF s, of now]
      by (simp add: node_handler_def field_def received_get received_payload handle_chain_response_def pget_def)
    also have "\<dots> = no_status (nd, if 0 < k then request_chain (JInt (max 0 (int k - 50))) (JInt 50) n else n)"
      using r by (simp add: sync_chain_def Let_def)
    finally show ?thesis by (auto simp: request_chain_def create_task_def chain_request_def)
  qed
qed

lemma away_next: "away (int k) bc \<Longrightarrow> 0 < k \<Longrightarrow> away (max 0 (int k - 50)) bc"
  by (auto simp: away_def)

lemma no_answer_twice:
  "create_task (Unicast a (message u p)) m = create_task (Unicast a (message u q)) m \<Longrightarrow> p = q"
  by (drule arg_cong [of _ _ np_tasks]) (simp add: create_task_def message_def)

text \<open>The search from an answer that cannot help on: it ends, and the chain stays.\<close>

lemma search_ends:
  assumes "chain_ok E (nd_chain nd)" "chain_ok E (nd_chain peer)" "away i (nd_chain nd)"
    and "\<forall>b \<in> set (bc_chain (nd_chain nd)) \<union> set (bc_chain (nd_chain peer)). bl_target b = t"
    and "unmined_genesis (nd_chain nd)" "\<forall>b \<in> set (bc_chain (nd_chain peer)). sendable E b"
  shows "\<exists>n'. conversation E now a (peer, m) (chain_request i 50) (nd, n) (nd, n')"
  using assms(3)
proof (induction "nat i" arbitrary: i n rule: less_induct)
  case less
  obtain k where k: "i = int k" using less.prems by (auto simp: away_def elim: nonneg_int_cases [OF less_imp_le])
  let ?p = "blocks_payload (take 50 (drop k (bc_chain (nd_chain peer)))) 50"
  have ans: "node_handler E now (received ''chain_request'' (chain_request i 50) a) (peer, m)
      = no_status (fst (peer, m), create_task (Unicast a (message ''chain_response'' ?p)) (snd (peer, m)))"
    using peer_answers [of E now k 50 a peer m] by (simp only: k fst_conv snd_conv of_nat_numeral)
  from search_round [OF assms(1,2) less.prems [unfolded k] assms(4-6), of now a n]
  obtain n' where r: "node_handler E now (received ''chain_response'' (blocks_payload (take 50 (drop k (bc_chain (nd_chain peer)))) 50) a) (nd, n)
        = no_status (nd, n')"
    and t: "np_tasks n' = np_tasks n
        \<or> 0 < k \<and> np_tasks n' = np_tasks n @ [Broadcast (message ''chain_request'' (chain_request (max 0 (int k - 50)) 50)) None]"
    by blast
  from t show ?case
  proof
    assume "np_tasks n' = np_tasks n"
    then have "conversation E now a (peer, m) (chain_request i 50) (nd, n) (nd, n')"
      by (intro conversation.Finished [OF ans r]) (simp only: snd_conv)
    then show ?case by blast
  next
    assume g: "0 < k \<and> np_tasks n' = np_tasks n @ [Broadcast (message ''chain_request'' (chain_request (max 0 (int k - 50)) 50)) None]"
    then have "nat (max 0 (int k - 50)) < nat i" by (auto simp: k max_def)
    from less.hyps [OF this away_next, of n'] less.prems g
    obtain n2 where "conversation E now a (peer, m) (chain_request (max 0 (int k - 50)) 50) (nd, n') (nd, n2)"
      by (auto simp: k)
    then have "conversation E now a (peer, m) (chain_request i 50) (nd, n) (nd, n2)"
      by (intro conversation.Goes_on [OF ans r]) (simp_all only: snd_conv g)
    then show ?case by blast
  qed
qed

lemma search_keeps:
  assumes "conversation E now a (peer, m) r st st'" "r = chain_request i 50" "fst st = nd"
    and "chain_ok E (nd_chain nd)" "chain_ok E (nd_chain peer)" "away i (nd_chain nd)"
    and "\<forall>b \<in> set (bc_chain (nd_chain nd)) \<union> set (bc_chain (nd_chain peer)). bl_target b = t"
    and "unmined_genesis (nd_chain nd)" "\<forall>b \<in> set (bc_chain (nd_chain peer)). sendable E b"
  shows "fst st' = nd"
  using assms
proof (induction arbitrary: i rule: conversation.induct)
  case (Finished r p st st')
  obtain n where st: "st = (nd, n)" using Finished.prems(2) by (cases st) simp
  obtain k where k: "i = int k" using Finished.prems(5) by (auto simp: away_def elim: nonneg_int_cases [OF less_imp_le])
  have "p = blocks_payload (take 50 (drop k (bc_chain (nd_chain peer)))) 50"
    using Finished.hyps(1) peer_answers [of E now k 50 a peer m]
    by (auto simp: Finished.prems(1) k no_status_def dest!: no_answer_twice)
  with search_round [OF Finished.prems(3,4,5) [unfolded k] Finished.prems(6-8), of now a n] Finished.hyps(2) st
  show ?case by (auto simp: no_status_def)
next
  case (Goes_on r p st st1 r' st')
  obtain n where st: "st = (nd, n)" using Goes_on.prems(2) by (cases st) simp
  obtain k where k: "i = int k" using Goes_on.prems(5) by (auto simp: away_def elim: nonneg_int_cases [OF less_imp_le])
  have "p = blocks_payload (take 50 (drop k (bc_chain (nd_chain peer)))) 50"
    using Goes_on.hyps(1) peer_answers [of E now k 50 a peer m]
    by (auto simp: Goes_on.prems(1) k no_status_def dest!: no_answer_twice)
  with search_round [OF Goes_on.prems(3,4,5) [unfolded k] Goes_on.prems(6-8), of now a n] Goes_on.hyps(2,3) st
  have "fst st1 = nd" "0 < k" "r' = chain_request (max 0 (int k - 50)) 50"
    by (auto simp: no_status_def message_def)
  with Goes_on.IH [of "max 0 (int k - 50)"] Goes_on.prems(3,4,6-8) away_next [OF Goes_on.prems(5) [unfolded k]] show ?case by simp
qed

text \<open>C7: the search for the fork never ends with a switch of chains. A block that does not fit (it is not
  valid after the tip, and its index is at most the next one) makes the node ask for 50 blocks that
  end before it, and each answer that does not fit for the 50 before those. Whatever chain the peer
  that answers has (honest, with blocks as nodes make them, all with the same target as the own ones), the conversation
  ends, and the node's chain is as it was, however long the other is: no answer reaches beyond the
  own tip, so the chain put together has no more work; and the answer that starts at 0 holds the
  genesis block, which fails the check of its proof of work. (This needs a genesis hash that is
  not below its own target by chance; the peer and the clock stand still.)\<close>

theorem fork_search_keeps_chain:
  assumes "chain_ok E (nd_chain nd)" "chain_ok E (nd_chain peer)"
    and "\<forall>b \<in> set (bc_chain (nd_chain nd)) \<union> set (bc_chain (nd_chain peer)). bl_target b = t"
    and "bl_hash (hd (bc_chain (nd_chain nd))) = Some h" "py_int_of_str 16 h = Some v" "t \<le> v"
    and "\<forall>b \<in> set (bc_chain (nd_chain peer)). sendable E b"
    and "field ''type'' d = JStr ''block''" "field ''data'' d = JObj p" "block_from_dict E now p = Inr b"
    and "add_block E now b (nd_chain nd) = (bc, Inr s)" "s \<noteq> VALID" "bl_index b \<le> bl_index (last_block (nd_chain nd)) + 1"
  shows "\<exists>r n1. node_handler E now d (nd, n) = status s (nd, n1)
    \<and> np_tasks n1 = np_tasks n @ [Broadcast (message ''chain_request'' r) None]
    \<and> (\<exists>nd' n'. conversation E now a (peer, m) r (nd, n1) (nd', n'))
    \<and> (\<forall>nd' n'. conversation E now a (peer, m) r (nd, n1) (nd', n') \<longrightarrow> nd_chain nd' = nd_chain nd)"
proof -
  let ?i = "max 0 (bl_index b - 50)"
  let ?n1 = "request_chain (JInt ?i) (JInt 50) n"
  have ne: "bc_chain (nd_chain nd) \<noteq> []" using assms(1) by (simp add: chain_ok_def)
  then have gen: "unmined_genesis (nd_chain nd)" using assms(3-6) by (simp add: unmined_genesis_def)
  have i: "away ?i (nd_chain nd)"
    using assms(13) by (auto simp: away_def tip_index [OF assms(1)])
  have "bc = nd_chain nd" using assms(11,12) by (auto simp: add_block_def Let_def split: prod.splits sum.splits if_splits)
  then have h: "node_handler E now d (nd, n) = status s (nd, ?n1)"
    using assms(8-13) by (simp add: node_handler_def handle_block_def Let_def)
  have t: "np_tasks ?n1 = np_tasks n @ [Broadcast (message ''chain_request'' (chain_request ?i 50)) None]"
    by (simp add: request_chain_def create_task_def chain_request_def)
  note e = search_ends [OF assms(1,2) i assms(3) gen assms(7), of now a m ?n1]
  have "nd_chain nd' = nd_chain nd" if "conversation E now a (peer, m) (chain_request ?i 50) (nd, ?n1) (nd', n')" for nd' n'
    using search_keeps [OF that refl _ assms(1,2) i assms(3) gen assms(7)] by simp
  with h t e show ?thesis by blast
qed

text \<open>A hash by which genesis is not below its target: it tells the header of the block 0 from the others.\<close>

definition seed_ext :: ext where
  "seed_ext = flat_ext\<lparr>sha256_hex := (\<lambda>s. if take 11 s = ''{\"index\":0,'' then ''7d0'' else ''1'')\<rparr>"

definition seed_chain :: "block list \<Rightarrow> blockchain" where
  "seed_chain bs = (flat_chain 1000)\<lparr>bc_chain := (flat_block 0 ''0'' 1000 1000)\<lparr>bl_hash := Some ''7d0''\<rparr> # bs\<rparr>"

definition own_seed :: blockchain where
  "own_seed = seed_chain [flat_block 1 ''7d0'' 1000 1010]"

definition other_seed :: blockchain where
  "other_seed = seed_chain [flat_block 1 ''7d0'' 1000 1005, flat_block 2 ''1'' 1000 1015]"

definition stray_block :: block where
  "stray_block = flat_block 2 ''5'' 1000 1100"

lemma seed_linked:
  "successively (linked seed_ext) (bc_chain own_seed)" "successively (linked seed_ext) (bc_chain other_seed)"
  "list_all (\<lambda>b. block_made seed_ext b) (stray_block # bc_chain own_seed @ bc_chain other_seed)"
  by code_simp+

lemma seed_ok: "chain_ok seed_ext own_seed" "chain_ok seed_ext other_seed"
proof -
  have h: "bl_index (hd (bc_chain (seed_chain bs))) = 0 \<and> bc_chain (seed_chain bs) \<noteq> []
      \<and> bl_target (hd (bc_chain (seed_chain bs))) = 1000" for bs
    by (simp add: seed_chain_def flat_block_def new_block_def)
  have "chain_ok seed_ext (seed_chain bs)" if "successively (linked seed_ext) (bc_chain (seed_chain bs))" for bs
    using demo_ok(2) that h [of bs] by (simp add: chain_ok_def) (simp add: seed_chain_def flat_chain_def MAX_TARGET_def)
  then show "chain_ok seed_ext own_seed" "chain_ok seed_ext other_seed"
    using seed_linked(1,2) by (simp_all only: own_seed_def other_seed_def)
qed

lemma seed_sendable: "b \<in> set (bc_chain other_seed) \<Longrightarrow> sendable seed_ext b"
  using seed_linked(3)
  by (auto simp: sendable_def list_all_iff) (auto simp: other_seed_def seed_chain_def flat_block_def new_block_def)

lemma stray_read: "block_from_dict seed_ext 2000 (block_to_dict stray_block) = Inr stray_block"
proof -
  have "block_ready seed_ext stray_block" using seed_linked(3)
    by (simp add: block_ready_iff settled_stamps_def) (simp add: stray_block_def flat_block_def new_block_def)
  from block_reread [OF this, of 2000] show ?thesis by (simp add: stray_block_def flat_block_def new_block_def)
qed

theorem fork_search_keeps_chain_witness:
  "\<exists>d s r n1. node_handler seed_ext 2000 d (demo_node\<lparr>nd_chain := own_seed\<rparr>, demo_net)
       = status s (demo_node\<lparr>nd_chain := own_seed\<rparr>, n1)
     \<and> Broadcast (message ''chain_request'' r) None \<in> set (np_tasks n1)
     \<and> (\<exists>nd' n'. conversation seed_ext 2000 (peer_addr ''q'') (demo_node\<lparr>nd_chain := other_seed\<rparr>, demo_net) r
           (demo_node\<lparr>nd_chain := own_seed\<rparr>, n1) (nd', n') \<and> nd_chain nd' = own_seed)"
proof -
  let ?nd = "demo_node\<lparr>nd_chain := own_seed\<rparr>" and ?peer = "demo_node\<lparr>nd_chain := other_seed\<rparr>"
  have ok: "chain_ok seed_ext (nd_chain ?nd)" "chain_ok seed_ext (nd_chain ?peer)" using seed_ok by simp_all
  have t: "\<forall>b \<in> set (bc_chain (nd_chain ?nd)) \<union> set (bc_chain (nd_chain ?peer)). bl_target b = 1000"
    by (auto simp: own_seed_def other_seed_def seed_chain_def flat_block_def new_block_def)
  have g: "bl_hash (hd (bc_chain (nd_chain ?nd))) = Some ''7d0''" by (simp add: own_seed_def seed_chain_def)
  have v: "py_int_of_str 16 ''7d0'' = Some 2000" by code_simp
  have s: "\<forall>b \<in> set (bc_chain (nd_chain ?peer)). sendable seed_ext b" using seed_sendable by simp
  have tip: "last_block (nd_chain ?nd) = flat_block 1 ''7d0'' 1000 1010" by (simp add: own_seed_def seed_chain_def last_block_def)
  have b: "bl_index stray_block \<le> bl_index (last_block (nd_chain ?nd)) + 1"
    unfolding tip by (simp add: stray_block_def flat_block_def new_block_def)
  have a: "add_block seed_ext 2000 stray_block (nd_chain ?nd) = (nd_chain ?nd, Inr INVALID)"
    by (rule wrong_parent, unfold tip) (simp add: stray_block_def flat_block_def new_block_def)
  have le: "(1000 :: int) \<le> 2000" and inv: "INVALID \<noteq> VALID" by simp_all
  from fork_search_keeps_chain [OF ok t g v le s from_q_fields(1) from_q_fields(2) stray_read a inv b,
      of demo_net "peer_addr ''q''" demo_net]
  obtain r n1 nd' n' where
    "node_handler seed_ext 2000 (from_q ''block'' (JObj (block_to_dict stray_block))) (?nd, demo_net) = status INVALID (?nd, n1)"
    "np_tasks n1 = np_tasks demo_net @ [Broadcast (message ''chain_request'' r) None]"
    "conversation seed_ext 2000 (peer_addr ''q'') (?peer, demo_net) r (?nd, n1) (nd', n')" "nd_chain nd' = nd_chain ?nd"
    by blast
  moreover from this(2) have "Broadcast (message ''chain_request'' r) None \<in> set (np_tasks n1)" by simp
  moreover have "nd_chain ?nd = own_seed" by simp
  ultimately show ?thesis by metis
qed

text \<open>One failed round: what it asks for.\<close>

definition failed_round :: "'a ext_scheme \<Rightarrow> int \<Rightarrow> block list \<Rightarrow> node \<times> p2p \<Rightarrow> bool" where
  "failed_round E now bs st \<longleftrightarrow>
     bs \<noteq> [] \<and> \<not> (bl_index (hd bs) = bl_index (last_block (nd_chain (fst st))) + 1
       \<and> Some (bl_previous_hash (hd bs)) = bl_hash (last_block (nd_chain (fst st))))
     \<and> (\<exists>bc os. resolve_conflicts E now bs (nd_chain (fst st)) = (bc, Inr (False, os)))"

definition asked :: "'a ext_scheme \<Rightarrow> int \<Rightarrow> block list \<Rightarrow> json \<Rightarrow> node \<times> p2p \<Rightarrow> int option \<Rightarrow> bool" where
  "asked E now bs limit st start \<longleftrightarrow>
     np_tasks (snd (fst (sync_chain E now bs limit st))) = np_tasks (snd st) @
       (case start of None \<Rightarrow> [] | Some i \<Rightarrow>
          [Broadcast (message ''chain_request'' (JObj [(''start_index'', JInt i), (''limit'', JInt 50)])) None])"

lemma round_asks:
  "failed_round E now bs st \<Longrightarrow> asked E now bs limit st
     (if bl_index (hd bs) > 0 then Some (max 0 (bl_index (hd bs) - 50)) else None)"
  by (auto simp: failed_round_def asked_def sync_chain_def Let_def no_status_def request_chain_def create_task_def split_beta)

text \<open>C17: the search ends. When every answer starts at the block that was asked for and no round
  succeeds, each round asks for a batch that starts up to 50 blocks earlier, and after at most
  a fiftieth of the first index (rounded up) further rounds nothing is asked any more.\<close>

theorem backward_search_ends:
  assumes "\<forall>k. failed_round E (now k) (bs k) (st k)"
    and "\<forall>k j. asked E (now k) (bs k) (limit k) (st k) (Some j) \<longrightarrow> bl_index (hd (bs (Suc k))) = j"
    and "0 \<le> bl_index (hd (bs 0))"
  shows "\<exists>k. int k \<le> (bl_index (hd (bs 0)) + 49) div 50 \<and> asked E (now k) (bs k) (limit k) (st k) None
    \<and> (\<forall>j < k. asked E (now j) (bs j) (limit j) (st j) (Some (max 0 (bl_index (hd (bs 0)) - 50 * int (Suc j)))))"
proof -
  let ?i = "bl_index (hd (bs 0))"
  define K where "K = nat ((?i + 49) div 50)"
  have K: "int K = (?i + 49) div 50" using assms(3) by (simp add: K_def)
  have pos: "0 < ?i - 50 * int k" if "k < K" for k
  proof -
    have "int (Suc k) \<le> (?i + 49) div 50" using that K by linarith
    then show ?thesis by linarith
  qed
  have idx: "k \<le> K \<Longrightarrow> bl_index (hd (bs k)) = max 0 (?i - 50 * int k)" for k
  proof (induction k)
    case (Suc k)
    then have "bl_index (hd (bs k)) = ?i - 50 * int k" "0 < ?i - 50 * int k" using pos [of k] by simp_all
    then have "asked E (now k) (bs k) (limit k) (st k) (Some (max 0 (?i - 50 * int k - 50)))"
      using round_asks [OF assms(1) [rule_format], of k "limit k"] by simp
    with assms(2) show ?case by (simp add: algebra_simps)
  qed (use assms(3) in simp)
  have "asked E (now j) (bs j) (limit j) (st j) (Some (max 0 (?i - 50 * int (Suc j))))" if "j < K" for j
    using round_asks [OF assms(1) [rule_format], of j "limit j"] idx [of j] pos [OF that] that by (simp add: algebra_simps)
  moreover have "?i - 50 * int K \<le> 0" using K by linarith
  then have "asked E (now K) (bs K) (limit K) (st K) None"
    using round_asks [OF assms(1) [rule_format], of K "limit K"] idx [of K] by simp
  ultimately show ?thesis using K by (intro exI [of _ K]) simp
qed

text \<open>Answers from a chain with another genesis block.\<close>

definition stranger :: "nat \<Rightarrow> block list" where
  "stranger k = [(flat_block (max 0 (60 - 50 * int k)) ''9'' 1000 1100)\<lparr>bl_hash := Some ''7''\<rparr>]"

theorem backward_search_ends_witness:
  "\<exists>k. int k \<le> 2 \<and> asked flat_ext 2000 (stranger k) (JInt 50) (demo_node, demo_net) None"
proof -
  have bc: "bc_chain (nd_chain demo_node) = [flat_block 0 ''0'' 1000 1000]" by (simp add: demo_node_def flat_chain_def)
  have h: "bl_index (hd (stranger k)) = max 0 (60 - 50 * int k)" "bl_index (flat_block 0 ''0'' 1000 1000) = 0"
    "bl_hash (hd (stranger k)) = Some ''7''" "bl_hash (flat_block 0 ''0'' 1000 1000) = Some ''1''" for k
    by (simp_all add: stranger_def flat_block_def new_block_def)
  have n1: "max 0 (60 - 50 * int k) \<noteq> 1" "max 0 (60 - 50 * int k) = 0 \<or> 1 < max 0 (60 - 50 * int k)" for k
    by (simp_all only: max_def) presburger+
  have f: "failed_round flat_ext 2000 (stranger k) (demo_node, demo_net)" for k
  proof -
    obtain x where x: "stranger k = [x]" by (simp add: stranger_def)
    have "fork_check (bc_chain (nd_chain demo_node)) x = Some (Inr False)"
      using n1(2) [of k] h(1) [of k] h(2) h(3) [of k] h(4) x by (auto simp: fork_check_def bc)
    then have "resolve_conflicts flat_ext 2000 [x] (nd_chain demo_node) = (nd_chain demo_node, Inr (False, []))"
      by (simp add: resolve_conflicts_def)
    then show ?thesis using n1(1) [of k] h(1) [of k] h(2) h(3) [of k] h(4) by (simp add: failed_round_def x bc last_block_def)
  qed
  have unique: "asked flat_ext 2000 (stranger k) (JInt 50) (demo_node, demo_net) (Some j) \<Longrightarrow> bl_index (hd (stranger (Suc k))) = j" for k j
    using round_asks [OF f, of k "JInt 50"] h(1) [of k] h(1) [of "Suc k"]
    by (auto simp: asked_def message_def split: if_splits)
  have "0 \<le> bl_index (hd (stranger 0))" "(bl_index (hd (stranger 0)) + 49) div 50 = 2" by (simp_all add: h)
  with backward_search_ends [where now = "\<lambda>_. 2000" and limit = "\<lambda>_. JInt 50" and st = "\<lambda>_. (demo_node, demo_net)" and bs = stranger, of flat_ext]
    f unique show ?thesis by fastforce
qed

end
