(* ===== verification/CliGuarantees.thy ===== *)
theory CliGuarantees
  imports NodeDemo
begin

section \<open>Guarantees of the start and of the keys\<close>

subsection \<open>Start\<close>

lemma no_chain_refused:
  "dk_legacy d = None \<Longrightarrow> dk_db d = Some (Database db) \<Longrightarrow> db_blocks db = None \<Longrightarrow> boot_chain cr now g d = Inl Refused"
  by (simp add: boot_chain_def persistence_exists_def load_def read_snapshot_def load_snapshot_def json_error_def)

text \<open>a node that has never saved a chain starts from genesis. But as soon as it remembers or bans a
  peer, the file \<open>data.db\<close> exists with tables of peers only; if the process dies before a chain is
  saved, the next start takes the file for a corrupted chain and refuses.\<close>

lemma peer_table_blocks_start:
  assumes "dk_db d = None" "dk_legacy d = None"
  shows "boot_chain cr now g d = map_sum Boot_genesis id (create_genesis cr now g)
    \<and> boot_chain cr now g (fst (remember_peer pid a t d)) = Inl Refused
    \<and> boot_chain cr now g (fst (ban_peer pid r t d)) = Inl Refused"
proof (intro conjI)
  show "boot_chain cr now g d = map_sum Boot_genesis id (create_genesis cr now g)"
    using assms by (simp add: boot_chain_def persistence_exists_def)
  have c: "db_connect d = Inr empty_database" using assms(1) by (simp add: db_connect_def)
  show "boot_chain cr now g (fst (remember_peer pid a t d)) = Inl Refused"
    by (rule no_chain_refused) (simp add: remember_peer_def with_db_def c assms(2) empty_database_def)+
  show "boot_chain cr now g (fst (ban_peer pid r t d)) = Inl Refused"
    by (rule no_chain_refused) (simp add: ban_peer_def with_db_def c assms(2) empty_database_def)+
qed

lemma peer_table_blocks_start_witness:
  "boot_chain flat_ext 2000 (flat_config 1000) no_disk = Inr (flat_chain 1000)
    \<and> boot_chain flat_ext 2000 (flat_config 1000) (fst (remember_peer ''q'' ''/ip4/1.2.3.4/p2p/q'' 5 no_disk)) = Inl Refused"
  using peer_table_blocks_start [of no_disk flat_ext 2000 "flat_config 1000" "''q''" "''/ip4/1.2.3.4/p2p/q''" 5]
    flat_genesis [of 1000 2000]
  by (simp add: no_disk_def MAX_TARGET_def)

subsection \<open>Keys\<close>

text \<open>C20: the keys survive a restart, if the first start can write its files: whichever way it got its
  wallet and its identity, the next one gets the same, whatever the generators would return; and a
  wallet's key that was exported in hexadecimal is imported again as the same key. When the
  keystore cannot be written, its file stays as it is: the wallet is the same after the restart
  exactly when the file already held a key, and otherwise the next start gets the next fresh key.
  (An identity that cannot be written ends the start.)\<close>

theorem keys_persist:
  assumes "length fresh = 32" "kc_from_bytes kc (kc_to_bytes kc k) = Some k"
    and "load_or_create_wallet writable fresh file = Inr (sk, file')" "load_or_create_keypair kc k nodekey = (k', nodekey')"
  shows "length sk = 32
    \<and> (writable \<longrightarrow> load_or_create_wallet w other file' = Inr (sk, file'))
    \<and> (\<not> writable \<longrightarrow> file' = file \<and> load_or_create_wallet False other file'
         = Inr (if \<exists>s. file = Some s \<and> read_keystore s = Inr (Some sk) then sk else other, file'))
    \<and> cli_import True [c, hex_text sk] x = (sk, Some (keystore_text sk))
    \<and> load_or_create_keypair kc k2 nodekey' = (k', nodekey')"
proof -
  have r: "read_keystore s = Inr (Some k) \<Longrightarrow> length k = 32" for s k
    by (auto simp: read_keystore_def signing_key_def split: if_splits sum.splits decode_error.splits json.splits option.splits)
  have sk: "length sk = 32
    \<and> (writable \<longrightarrow> load_or_create_wallet w other file' = Inr (sk, file'))
    \<and> (\<not> writable \<longrightarrow> file' = file \<and> load_or_create_wallet False other file'
         = Inr (if \<exists>s. file = Some s \<and> read_keystore s = Inr (Some sk) then sk else other, file'))"
  proof (cases "\<exists>s k. file = Some s \<and> read_keystore s = Inr (Some k)")
    case True
    then show ?thesis using assms(3) r by (auto simp: load_or_create_wallet_def)
  next
    case False
    then have k: "(case file of None \<Rightarrow> Inr None | Some s \<Rightarrow> read_keystore s) = Inr None"
      "sk = fresh" "file' = (if writable then Some (keystore_text fresh) else file)" using assms(3)
      by (auto simp: load_or_create_wallet_def decode_bind_def split: option.splits sum.splits)
    then show ?thesis using read_keystore_text [OF assms(1)] assms(1) False by (auto simp: load_or_create_wallet_def)
  qed
  moreover have "cli_import True [c, hex_text sk] x = (sk, Some (keystore_text sk))"
    using sk by (simp add: cli_import_def signing_key_def fromhex_hex_text)
  moreover have "load_or_create_keypair kc k2 nodekey' = (k', nodekey')"
    using assms(2,4) by (auto simp: load_or_create_keypair_def split: option.splits)
  ultimately show ?thesis by blast
qed

theorem keys_persist_witness:
  "\<exists>file' key'. load_or_create_wallet True (replicate 32 (CHR ''k'')) None = Inr (replicate 32 (CHR ''k''), file')
     \<and> load_or_create_wallet True (replicate 32 (CHR ''x'')) file' = Inr (replicate 32 (CHR ''k''), file')
     \<and> load_or_create_wallet False (replicate 32 (CHR ''k'')) None = Inr (replicate 32 (CHR ''k''), None)
     \<and> load_or_create_wallet False (replicate 32 (CHR ''x'')) None = Inr (replicate 32 (CHR ''x''), None)
     \<and> load_or_create_keypair \<lparr>kc_from_bytes = Some, kc_to_bytes = (\<lambda>k. k)\<rparr> ''a'' None = (''a'', key')
     \<and> load_or_create_keypair \<lparr>kc_from_bytes = Some, kc_to_bytes = (\<lambda>k. k)\<rparr> ''b'' key' = (''a'', key')"
proof -
  let ?k = "replicate 32 (CHR ''k'')" and ?kc = "\<lparr>kc_from_bytes = Some, kc_to_bytes = (\<lambda>k. k)\<rparr>"
  have w: "load_or_create_wallet True ?k None = Inr (?k, Some (keystore_text ?k))"
    "load_or_create_wallet False ?k None = Inr (?k, None)"
    "load_or_create_keypair ?kc ''a'' None = (''a'', Some ''a'')"
    by (simp_all add: load_or_create_wallet_def load_or_create_keypair_def del: replicate.simps)
  have l: "length ?k = 32" "kc_from_bytes ?kc (kc_to_bytes ?kc ''a'') = Some ''a''" by (simp_all del: replicate.simps)
  have "load_or_create_wallet True (replicate 32 (CHR ''x'')) (Some (keystore_text ?k)) = Inr (?k, Some (keystore_text ?k))"
    "load_or_create_keypair ?kc ''b'' (Some ''a'') = (''a'', Some ''a'')"
    using keys_persist [OF l w(1,3)] by blast+
  moreover have "load_or_create_wallet False (replicate 32 (CHR ''x'')) None = Inr (replicate 32 (CHR ''x''), None)"
    using keys_persist [OF l w(2,3), of True "replicate 32 (CHR ''x'')"] by (simp del: replicate.simps)
  ultimately show ?thesis using w by blast
qed

end
