(* ===== verification/RpcGuarantees.thy ===== *)
theory RpcGuarantees
  imports NodeDemo
begin

section \<open>Guarantees of the JSON-RPC server\<close>

text \<open>What a request is answered with.\<close>

definition request_id :: "json \<Rightarrow> json" where
  "request_id req = (case req of JObj d \<Rightarrow> field ''id'' d | _ \<Rightarrow> JNull)"

definition request_method :: "json \<Rightarrow> json option" where
  "request_method req =
     (case req of JObj d \<Rightarrow> if field ''jsonrpc'' d = JStr ''2.0'' then dict_get d ''method'' else None | _ \<Rightarrow> None)"

definition known_methods :: "json set" where
  "known_methods = JStr ` {''mc_blockNumber'', ''mc_getBlockByNumber'', ''mc_getBalance'', ''mc_sendTransaction''}"

definition request_params :: "json \<Rightarrow> json" where
  "request_params req =
     (case req of JObj d \<Rightarrow> (case dict_get d ''params'' of None \<Rightarrow> JArr [] | Some v \<Rightarrow> v) | _ \<Rightarrow> JArr [])"

text \<open>The calls that the model does not follow: an address that is not a text but can be a key (null, a
  boolean, a number), a transaction with a field of a type that no node writes, and parameters that
  have no JSON form, which do not occur in a body that was read.\<close>

definition unfollowed :: "int \<Rightarrow> json \<Rightarrow> json \<Rightarrow> bool" where
  "unfollowed now m ps =
     (if m = JStr ''mc_getBlockByNumber'' then first_param ps \<in> {Inl Unmodelled, Inr JOpaque}
      else if m = JStr ''mc_getBalance''
      then (case first_param ps of
              Inl e \<Rightarrow> e = Unmodelled
            | Inr v \<Rightarrow> (case v of JStr _ \<Rightarrow> False | JArr _ \<Rightarrow> False | JObj _ \<Rightarrow> False | _ \<Rightarrow> True))
      else if m = JStr ''mc_sendTransaction''
      then (case first_param ps of
              Inl e \<Rightarrow> e = Unmodelled
            | Inr v \<Rightarrow> (case v of JObj d \<Rightarrow> tx_from_dict now d = Inl Unmodelled | _ \<Rightarrow> v = JOpaque))
      else False)"

definition answers :: "int \<Rightarrow> json \<Rightarrow> rpc_reply option \<Rightarrow> bool" where
  "answers now req a =
     (case request_method req of
        None \<Rightarrow> a = Some (Rpc_err (- 32600) Invalid_request (request_id req))
      | Some m \<Rightarrow>
          if m \<notin> known_methods then a = Some (Rpc_err (- 32601) (Method_not_found m) (request_id req))
          else if unfollowed now m (request_params req) then a = None
          else (\<exists>v. a = Some (Rpc_ok v (request_id req)))
             \<or> (\<exists>e. a = Some (Rpc_err (- 32000) (Exception_text e) (request_id req))))"

lemma results:
  "snd (rpc_get_block ps st) \<noteq> Inr Rpc_no_method" "snd (rpc_get_balance ps st) \<noteq> Inr Rpc_no_method"
  by (auto simp: rpc_get_block_def rpc_get_balance_def Let_def decode_bind_def split: sum.splits json.splits prod.splits)

lemma send_result: "snd (rpc_send_transaction cr now ps st) \<noteq> Inr Rpc_no_method"
  by (simp add: rpc_send_transaction_def Let_def split: sum.split prod.split bool.split)

lemma known_method:
  "m \<in> known_methods \<Longrightarrow>
     snd (rpc_call cr now m ps st) \<noteq> Inr Rpc_no_method"
  by (auto simp: rpc_call_def known_methods_def results send_result)

lemma py_int_unfollowed: "py_int v = Inl Unmodelled \<longleftrightarrow> v = JOpaque"
  by (cases v) (auto split: option.splits)

lemma get_block_unfollowed:
  "snd (rpc_get_block ps st) = Inl Unmodelled \<longleftrightarrow> unfollowed now (JStr ''mc_getBlockByNumber'') ps"
proof (cases "first_param ps")
  case (Inl e)
  then show ?thesis by (simp add: rpc_get_block_def unfollowed_def Let_def)
next
  case (Inr v)
  have "decode_bind (py_int v) (\<lambda>i. if P i then Inr (f i) else Inr (g i)) = Inl Unmodelled \<longleftrightarrow> v = JOpaque"
    for P :: "int \<Rightarrow> bool" and f g :: "int \<Rightarrow> rpc_result"
    unfolding py_int_unfollowed [symmetric] by (cases "py_int v") simp_all
  then show ?thesis using Inr by (simp add: rpc_get_block_def unfollowed_def Let_def)
qed

lemma get_balance_unfollowed:
  "snd (rpc_get_balance ps st) = Inl Unmodelled \<longleftrightarrow> unfollowed now (JStr ''mc_getBalance'') ps"
  by (auto simp: rpc_get_balance_def unfollowed_def Let_def split: sum.splits json.splits prod.splits)

lemma send_unfollowed:
  "snd (rpc_send_transaction cr now ps st) = Inl Unmodelled \<longleftrightarrow> unfollowed now (JStr ''mc_sendTransaction'') ps"
proof -
  let ?d = "decode_bind (first_param ps) (\<lambda>p. case p of JObj d \<Rightarrow> tx_from_dict now d | JOpaque \<Rightarrow> Inl Unmodelled | _ \<Rightarrow> Inl (Raised TypeError))"
  have "snd (rpc_send_transaction cr now ps st) = Inl Unmodelled \<longleftrightarrow> ?d = Inl Unmodelled"
    by (cases ?d) (simp_all add: rpc_send_transaction_def Let_def split: prod.split bool.split)
  also have "\<dots> \<longleftrightarrow> unfollowed now (JStr ''mc_sendTransaction'') ps"
    by (cases "first_param ps") (auto simp: unfollowed_def split: json.splits)
  finally show ?thesis .
qed

lemma call_unfollowed:
  "m \<in> known_methods \<Longrightarrow> snd (rpc_call cr now m ps st) = Inl Unmodelled \<longleftrightarrow> unfollowed now m ps"
proof -
  have n: "\<not> unfollowed now (JStr ''mc_blockNumber'') ps" by (simp add: unfollowed_def)
  show "m \<in> known_methods \<Longrightarrow> ?thesis"
    by (auto simp: rpc_call_def known_methods_def get_block_unfollowed [of ps st now]
        get_balance_unfollowed [of ps st now] send_unfollowed [of cr now ps st] n)
qed

lemma single_answers: "process_single cr now req st = (st', r) \<Longrightarrow> answers now req r"
proof -
  assume p: "process_single cr now req st = (st', r)"
  show ?thesis
  proof (cases "request_method req")
    case None
    with p show ?thesis
      by (auto simp: answers_def process_single_def request_method_def request_id_def Let_def split: json.splits option.splits if_splits)
  next
    case (Some m)
    then obtain d where d: "req = JObj d" "field ''jsonrpc'' d = JStr ''2.0''" "dict_get d ''method'' = Some m"
      by (auto simp: request_method_def split: json.splits if_splits)
    obtain st1 x where x: "rpc_call cr now m (request_params req) st = (st1, x)" by fastforce
    have x': "rpc_call cr now m (case dict_get d ''params'' of None \<Rightarrow> JArr [] | Some v \<Rightarrow> v) st = (st1, x)"
      using x by (simp add: request_params_def d(1))
    have n: "x \<noteq> Inr Rpc_no_method \<and> (x = Inl Unmodelled \<longleftrightarrow> unfollowed now m (request_params req))"
      if "m \<in> known_methods"
      using known_method [OF that, of cr now "request_params req" st] call_unfollowed [OF that, of cr now "request_params req" st] x by simp
    have u: "x = Inr Rpc_no_method"
      if "m \<notin> known_methods"
      using that x by (auto simp: rpc_call_def known_methods_def)
    have "(st', r) = (case x of Inl Unmodelled \<Rightarrow> (st1, None)
        | Inl (Raised e) \<Rightarrow> (st1, Some (Rpc_err (- 32000) (Exception_text e) (request_id req)))
        | Inr Rpc_no_method \<Rightarrow> (st1, Some (Rpc_err (- 32601) (Method_not_found m) (request_id req)))
        | Inr (Rpc_value v) \<Rightarrow> (st1, Some (Rpc_ok v (request_id req))))"
      using p d x' by (auto simp: process_single_def request_id_def Let_def split: sum.splits decode_error.splits rpc_result.splits)
    then show ?thesis using Some n u
      by (auto simp: answers_def split: sum.splits decode_error.splits rpc_result.splits)
  qed
qed

lemma all_answers: "process_all cr now reqs st = (st', as) \<Longrightarrow> list_all2 (answers now) reqs as"
proof (induction reqs arbitrary: st st' as)
  case (Cons q reqs)
  obtain st1 a where p: "process_single cr now q st = (st1, a)" by fastforce
  obtain st2 as' where q: "process_all cr now reqs st1 = (st2, as')" by fastforce
  show ?case using Cons.prems Cons.IH [OF q] single_answers [OF p] p q by auto
qed simp

text \<open>C19: a batch is answered one to one, in its order and each with the identifier of its request: what
  is not a request of version 2.0 with code -32600, an unknown method with -32601, and one of the
  four methods with a result or with -32000. The model gives no reply to exactly the calls that
  it does not follow (\<open>unfollowed\<close>): an address that is not a text but can be a key of a dictionary
  (null, a boolean, a number), or a transaction whose fields have types that no node writes. A body
  with a float or with a text that is not UTF-8 is not read by the model at all.\<close>

theorem rpc_answers:
  assumes "json_loads body = Inr (JArr reqs)"
  shows "\<exists>st' as. handle_rpc cr now body st = (st', Batch as) \<and> list_all2 (\<lambda>req a.
     case request_method req of
       None \<Rightarrow> a = Some (Rpc_err (- 32600) Invalid_request (request_id req))
     | Some m \<Rightarrow>
         if m \<notin> JStr ` {''mc_blockNumber'', ''mc_getBlockByNumber'', ''mc_getBalance'', ''mc_sendTransaction''}
         then a = Some (Rpc_err (- 32601) (Method_not_found m) (request_id req))
         else if unfollowed now m (request_params req) then a = None
         else (\<exists>v. a = Some (Rpc_ok v (request_id req)))
            \<or> (\<exists>e. a = Some (Rpc_err (- 32000) (Exception_text e) (request_id req)))) reqs as"
proof -
  obtain st' as where p: "process_all cr now reqs st = (st', as)" by fastforce
  have "list_all2 (\<lambda>req a. answers now req a) reqs as" by (rule all_answers [OF p])
  then have "list_all2 (\<lambda>req a.
     case request_method req of
       None \<Rightarrow> a = Some (Rpc_err (- 32600) Invalid_request (request_id req))
     | Some m \<Rightarrow>
         if m \<notin> JStr ` {''mc_blockNumber'', ''mc_getBlockByNumber'', ''mc_getBalance'', ''mc_sendTransaction''}
         then a = Some (Rpc_err (- 32601) (Method_not_found m) (request_id req))
         else if unfollowed now m (request_params req) then a = None
         else (\<exists>v. a = Some (Rpc_ok v (request_id req)))
            \<or> (\<exists>e. a = Some (Rpc_err (- 32000) (Exception_text e) (request_id req)))) reqs as"
    unfolding answers_def known_methods_def .
  with p assms show ?thesis by (auto simp: handle_rpc_def)
qed

definition demo_batch :: string where
  "demo_batch = ''[{\"jsonrpc\":\"2.0\",\"method\":\"mc_blockNumber\",\"id\":7},5,{\"jsonrpc\":\"2.0\",\"method\":\"x\",\"id\":8}]''"

definition strange_request :: json where
  "strange_request = JObj [(''jsonrpc'', JStr ''2.0''), (''method'', JStr ''x''), (''id'', JInt 8)]"

definition demo_request :: json where
  "demo_request = JObj [(''jsonrpc'', JStr ''2.0''), (''method'', JStr ''mc_blockNumber''), (''id'', JInt 7)]"

theorem rpc_answers_witness:
  "\<exists>st' r. handle_rpc flat_ext 5 demo_batch (demo_node, demo_net)
       = (st', Batch [Some r, Some (Rpc_err (- 32600) Invalid_request JNull),
                      Some (Rpc_err (- 32601) (Method_not_found (JStr ''x'')) (JInt 8))])
     \<and> ((\<exists>v. r = Rpc_ok v (JInt 7)) \<or> (\<exists>e. r = Rpc_err (- 32000) (Exception_text e) (JInt 7)))"
proof -
  have l: "json_loads demo_batch = Inr (JArr [demo_request, JInt 5, strange_request])" by code_simp
  have m: "request_method demo_request = Some (JStr ''mc_blockNumber'')" "request_method (JInt 5) = None"
    "request_method strange_request = Some (JStr ''x'')"
    "request_id demo_request = JInt 7" "request_id (JInt 5) = JNull" "request_id strange_request = JInt 8"
    "\<not> unfollowed 5 (JStr ''mc_blockNumber'') (request_params demo_request)"
    by (simp_all add: request_method_def demo_request_def strange_request_def request_id_def field_def unfollowed_def)
  from rpc_answers [OF l, of flat_ext 5 "(demo_node, demo_net)"] m show ?thesis
    by (auto simp: list_all2_Cons1)
qed

subsection \<open>Effects\<close>

lemma tx_key_hashable: "mark_seen cr ''tx'' p n = Inr n1 \<Longrightarrow> np_out n1 = np_out n"
  by (auto simp: mark_seen_def split: sum.splits option.splits if_splits)

lemma broadcast_tx_out: "\<exists>n1. broadcast_transaction cr tx n = Inr n1 \<and> np_disk n1 = np_disk n
    \<and> np_out n1 = np_out n @ [Broadcast (message ''tx'' (JObj (tx_to_dict tx))) None]"
proof -
  have "\<exists>n1. mark_seen cr ''tx'' (JObj (tx_to_dict tx)) n = Inr n1 \<and> np_out n1 = np_out n \<and> np_disk n1 = np_disk n"
    by (auto simp: mark_seen_def seen_key_def message_id_def)
  then show ?thesis by (auto simp: broadcast_transaction_def send_command_def)
qed

lemma added_listed: 
  assumes "add_transaction cr tx mp = (mp', True)" "mempool_ok cr mp"
  shows "tx_verify cr tx \<and> tx \<in> set (mp_list mp')"
proof -
  have "sorted_wrt before (mp_list mp)" using assms(2) by (simp add: mempool_ok_def)
  from this assms(1) show ?thesis
  proof (cases rule: add_cases)
    case (added lo hi)
    with place_props [OF added(5,6), of tx] show ?thesis by simp
  next
    case (replaced ix old lo hi)
    with place_props [OF replaced(8,9), of tx] show ?thesis by simp
  qed
qed

lemma refused_same: "add_transaction cr tx mp = (mp', False) \<Longrightarrow> mp' = mp"
  by (auto simp: add_transaction_def Let_def split: if_splits prod.splits option.splits)

text \<open>What a request may do: nothing but look-ups, or one transaction that is taken and sent on.\<close>

definition taken :: "'a crypto_scheme \<Rightarrow> node \<times> p2p \<Rightarrow> node \<times> p2p \<Rightarrow> transaction \<Rightarrow> bool" where
  "taken cr st st' tx \<longleftrightarrow> tx_verify cr tx \<and> tx \<in> set (mp_list (nd_pool (fst st')))
     \<and> np_out (snd st') = np_out (snd st) @ [Broadcast (message ''tx'' (JObj (tx_to_dict tx))) None]"

definition only_read :: "node \<times> p2p \<Rightarrow> node \<times> p2p \<Rightarrow> bool" where
  "only_read st st' \<longleftrightarrow> nd_pool (fst st') = nd_pool (fst st) \<and> snd st' = snd st"

definition same_blocks :: "node \<times> p2p \<Rightarrow> node \<times> p2p \<Rightarrow> bool" where
  "same_blocks st st' \<longleftrightarrow> bc_chain (nd_chain (fst st')) = bc_chain (nd_chain (fst st))
     \<and> bc_target (nd_chain (fst st')) = bc_target (nd_chain (fst st))"

lemma send_effect:
  assumes "rpc_send_transaction cr now ps st = (st', x)" "mempool_ok cr (nd_pool (fst st))"
  shows "same_blocks st st' \<and> (only_read st st' \<and> (\<exists>e. x = Inl e)
     \<or> (\<exists>tx. x = Inr (Rpc_value (JStr (tx_id cr tx))) \<and> taken cr st st' tx))"
proof -
  obtain nd n where st: "st = (nd, n)" by fastforce
  let ?d = "decode_bind (first_param ps) (\<lambda>p. case p of JObj d \<Rightarrow> tx_from_dict now d | JOpaque \<Rightarrow> Inl Unmodelled | _ \<Rightarrow> Inl (Raised TypeError))"
  show ?thesis
  proof (cases ?d)
    case (Inl e)
    then show ?thesis using assms(1) by (auto simp: rpc_send_transaction_def only_read_def same_blocks_def)
  next
    case (Inr tx)
    obtain bc s where c: "check_transaction cr tx (nd_chain nd) = (bc, s)" by fastforce
    then have bc: "bc_chain bc = bc_chain (nd_chain nd)" "bc_target bc = bc_target (nd_chain nd)"
      by (auto simp: check_transaction_def split: prod.splits)
    obtain mp added where a: "add_transaction cr tx (nd_pool nd) = (mp, added)" by fastforce
    obtain n1 where n1: "broadcast_transaction cr tx n = Inr n1"
      "np_out n1 = np_out n @ [Broadcast (message ''tx'' (JObj (tx_to_dict tx))) None]"
      using broadcast_tx_out [of cr tx n] by blast
    show ?thesis
    proof (cases "tx_verify cr tx \<and> s = VALID \<and> added")
      case True
      then have "st' = (nd\<lparr>nd_chain := bc, nd_pool := mp\<rparr>, n1)" "x = Inr (Rpc_value (JStr (tx_id cr tx)))"
        using assms(1) Inr c a n1 by (auto simp: st rpc_send_transaction_def Let_def)
      moreover have "tx \<in> set (mp_list mp)" using added_listed [of cr tx "nd_pool nd" mp] a assms(2) True by (simp add: st)
      ultimately show ?thesis using bc n1 True by (auto simp: st taken_def same_blocks_def)
    next
      case False
      then have "\<not> tx_verify cr tx \<or> s \<noteq> VALID \<or> (\<not> added \<and> mp = nd_pool nd)" using refused_same a by auto
      then show ?thesis using assms(1) Inr c a bc
        by (auto simp: st rpc_send_transaction_def Let_def same_blocks_def only_read_def split: if_splits bool.splits)
    qed
  qed
qed

lemma read_effect:
  "rpc_get_block ps st = (st', x) \<Longrightarrow> same_blocks st st' \<and> only_read st st'"
  "rpc_get_balance ps st = (st', x) \<Longrightarrow> same_blocks st st' \<and> only_read st st'"
  by (auto simp: rpc_get_block_def rpc_get_balance_def Let_def same_blocks_def only_read_def set_accounts_def
      split: sum.splits json.splits prod.splits)

text \<open>C18: no request changes the blocks or the target. A request either leaves the mempool and the network
  alone, or it is \<open>mc_sendTransaction\<close> and answers with the identifier of a verified transaction
  that now is in the mempool and is on its way to every peer.\<close>

theorem rpc_effect:
  assumes "process_single cr now req st = (st', r)" "mempool_ok cr (nd_pool (fst st))"
  shows "same_blocks st st' \<and> (only_read st st'
     \<or> request_method req = Some (JStr ''mc_sendTransaction'')
       \<and> (\<exists>tx. r = Some (Rpc_ok (JStr (tx_id cr tx)) (request_id req)) \<and> taken cr st st' tx))"
proof (cases "request_method req")
  case None
  with assms(1) show ?thesis
    by (auto simp: process_single_def request_method_def same_blocks_def only_read_def Let_def
        split: json.splits option.splits if_splits)
next
  case (Some m)
  then obtain d where d: "req = JObj d" "field ''jsonrpc'' d = JStr ''2.0''" "dict_get d ''method'' = Some m"
    by (auto simp: request_method_def split: json.splits if_splits)
  let ?ps = "case dict_get d ''params'' of None \<Rightarrow> JArr [] | Some v \<Rightarrow> v"
  obtain st1 x where x: "rpc_call cr now m ?ps st = (st1, x)" by fastforce
  have st1: "st' = st1" and ok: "x = Inr (Rpc_value v) \<Longrightarrow> r = Some (Rpc_ok v (request_id req))" for v
    using assms(1) d x by (auto simp: process_single_def request_id_def Let_def
        split: sum.splits decode_error.splits rpc_result.splits)
  show ?thesis
  proof (cases "m = JStr ''mc_sendTransaction''")
    case True
    with x have "rpc_send_transaction cr now ?ps st = (st', x)" by (simp add: rpc_call_def st1)
    from send_effect [OF this assms(2)] ok Some True show ?thesis by blast
  next
    case False
    then have "same_blocks st st1 \<and> only_read st st1"
      using x read_effect by (auto simp: rpc_call_def same_blocks_def only_read_def split: if_splits)
    with st1 show ?thesis by simp
  qed
qed

theorem rpc_effect_witness:
  "\<exists>st'. process_single flat_ext 5 demo_request (demo_node, demo_net) = (st', Some (Rpc_ok (JInt 0) (JInt 7)))
     \<and> same_blocks (demo_node, demo_net) st' \<and> only_read (demo_node, demo_net) st'"
proof -
  have p: "process_single flat_ext 5 demo_request (demo_node, demo_net) = ((demo_node, demo_net), Some (Rpc_ok (JInt 0) (JInt 7)))"
    by (simp add: process_single_def demo_request_def field_def rpc_call_def demo_node_def last_block_def
        flat_chain_def flat_block_def new_block_def)
  have "mempool_ok flat_ext (nd_pool (fst (demo_node, demo_net)))" by (simp add: demo_node_def new_mempool_ok)
  from rpc_effect [OF p this] p show ?thesis by (auto simp: request_method_def demo_request_def)
qed

end
