(* ===== verification/ExampleSyntax.thy ===== *)
theory ExampleSyntax
  imports Contract
begin

section \<open>The syntax trees of the example contracts\<close>

text \<open>
  The programs of examples/*.py as the trees that Python's parser makes of them and that the
  static check of the sandbox walks. Statements and expressions of a kind that the check passes
  over are \<open>Other_node\<close> with their parts in the order of the fields; operators, contexts and
  constants that are no texts have no parts. Two of the four programs contain constructs that
  the check rejects.
\<close>

abbreviation Module_node :: "pyast list \<Rightarrow> pyast" where
  "Module_node body \<equiv> Other_node body"

abbreviation Constant_node :: pyast where
  "Constant_node \<equiv> Other_node []"

abbreviation Subscript_node :: "pyast \<Rightarrow> pyast \<Rightarrow> pyast" where
  "Subscript_node v i \<equiv> Other_node [v, i]"

abbreviation Assign_node :: "pyast \<Rightarrow> pyast \<Rightarrow> pyast" where
  "Assign_node target v \<equiv> Other_node [target, v]"

abbreviation AugAssign_node :: "pyast \<Rightarrow> pyast \<Rightarrow> pyast" where
  "AugAssign_node target v \<equiv> Other_node [target, v]"

abbreviation Compare_node :: "pyast \<Rightarrow> pyast \<Rightarrow> pyast" where
  "Compare_node l r \<equiv> Other_node [l, r]"

abbreviation UnaryOp_node :: "pyast \<Rightarrow> pyast" where
  "UnaryOp_node e \<equiv> Other_node [e]"

abbreviation If_node :: "pyast \<Rightarrow> pyast list \<Rightarrow> pyast list \<Rightarrow> pyast" where
  "If_node c body orelse \<equiv> Other_node (c # body @ orelse)"

abbreviation Raise_node :: "pyast \<Rightarrow> pyast" where
  "Raise_node e \<equiv> Other_node [e]"

abbreviation Dict_node :: "pyast list \<Rightarrow> pyast list \<Rightarrow> pyast" where
  "Dict_node ks vs \<equiv> Other_node (ks @ vs)"

abbreviation FormattedValue_node :: "pyast \<Rightarrow> pyast" where
  "FormattedValue_node e \<equiv> Other_node [e]"

text \<open>\<open>f(args)\<close>, \<open>v.m(args)\<close>, \<open>msg['k']\<close>, \<open>storage[k]\<close> and \<open>raise Exception('t')\<close>.\<close>

abbreviation call_of :: "string \<Rightarrow> pyast list \<Rightarrow> pyast" where
  "call_of f args \<equiv> Call_node (Name_node f) args"

abbreviation method_call :: "pyast \<Rightarrow> string \<Rightarrow> pyast list \<Rightarrow> pyast" where
  "method_call v m args \<equiv> Call_node (Attribute_node v m) args"

abbreviation msg_item :: "string \<Rightarrow> pyast" where
  "msg_item k \<equiv> Subscript_node (Name_node ''msg'') (Str_node k)"

abbreviation storage_item :: "pyast \<Rightarrow> pyast" where
  "storage_item k \<equiv> Subscript_node (Name_node ''storage'') k"

abbreviation raise_text :: "string \<Rightarrow> pyast" where
  "raise_text t \<equiv> Raise_node (call_of ''Exception'' [Str_node t])"

definition counter_ast :: pyast where
  "counter_ast = Module_node [
    If_node (Compare_node (msg_item ''data'') (Str_node ''increment'')) [
      Assign_node (Name_node ''current_value'') (method_call (Name_node ''storage'') ''get''
          [Str_node ''counter'', Constant_node]),
      Assign_node (storage_item (Str_node ''counter'')) (BinOp_node Other_op (Name_node
          ''current_value'') (Constant_node))] [
      If_node (Compare_node (msg_item ''data'') (Str_node ''decrement'')) [
        Assign_node (Name_node ''current_value'') (method_call (Name_node ''storage'') ''get''
            [Str_node ''counter'', Constant_node]),
        Assign_node (storage_item (Str_node ''counter'')) (BinOp_node Other_op (Name_node
            ''current_value'') (Constant_node))] [
        If_node (Compare_node (msg_item ''data'') (Str_node ''reset'')) [
          Assign_node (storage_item (Str_node ''counter'')) (Constant_node)] [
          raise_text ''Unknown command. Valid commands: increment, decrement, reset'']]]]"

definition stablecoin_ast :: pyast where
  "stablecoin_ast = Module_node [
    If_node (method_call (msg_item ''data'') ''startswith'' [Str_node ''mint:'']) [
      Assign_node (Name_node ''amount'') (call_of ''int'' [Subscript_node (method_call (msg_item
          ''data'') ''split'' [Str_node '':'']) (Constant_node)]),
      If_node (Compare_node (Name_node ''amount'') (Constant_node)) [
        raise_text ''Amount must be positive''] [],
      Assign_node (Name_node ''sender'') (msg_item ''sender''),
      Assign_node (storage_item (Name_node ''sender'')) (BinOp_node Other_op (method_call (Name_node
          ''storage'') ''get'' [Name_node ''sender'', Constant_node]) (Name_node ''amount'')),
      Assign_node (storage_item (Str_node ''total_supply'')) (BinOp_node Other_op (method_call
          (Name_node ''storage'') ''get'' [Str_node ''total_supply'', Constant_node]) (Name_node
          ''amount''))] [
      If_node (method_call (msg_item ''data'') ''startswith'' [Str_node ''transfer:'']) [
        Assign_node (Name_node ''parts'') (method_call (msg_item ''data'') ''split'' [Str_node
            '':'']),
        If_node (Compare_node (call_of ''len'' [Name_node ''parts'']) (Constant_node)) [
          raise_text ''Invalid transfer format''] [],
        Assign_node (Name_node ''to_address'') (Subscript_node (Name_node ''parts'')
            (Constant_node)),
        Assign_node (Name_node ''amount'') (call_of ''int'' [Subscript_node (Name_node ''parts'')
            (Constant_node)]),
        If_node (Compare_node (Name_node ''amount'') (Constant_node)) [
          raise_text ''Amount must be positive''] [],
        Assign_node (Name_node ''sender'') (msg_item ''sender''),
        Assign_node (Name_node ''sender_balance'') (method_call (Name_node ''storage'') ''get''
            [Name_node ''sender'', Constant_node]),
        If_node (Compare_node (Name_node ''sender_balance'') (Name_node ''amount'')) [
          AugAssign_node (storage_item (Name_node ''sender'')) (Name_node ''amount''),
          Assign_node (storage_item (Name_node ''to_address'')) (BinOp_node Other_op (method_call
              (Name_node ''storage'') ''get'' [Name_node ''to_address'', Constant_node]) (Name_node
              ''amount''))] [
          raise_text ''Insufficient token balance'']] [
        raise_text ''Unknown command. Valid commands: mint:<amount>, transfer:<to>:<amount>'']]]"

definition dex_ast :: pyast where
  "dex_ast = Module_node [
    If_node (Compare_node (msg_item ''data'') (Str_node ''init'')) [
      If_node (Compare_node (method_call (Name_node ''storage'') ''get'' [Str_node ''k''])
          (Constant_node)) [
        raise_text ''Already initialized''] [],
      If_node (Compare_node (msg_item ''value'') (Constant_node)) [
        raise_text ''Must provide initial native coin liquidity''] [],
      Assign_node (storage_item (Str_node ''native_reserve'')) (msg_item ''value''),
      Assign_node (storage_item (Str_node ''token_reserve'')) (Constant_node),
      Assign_node (storage_item (Str_node ''k'')) (BinOp_node Mult (storage_item (Str_node
          ''native_reserve'')) (storage_item (Str_node ''token_reserve''))),
      Assign_node (storage_item (msg_item ''sender'')) (Constant_node)] [
      If_node (Compare_node (msg_item ''data'') (Str_node ''buy'')) [
        If_node (Compare_node (method_call (Name_node ''storage'') ''get'' [Str_node ''k''])
            (Constant_node)) [
          raise_text ''Not initialized''] [],
        If_node (Compare_node (msg_item ''value'') (Constant_node)) [
          raise_text ''Must send coins to buy tokens''] [],
        Assign_node (Name_node ''new_native_reserve'') (BinOp_node Other_op (storage_item (Str_node
            ''native_reserve'')) (msg_item ''value'')),
        Assign_node (Name_node ''new_token_reserve'') (BinOp_node Other_op (storage_item (Str_node
            ''k'')) (Name_node ''new_native_reserve'')),
        Assign_node (Name_node ''tokens_out'') (BinOp_node Other_op (storage_item (Str_node
            ''token_reserve'')) (Name_node ''new_token_reserve'')),
        If_node (Compare_node (Name_node ''tokens_out'') (Constant_node)) [
          raise_text ''Not enough tokens to dispense''] [],
        Assign_node (storage_item (Str_node ''native_reserve'')) (Name_node ''new_native_reserve''),
        Assign_node (storage_item (Str_node ''token_reserve'')) (Name_node ''new_token_reserve''),
        Assign_node (Name_node ''sender'') (msg_item ''sender''),
        Assign_node (storage_item (Name_node ''sender'')) (BinOp_node Other_op (method_call
            (Name_node ''storage'') ''get'' [Name_node ''sender'', Constant_node]) (Name_node
            ''tokens_out''))] [
        If_node (method_call (msg_item ''data'') ''startswith'' [Str_node ''sell:'']) [
          If_node (Compare_node (method_call (Name_node ''storage'') ''get'' [Str_node ''k''])
              (Constant_node)) [
            raise_text ''Not initialized''] [],
          Assign_node (Name_node ''parts'') (method_call (msg_item ''data'') ''split'' [Str_node
              '':'']),
          Assign_node (Name_node ''tokens_to_sell'') (call_of ''int'' [Subscript_node (Name_node
              ''parts'') (Constant_node)]),
          Assign_node (Name_node ''sender'') (msg_item ''sender''),
          Assign_node (Name_node ''sender_tokens'') (method_call (Name_node ''storage'') ''get''
              [Name_node ''sender'', Constant_node]),
          If_node (Compare_node (Name_node ''sender_tokens'') (Name_node ''tokens_to_sell'')) [
            raise_text ''Insufficient token balance''] [],
          AugAssign_node (storage_item (Name_node ''sender'')) (Name_node ''tokens_to_sell''),
          Assign_node (Name_node ''new_token_reserve'') (BinOp_node Other_op (storage_item (Str_node
              ''token_reserve'')) (Name_node ''tokens_to_sell'')),
          Assign_node (Name_node ''new_native_reserve'') (BinOp_node Other_op (storage_item
              (Str_node ''k'')) (Name_node ''new_token_reserve'')),
          Assign_node (Name_node ''coins_out'') (BinOp_node Other_op (storage_item (Str_node
              ''native_reserve'')) (Name_node ''new_native_reserve'')),
          If_node (Compare_node (Name_node ''coins_out'') (Constant_node)) [
            raise_text ''Not enough coins to dispense''] [],
          Assign_node (storage_item (Str_node ''native_reserve'')) (Name_node
              ''new_native_reserve''),
          Assign_node (storage_item (Str_node ''token_reserve'')) (Name_node ''new_token_reserve''),
          Assign_node (storage_item (JoinedStr_node [FormattedValue_node (Name_node ''sender''),
              Str_node ''_native_credit''])) (BinOp_node Other_op (method_call (Name_node
              ''storage'') ''get'' [JoinedStr_node [FormattedValue_node (Name_node ''sender''),
              Str_node ''_native_credit''], Constant_node]) (Name_node ''coins_out''))] [
          raise_text ''Unknown command.'']]]]"

definition user_profile_ast :: pyast where
  "user_profile_ast = Module_node [
    Assign_node (Name_node ''payload'') (msg_item ''data''),
    Assign_node (Name_node ''sender'') (msg_item ''sender''),
    If_node (method_call (Name_node ''payload'') ''startswith'' [Str_node ''set_grouped:'']) [
      Assign_node (Name_node ''parts'') (method_call (Name_node ''payload'') ''split'' [Str_node
          '':'']),
      If_node (Compare_node (call_of ''len'' [Name_node ''parts'']) (Constant_node)) [
        raise_text ''Invalid format. Use set_grouped:<age>:<name>''] [],
      Assign_node (Name_node ''age'') (call_of ''int'' [Subscript_node (Name_node ''parts'')
          (Constant_node)]),
      Assign_node (Name_node ''name'') (Subscript_node (Name_node ''parts'') (Constant_node)),
      Assign_node (storage_item (Name_node ''sender'')) (Dict_node [Str_node ''age'', Str_node
          ''name''] [Name_node ''age'', Name_node ''name''])] [
      If_node (method_call (Name_node ''payload'') ''startswith'' [Str_node
          ''update_age_grouped:'']) [
        Assign_node (Name_node ''parts'') (method_call (Name_node ''payload'') ''split'' [Str_node
            '':'']),
        If_node (Compare_node (call_of ''len'' [Name_node ''parts'']) (Constant_node)) [
          raise_text ''Invalid format. Use update_age_grouped:<new_age>''] [],
        Assign_node (Name_node ''new_age'') (call_of ''int'' [Subscript_node (Name_node ''parts'')
            (Constant_node)]),
        Assign_node (Name_node ''profile'') (method_call (Name_node ''storage'') ''get'' [Name_node
            ''sender'', Dict_node [] []]),
        If_node (UnaryOp_node (Name_node ''profile'')) [
          raise_text ''Profile not found''] [],
        Assign_node (Subscript_node (Name_node ''profile'') (Str_node ''age'')) (Name_node
            ''new_age''),
        Assign_node (storage_item (Name_node ''sender'')) (Name_node ''profile'')] [
        If_node (method_call (Name_node ''payload'') ''startswith'' [Str_node ''set_composite:'']) [
          Assign_node (Name_node ''parts'') (method_call (Name_node ''payload'') ''split'' [Str_node
              '':'']),
          If_node (Compare_node (call_of ''len'' [Name_node ''parts'']) (Constant_node)) [
            raise_text ''Invalid format. Use set_composite:<age>:<name>''] [],
          Assign_node (Name_node ''age'') (call_of ''int'' [Subscript_node (Name_node ''parts'')
              (Constant_node)]),
          Assign_node (Name_node ''name'') (Subscript_node (Name_node ''parts'') (Constant_node)),
          Assign_node (storage_item (JoinedStr_node [Str_node ''age:'', FormattedValue_node
              (Name_node ''sender'')])) (Name_node ''age''),
          Assign_node (storage_item (JoinedStr_node [Str_node ''name:'', FormattedValue_node
              (Name_node ''sender'')])) (Name_node ''name'')] [
          If_node (method_call (Name_node ''payload'') ''startswith'' [Str_node
              ''update_age_composite:'']) [
            Assign_node (Name_node ''parts'') (method_call (Name_node ''payload'') ''split''
                [Str_node '':'']),
            If_node (Compare_node (call_of ''len'' [Name_node ''parts'']) (Constant_node)) [
              raise_text ''Invalid format. Use update_age_composite:<new_age>''] [],
            Assign_node (Name_node ''new_age'') (call_of ''int'' [Subscript_node (Name_node
                ''parts'') (Constant_node)]),
            If_node (Compare_node (JoinedStr_node [Str_node ''age:'', FormattedValue_node (Name_node
                ''sender'')]) (Name_node ''storage'')) [
              raise_text ''Profile not found''] [],
            Assign_node (storage_item (JoinedStr_node [Str_node ''age:'', FormattedValue_node
                (Name_node ''sender'')])) (Name_node ''new_age'')] [
            raise_text
                ''Unknown command. Valid commands: set_grouped, update_age_grouped, set_composite, update_age_composite'']]]]]"

subsection \<open>Which of them pass the check\<close>

definition tree_accepted :: "pyast \<Rightarrow> bool" where
  "tree_accepted tree = list_all (\<lambda>n. \<not> rejected_node n) (ast_walk [tree])"

lemma validate_code_ast_tree:
  "ast_parse E code = Inr tree \<Longrightarrow> validate_code_ast E code = Inr (tree_accepted tree)"
  by (simp add: validate_code_ast_def tree_accepted_def)

lemma counter_accepted: "tree_accepted counter_ast"
  by code_simp

lemma stablecoin_accepted: "tree_accepted stablecoin_ast"
  by code_simp

text \<open>A product and two formatted strings in dex.py, formatted strings in user_profile.py.\<close>

lemma dex_rejected: "\<not> tree_accepted dex_ast"
  by code_simp

lemma user_profile_rejected: "\<not> tree_accepted user_profile_ast"
  by code_simp

end
