(* ===== verification/Examples.thy ===== *)
theory Examples
  imports StateProps ExampleSyntax
begin

section \<open>The example contracts (examples/*.py)\<close>

text \<open>
  The four contracts that the repository ships, each as a function from the builtins that the
  sandbox gives it, the message and the storage to the new storage or the exception that leaves
  it, and each as the syntax tree that the static check walks. \<open>behaves_as\<close> is what links such
  a function to the interpreter parameter of the sandbox.

  The storage of these contracts holds integers, texts and (user_profile) dictionaries; there
  are no floats in it, because only the contract itself writes it.
\<close>

subsection \<open>The Python that the contracts use\<close>

record call_msg =
  msg_sender :: string
  msg_value :: int
  msg_data :: json

datatype py_exc = Builtin exn | Name_error string | Exception_text string

text \<open>The names that \<open>execute\<close> puts into \<open>__builtins__\<close>, less the two functions that the worker
  adds. The comments of contract.py and of counter.py name \<open>int\<close> too.\<close>

definition safe_builtins :: "string list" where
  "safe_builtins =
     [''True'', ''False'', ''None'', ''range'', ''len'', ''min'', ''max'', ''abs'', ''str'', ''bool'',
      ''float'', ''list'', ''dict'', ''tuple'', ''sum'', ''Exception'']"

fun and_then :: "'e + 'a \<Rightarrow> ('a \<Rightarrow> 'e + 'b) \<Rightarrow> 'e + 'b" where
  "and_then (Inl e) k = Inl e"
| "and_then (Inr x) k = k x"

text \<open>\<open>raise Exception(text)\<close> and \<open>int(text)\<close>: a builtin that is missing is a \<open>NameError\<close>.\<close>

definition raise_exc :: "string list \<Rightarrow> string \<Rightarrow> py_exc + 'a" where
  "raise_exc bs t =
     (if ''Exception'' \<in> set bs then Inl (Exception_text t) else Inl (Name_error ''Exception''))"

definition call_int :: "string list \<Rightarrow> string \<Rightarrow> py_exc + int" where
  "call_int bs s =
     (if ''int'' \<notin> set bs then Inl (Name_error ''int'')
      else case py_int_of_str 10 s of None \<Rightarrow> Inl (Builtin ValueError) | Some i \<Rightarrow> Inr i)"

text \<open>A stored value as an operand of \<open>+\<close>, \<open>-\<close>, \<open>//\<close> and of comparisons with an integer.\<close>

fun num :: "json \<Rightarrow> py_exc + int" where
  "num (JInt i) = Inr i"
| "num (JBool b) = Inr (if b then 1 else 0)"
| "num _ = Inl (Builtin TypeError)"

definition get_default :: "json dict \<Rightarrow> string \<Rightarrow> json \<Rightarrow> json" where
  "get_default sto k v = (case dict_get sto k of None \<Rightarrow> v | Some x \<Rightarrow> x)"

definition get_item :: "json dict \<Rightarrow> string \<Rightarrow> py_exc + json" where
  "get_item sto k = (case dict_get sto k of None \<Rightarrow> Inl (Builtin KeyError) | Some x \<Rightarrow> Inr x)"

text \<open>\<open>storage[k] = storage.get(k, 0) + n\<close>, and \<open>storage[k] -= n\<close>.\<close>

definition credit :: "string \<Rightarrow> int \<Rightarrow> json dict \<Rightarrow> py_exc + json dict" where
  "credit k n sto =
     and_then (num (get_default sto k (JInt 0))) (\<lambda>i. Inr (dict_set k (JInt (i + n)) sto))"

definition debit :: "string \<Rightarrow> int \<Rightarrow> json dict \<Rightarrow> py_exc + json dict" where
  "debit k n sto =
     and_then (get_item sto k) (\<lambda>v. and_then (num v) (\<lambda>i. Inr (dict_set k (JInt (i - n)) sto)))"

definition floor_div :: "int \<Rightarrow> int \<Rightarrow> py_exc + int" where
  "floor_div a b = (if b = 0 then Inl (Builtin ZeroDivisionError) else Inr (a div b))"

definition starts_with :: "string \<Rightarrow> string \<Rightarrow> bool" where
  "starts_with p s = (take (length p) s = p)"

text \<open>\<open>s.split(':')\<close>.\<close>

fun split_colon :: "string \<Rightarrow> string list" where
  "split_colon [] = [[]]"
| "split_colon (c # cs) =
     (if c = CHR '':'' then [] # split_colon cs
      else case split_colon cs of [] \<Rightarrow> [[c]] | p # ps \<Rightarrow> (c # p) # ps)"

subsection \<open>counter.py\<close>

definition counter :: "string list \<Rightarrow> call_msg \<Rightarrow> json dict \<Rightarrow> py_exc + json dict" where
  "counter bs m sto =
     (if msg_data m = JStr ''increment'' then credit ''counter'' 1 sto
      else if msg_data m = JStr ''decrement'' then credit ''counter'' (- 1) sto
      else if msg_data m = JStr ''reset'' then Inr (dict_set ''counter'' (JInt 0) sto)
      else raise_exc bs ''Unknown command. Valid commands: increment, decrement, reset'')"

subsection \<open>stablecoin.py\<close>

definition stablecoin_mint ::
  "string list \<Rightarrow> call_msg \<Rightarrow> string \<Rightarrow> json dict \<Rightarrow> py_exc + json dict" where
  "stablecoin_mint bs m d sto =
     and_then (call_int bs (split_colon d ! 1)) (\<lambda>amount.
       if amount \<le> 0 then raise_exc bs ''Amount must be positive''
       else and_then (credit (msg_sender m) amount sto) (credit ''total_supply'' amount))"

definition stablecoin_transfer ::
  "string list \<Rightarrow> call_msg \<Rightarrow> string \<Rightarrow> json dict \<Rightarrow> py_exc + json dict" where
  "stablecoin_transfer bs m d sto =
     (let parts = split_colon d in
      if length parts \<noteq> 3 then raise_exc bs ''Invalid transfer format''
      else and_then (call_int bs (parts ! 2)) (\<lambda>amount.
        if amount \<le> 0 then raise_exc bs ''Amount must be positive''
        else and_then (num (get_default sto (msg_sender m) (JInt 0))) (\<lambda>sender_balance.
          if sender_balance \<ge> amount
          then and_then (debit (msg_sender m) amount sto) (credit (parts ! 1) amount)
          else raise_exc bs ''Insufficient token balance'')))"

definition stablecoin :: "string list \<Rightarrow> call_msg \<Rightarrow> json dict \<Rightarrow> py_exc + json dict" where
  "stablecoin bs m sto =
     (case msg_data m of
        JStr d \<Rightarrow>
          if starts_with ''mint:'' d then stablecoin_mint bs m d sto
          else if starts_with ''transfer:'' d then stablecoin_transfer bs m d sto
          else raise_exc bs
            ''Unknown command. Valid commands: mint:<amount>, transfer:<to>:<amount>''
      | _ \<Rightarrow> Inl (Builtin AttributeError))"

subsection \<open>dex.py\<close>

text \<open>\<open>storage.get('k') is None\<close>.\<close>

definition not_initialized :: "json dict \<Rightarrow> bool" where
  "not_initialized sto = (get_default sto ''k'' JNull = JNull)"

definition dex_init :: "string list \<Rightarrow> call_msg \<Rightarrow> json dict \<Rightarrow> py_exc + json dict" where
  "dex_init bs m sto =
     (if \<not> not_initialized sto then raise_exc bs ''Already initialized''
      else if msg_value m \<le> 0 then raise_exc bs ''Must provide initial native coin liquidity''
      else Inr (dict_set (msg_sender m) (JInt 1000)
             (dict_set ''k'' (JInt (msg_value m * 1000))
               (dict_set ''token_reserve'' (JInt 1000)
                 (dict_set ''native_reserve'' (JInt (msg_value m)) sto)))))"

definition dex_buy :: "string list \<Rightarrow> call_msg \<Rightarrow> json dict \<Rightarrow> py_exc + json dict" where
  "dex_buy bs m sto =
     (if not_initialized sto then raise_exc bs ''Not initialized''
      else if msg_value m \<le> 0 then raise_exc bs ''Must send coins to buy tokens''
      else and_then (and_then (get_item sto ''native_reserve'') num) (\<lambda>native.
        let new_native_reserve = native + msg_value m in
        and_then (and_then (get_item sto ''k'') num) (\<lambda>k.
        and_then (floor_div k new_native_reserve) (\<lambda>new_token_reserve.
        and_then (and_then (get_item sto ''token_reserve'') num) (\<lambda>tokens.
        let tokens_out = tokens - new_token_reserve in
        if tokens_out \<le> 0 then raise_exc bs ''Not enough tokens to dispense''
        else credit (msg_sender m) tokens_out
               (dict_set ''token_reserve'' (JInt new_token_reserve)
                 (dict_set ''native_reserve'' (JInt new_native_reserve) sto)))))))"

definition dex_sell ::
  "string list \<Rightarrow> call_msg \<Rightarrow> string \<Rightarrow> json dict \<Rightarrow> py_exc + json dict" where
  "dex_sell bs m d sto =
     (if not_initialized sto then raise_exc bs ''Not initialized''
      else and_then (call_int bs (split_colon d ! 1)) (\<lambda>tokens_to_sell.
        and_then (num (get_default sto (msg_sender m) (JInt 0))) (\<lambda>sender_tokens.
        if sender_tokens < tokens_to_sell then raise_exc bs ''Insufficient token balance''
        else and_then (debit (msg_sender m) tokens_to_sell sto) (\<lambda>sto1.
          and_then (and_then (get_item sto1 ''token_reserve'') num) (\<lambda>tokens.
          let new_token_reserve = tokens + tokens_to_sell in
          and_then (and_then (get_item sto1 ''k'') num) (\<lambda>k.
          and_then (floor_div k new_token_reserve) (\<lambda>new_native_reserve.
          and_then (and_then (get_item sto1 ''native_reserve'') num) (\<lambda>native.
          let coins_out = native - new_native_reserve in
          if coins_out \<le> 0 then raise_exc bs ''Not enough coins to dispense''
          else credit (msg_sender m @ ''_native_credit'') coins_out
                 (dict_set ''token_reserve'' (JInt new_token_reserve)
                   (dict_set ''native_reserve'' (JInt new_native_reserve) sto1))))))))))"

definition dex :: "string list \<Rightarrow> call_msg \<Rightarrow> json dict \<Rightarrow> py_exc + json dict" where
  "dex bs m sto =
     (if msg_data m = JStr ''init'' then dex_init bs m sto
      else if msg_data m = JStr ''buy'' then dex_buy bs m sto
      else case msg_data m of
             JStr d \<Rightarrow> if starts_with ''sell:'' d then dex_sell bs m d sto
                      else raise_exc bs ''Unknown command.''
           | _ \<Rightarrow> Inl (Builtin AttributeError))"

subsection \<open>user_profile.py\<close>

text \<open>\<open>profile["age"] = new_age\<close> on a value that is true: only a dictionary has items.\<close>

definition set_age :: "int \<Rightarrow> json \<Rightarrow> py_exc + json" where
  "set_age age profile =
     (case profile of JObj d \<Rightarrow> Inr (JObj (dict_set ''age'' (JInt age) d))
                    | _ \<Rightarrow> Inl (Builtin TypeError))"

definition profile_set_grouped ::
  "string list \<Rightarrow> string \<Rightarrow> string \<Rightarrow> json dict \<Rightarrow> py_exc + json dict" where
  "profile_set_grouped bs sndr payload sto =
     (let parts = split_colon payload in
      if length parts \<noteq> 3 then raise_exc bs ''Invalid format. Use set_grouped:<age>:<name>''
      else and_then (call_int bs (parts ! 1)) (\<lambda>age.
        Inr (dict_set sndr (JObj [(''age'', JInt age), (''name'', JStr (parts ! 2))]) sto)))"

definition profile_update_grouped ::
  "string list \<Rightarrow> string \<Rightarrow> string \<Rightarrow> json dict \<Rightarrow> py_exc + json dict" where
  "profile_update_grouped bs sndr payload sto =
     (let parts = split_colon payload in
      if length parts \<noteq> 2 then raise_exc bs ''Invalid format. Use update_age_grouped:<new_age>''
      else and_then (call_int bs (parts ! 1)) (\<lambda>new_age.
        let profile = get_default sto sndr (JObj []) in
        if \<not> json_truthy profile then raise_exc bs ''Profile not found''
        else and_then (set_age new_age profile) (\<lambda>p. Inr (dict_set sndr p sto))))"

definition profile_set_composite ::
  "string list \<Rightarrow> string \<Rightarrow> string \<Rightarrow> json dict \<Rightarrow> py_exc + json dict" where
  "profile_set_composite bs sndr payload sto =
     (let parts = split_colon payload in
      if length parts \<noteq> 3 then raise_exc bs ''Invalid format. Use set_composite:<age>:<name>''
      else and_then (call_int bs (parts ! 1)) (\<lambda>age.
        Inr (dict_set (''name:'' @ sndr) (JStr (parts ! 2))
               (dict_set (''age:'' @ sndr) (JInt age) sto))))"

definition profile_update_composite ::
  "string list \<Rightarrow> string \<Rightarrow> string \<Rightarrow> json dict \<Rightarrow> py_exc + json dict" where
  "profile_update_composite bs sndr payload sto =
     (let parts = split_colon payload in
      if length parts \<noteq> 2 then raise_exc bs ''Invalid format. Use update_age_composite:<new_age>''
      else and_then (call_int bs (parts ! 1)) (\<lambda>new_age.
        if dict_get sto (''age:'' @ sndr) = None then raise_exc bs ''Profile not found''
        else Inr (dict_set (''age:'' @ sndr) (JInt new_age) sto)))"

definition user_profile :: "string list \<Rightarrow> call_msg \<Rightarrow> json dict \<Rightarrow> py_exc + json dict" where
  "user_profile bs m sto =
     (case msg_data m of
        JStr d \<Rightarrow>
          if starts_with ''set_grouped:'' d then profile_set_grouped bs (msg_sender m) d sto
          else if starts_with ''update_age_grouped:'' d
          then profile_update_grouped bs (msg_sender m) d sto
          else if starts_with ''set_composite:'' d
          then profile_set_composite bs (msg_sender m) d sto
          else if starts_with ''update_age_composite:'' d
          then profile_update_composite bs (msg_sender m) d sto
          else raise_exc bs (''Unknown command. Valid commands: set_grouped, update_age_grouped, ''
                 @ ''set_composite, update_age_composite'')
      | _ \<Rightarrow> Inl (Builtin AttributeError))"

subsection \<open>A contract in the sandbox\<close>

text \<open>
  The code runs \<open>n\<close> opcodes, none of which the sandbox can see anything else of, and then ends
  as the function says. \<open>txt\<close> is Python's \<open>str(e)\<close> of the exception. There is no \<open>try\<close> in these
  contracts, so the exception of the meter leaves them at once.
\<close>

fun run_opcodes :: "nat \<Rightarrow> behaviour \<Rightarrow> behaviour" where
  "run_opcodes 0 b = b"
| "run_opcodes (Suc n) b = Opcode (\<lambda>raised. if raised then Uncaught_gas else run_opcodes n b)"

definition code_end :: "(py_exc \<Rightarrow> string) \<Rightarrow> py_exc + json dict \<Rightarrow> behaviour" where
  "code_end txt r = (case r of Inl e \<Rightarrow> Uncaught (txt e) | Inr sto \<Rightarrow> Finished (JObj sto))"

definition behaves_as ::
  "'a ext_scheme \<Rightarrow> (py_exc \<Rightarrow> string) \<Rightarrow> string
     \<Rightarrow> (call_msg \<Rightarrow> json dict \<Rightarrow> py_exc + json dict) \<Rightarrow> bool" where
  "behaves_as E txt code f \<longleftrightarrow> (\<forall>sto s v p. \<exists>n. exec_code E code sto s v p =
     run_opcodes n (code_end txt (f \<lparr>msg_sender = s, msg_value = v, msg_data = p\<rparr> sto)))"

end
