(* ===== verification/ExampleRuns.thy ===== *)
theory ExampleRuns
  imports Examples
begin

section \<open>What a contract's code keeps, the ledger keeps\<close>

text \<open>
  From one run of a contract to its storage on the ledger. \<open>code_keeps\<close> says that every run of a
  code text that succeeds leaves a storage with a property, when it started with one. Then the
  account that holds the code keeps the property through nested calls, through transactions and
  rewards (\<open>ledger_steps\<close>), whatever the other contracts do. The locale \<open>contract_law\<close> is what has
  to be shown of a contract's function, \<open>ledger_law\<close> adds that the law does not depend on the
  coins received and that every account may call.
\<close>

subsection \<open>The worker on a run of opcodes\<close>

lemma worker_run:
  "(safe_exec_worker (run_opcodes n (code_end txt r)) m ts gl
      = Sends_return (Ret_error ''Out of gas!'' gl))
   \<or> (\<exists>g. safe_exec_worker (run_opcodes n (code_end txt r)) m ts gl = Sends_return
        (case r of Inl e \<Rightarrow> Ret_error (txt e) g | Inr sto \<Rightarrow> Ret_success (JObj sto) ts g))"
proof (induction n arbitrary: m)
  case 0
  then show ?case by (auto simp: code_end_def split: sum.splits)
next
  case (Suc n)
  obtain m' r' where "trace_opcode m = (m', r')" by fastforce
  with Suc [of m'] show ?case by auto
qed

lemma worker_run_gas:
  "gm_active m \<Longrightarrow> int n < gm_gas m \<Longrightarrow>
   safe_exec_worker (run_opcodes n (code_end txt (Inr sto))) m ts gl
     = Sends_return (Ret_success (JObj sto) ts (gm_initial m - gm_gas m + int n))"
proof (induction n arbitrary: m)
  case 0
  then show ?case by (simp add: code_end_def)
next
  case (Suc n)
  let ?m = "m\<lparr>gm_gas := gm_gas m - 1\<rparr>"
  have "trace_opcode m = (?m, False)" using Suc.prems by (simp add: trace_opcode_def Let_def)
  with Suc.IH [of ?m] Suc.prems show ?case by simp
qed

definition code_keeps ::
  "'a ext_scheme \<Rightarrow> string \<Rightarrow> (json dict \<Rightarrow> bool) \<Rightarrow> (string \<Rightarrow> bool) \<Rightarrow> bool" where
  "code_keeps E code I S \<longleftrightarrow> (\<forall>d s v p gl. validate_code_ast E code = Inr True \<longrightarrow> I d \<longrightarrow> S s \<longrightarrow>
     (\<exists>m. worker_of E code d s v p gl = Sends_return m
        \<and> (\<forall>sto ts g. m = Ret_success sto ts g \<longrightarrow> (\<exists>d'. sto = JObj d' \<and> I d'))))"

lemma rejected_code_keeps: "validate_code_ast E code \<noteq> Inr True \<Longrightarrow> code_keeps E code I S"
  by (simp add: code_keeps_def)

lemma code_keepsI:
  assumes "behaves_as E txt code f"
    and "\<And>m d d'. I d \<Longrightarrow> S (msg_sender m) \<Longrightarrow> f m d = Inr d' \<Longrightarrow> I d'"
  shows "code_keeps E code I S"
  unfolding code_keeps_def
proof (intro allI impI)
  fix d s v p gl assume d: "I d" "S s"
  let ?m = "\<lparr>msg_sender = s, msg_value = v, msg_data = p\<rparr>"
  obtain n where "exec_code E code d s v p = run_opcodes n (code_end txt (f ?m d))"
    using assms(1) unfolding behaves_as_def by blast
  then show "\<exists>m. worker_of E code d s v p gl = Sends_return m
      \<and> (\<forall>sto ts g. m = Ret_success sto ts g \<longrightarrow> (\<exists>d'. sto = JObj d' \<and> I d'))"
    using worker_run [of n "txt" "f ?m d" "new_meter gl" "[]" gl] assms(2) [of d ?m] d
    by (cases "f ?m d") auto
qed

subsection \<open>The account of the contract\<close>

definition contract_at :: "(json dict \<Rightarrow> bool) \<Rightarrow> string \<Rightarrow> string \<Rightarrow> accounts \<Rightarrow> bool" where
  "contract_at I code addr A \<longleftrightarrow>
     (\<exists>a d. acc_view A addr = Some a \<and> acc_code a = Some code \<and> acc_storage a = JObj d \<and> I d)"

text \<open>Whoever has code, and so can make nested calls, has an address with the property \<open>S\<close>.\<close>

definition coded_accounts :: "(string \<Rightarrow> bool) \<Rightarrow> accounts \<Rightarrow> bool" where
  "coded_accounts S A \<longleftrightarrow> (\<forall>k a. acc_view A k = Some a \<longrightarrow> has_code a \<longrightarrow> S k)"

definition kept ::
  "(json dict \<Rightarrow> bool) \<Rightarrow> (string \<Rightarrow> bool) \<Rightarrow> string \<Rightarrow> string \<Rightarrow> accounts \<Rightarrow> bool" where
  "kept I S code addr A \<longleftrightarrow> contract_at I code addr A \<and> coded_accounts S A"

named_theorems kept_intros \<open>operations that keep a contract and its storage\<close>

lemma kept_view: "acc_view A = acc_view B \<Longrightarrow> kept I S code addr A = kept I S code addr B"
  by (simp add: kept_def contract_at_def coded_accounts_def)

lemma kept_put:
  assumes "kept I S code addr A"
    and "acc_view B = (acc_view A)(k \<mapsto> a)"
    and "has_code a \<longrightarrow> S k"
    and "k = addr \<longrightarrow> acc_code a = Some code \<and> (\<exists>d. acc_storage a = JObj d \<and> I d)"
  shows "kept I S code addr B"
  using assms by (auto simp: kept_def contract_at_def coded_accounts_def)

lemma kept_touch [kept_intros]: "kept I S code addr A \<Longrightarrow> kept I S code addr (acc_touch k A)"
  by (subst kept_view [where B = A]) simp_all

lemma kept_modify:
  assumes "kept I S code addr A" and "\<And>a. acc_code (f a) = acc_code a"
    and "\<And>a. k \<noteq> addr \<or> acc_storage (f a) = acc_storage a
           \<or> (\<exists>d. acc_storage (f a) = JObj d \<and> I d)"
  shows "kept I S code addr (acc_modify k f A)"
proof (cases "acc_view A k")
  case None
  with assms(1) show ?thesis by (subst kept_view [where B = A]) (simp_all add: view_simps)
next
  case (Some a)
  show ?thesis
  proof (rule kept_put [OF assms(1), where k = k and a = "f a"])
    show "acc_view (acc_modify k f A) = (acc_view A)(k \<mapsto> f a)" using Some by (simp add: view_simps)
    show "has_code (f a) \<longrightarrow> S k"
      using assms(1) Some by (auto simp: kept_def coded_accounts_def has_code_def assms(2))
    show "k = addr \<longrightarrow> acc_code (f a) = Some code \<and> (\<exists>d. acc_storage (f a) = JObj d \<and> I d)"
      using assms(1) assms(3) [of a] Some by (auto simp: kept_def contract_at_def assms(2))
  qed
qed

lemma kept_add_balance [kept_intros]:
  "kept I S code addr A \<Longrightarrow> kept I S code addr (add_balance k v A)"
  unfolding add_balance_def by (rule kept_modify) auto

lemma kept_bump_nonce [kept_intros]:
  "kept I S code addr A \<Longrightarrow> kept I S code addr (bump_nonce k A)"
  unfolding bump_nonce_def by (rule kept_modify) auto

lemma kept_get_account [kept_intros]:
  assumes "kept I S code addr A"
  shows "kept I S code addr (get_account k A)"
proof (cases "acc_view A k")
  case None
  then have "k \<noteq> addr" using assms by (auto simp: kept_def contract_at_def)
  with None assms show ?thesis
    by (intro kept_put [OF assms, where k = k and a = empty_account])
       (auto simp: view_simps has_code_def empty_account_def)
next
  case (Some a)
  with assms show ?thesis by (subst kept_view [where B = A]) (simp_all add: view_simps)
qed

lemma kept_pay_out [kept_intros]:
  "kept I S code addr A \<Longrightarrow> kept I S code addr (pay_out ts A)"
  by (induction ts A rule: pay_out.induct) (auto intro: kept_intros)

lemma kept_undo [kept_intros]:
  "kept I S code addr A \<Longrightarrow> kept I S code addr (undo_value t s r v A)"
  by (auto simp: undo_value_def Let_def intro: kept_intros)

lemma kept_refund [kept_intros]:
  "kept I S code addr A \<Longrightarrow> kept I S code addr (refund_gas tx g A)"
  by (auto simp: refund_gas_def intro: kept_intros)

lemma kept_reward [kept_intros]:
  "kept I S code addr A \<Longrightarrow> kept I S code addr (credit_mining_reward miner r A)"
  unfolding credit_mining_reward_def by (intro kept_intros)

lemma kept_storage:
  assumes "kept I S code addr A" and "update_contract_storage k sto A = Inr A'"
    and "k = addr \<longrightarrow> (\<exists>d. sto = JObj d \<and> I d)"
  shows "kept I S code addr A'"
  using assms(2,3) by (auto simp: update_contract_storage_def split: if_splits
      intro!: kept_modify [OF assms(1)])

subsection \<open>Nested calls\<close>

definition good_result :: "(json dict \<Rightarrow> bool) \<Rightarrow> string \<Rightarrow> string \<Rightarrow> exec_result \<Rightarrow> bool" where
  "good_result I addr c res \<longleftrightarrow>
     (\<forall>g ts sto. res = Exec_ok g ts sto \<longrightarrow> c = addr \<longrightarrow> (\<exists>d. sto = JObj d \<and> I d))"

lemma kept_finish:
  "kept I S code addr A \<Longrightarrow> good_result I addr r res \<Longrightarrow>
   kept I S code addr (fst (finish_call t s r v A res))"
  by (auto simp: finish_call_def good_result_def split: exec_result.splits sum.splits
      intro!: kept_intros elim!: kept_storage)

lemma own_run:
  assumes "code_keeps E code I S" "kept I S code addr A" "S s"
    and "runnable E A addr d sto code'"
  shows "\<exists>m. worker_of E code' sto s v p gl = Sends_return m
     \<and> good_result I addr addr (settle_result gl (Got m))"
proof -
  from assms(2) have "kept I S code addr (get_account addr A)" by (rule kept_get_account)
  with assms(4) have "code' = code" "I sto" "validate_code_ast E code = Inr True"
    by (auto simp: runnable_def kept_def contract_at_def)
  with assms(1,3) obtain m where m: "worker_of E code' sto s v p gl = Sends_return m"
    "\<forall>sto ts g. m = Ret_success sto ts g \<longrightarrow> (\<exists>d'. sto = JObj d' \<and> I d')"
    unfolding code_keeps_def by blast
  from m(2) have "good_result I addr addr (settle_result gl (Got m))"
    by (auto simp: good_result_def settle_result_def Let_def split: return_msg.splits
        option.splits if_splits)
  with m(1) show ?thesis by blast
qed

lemma call_keeps:
  assumes code: "code \<noteq> []"
  shows "code_keeps E code I S \<Longrightarrow> kept I S code addr A \<Longrightarrow> S s \<Longrightarrow>
     kept I S code addr (fst (internal_call E A s r v p gl d t))"
    and "code_keeps E code I S \<Longrightarrow> kept I S code addr A \<Longrightarrow> S s \<Longrightarrow>
     kept I S code addr (fst (exec_contract E A c s p v gl d))
     \<and> (\<forall>res. snd (exec_contract E A c s p v gl d) = Inr res \<longrightarrow> good_result I addr c res)"
proof (induction E A s r v p gl d t and E A c s p v gl d rule: internal_call_exec_contract.induct)
  case (1 E A s r v p gl d t)
  note IH = 1(1) and keeps = 1(2) and A = 1(3) and s = 1(4)
  show ?case
  proof (cases "\<exists>ra sa. acc_view A r = Some ra \<and> has_code ra \<and> acc_view A s = Some sa
      \<and> (t \<or> v \<le> acc_balance sa)")
    case False
    with A show ?thesis
      by (auto simp: internal_call.simps [of E A s r v p gl d t] acc_get_eq acc_getitem_def
          intro: kept_intros split: if_splits option.splits)
  next
    case True
    then obtain ra sa where pre: "acc_view A r = Some ra" "has_code ra" "acc_view A s = Some sa"
      "t \<or> v \<le> acc_balance sa" by blast
    define A2 where "A2 = acc_touch s (acc_touch r A)"
    define A4 where "A4 = add_balance r v (if t then A2 else add_balance s (- v) A2)"
    obtain A5 o5 where ex: "exec_contract E A4 r s p v gl d = (A5, o5)" by fastforce
    have unf: "internal_call E A s r v p gl d t =
        (case o5 of Inl e \<Rightarrow> (A5, Inl e) | Inr res \<Rightarrow> finish_call t s r v A5 res)"
      using pre ex by (auto simp: internal_call.simps [of E A s r v p gl d t] acc_get_eq
          acc_getitem_def Let_def A2_def A4_def split: sum.splits)
    have "kept I S code addr A4"
      using A unfolding A4_def A2_def by (auto intro!: kept_intros)
    then have "kept I S code addr (fst (exec_contract E A4 r s p v gl d))
        \<and> (\<forall>res. snd (exec_contract E A4 r s p v gl d) = Inr res \<longrightarrow> good_result I addr r res)"
      by (intro IH [of "acc_touch r A" "Some ra" ra A2 "Inr sa" sa
            "if t then A2 else add_balance s (- v) A2" A4])
         (use pre keeps s in \<open>auto simp: acc_get_eq acc_getitem_def A2_def A4_def\<close>)
    with ex unf show ?thesis by (auto intro: kept_finish split: sum.splits)
  qed
next
  case (2 E A c s p v gl d)
  note IH = 2(1) and keeps = 2(2) and A = 2(3) and s = 2(4)
  have A1: "kept I S code addr (get_account c A)" using A by (rule kept_get_account)
  show ?case
  proof (cases "\<exists>sto code. runnable E A c d sto code")
    case False
    obtain A' out where ex: "exec_contract E A c s p v gl d = (A', out)" by fastforce
    from exec_contract_skip [OF False ex] A A1 ex show ?thesis by (auto simp: good_result_def)
  next
    case True
    then obtain sto code' where run: "runnable E A c d sto code'" by blast
    from run A1 have "S c"
      by (auto simp: runnable_def kept_def coded_accounts_def has_code_def)
    from run obtain acc where acc: "\<not> MAX_CALL_DEPTH < d"
      "acc_view (get_account c A) c = Some acc" "py_dict (acc_storage acc) = Inr sto"
      "acc_code acc = Some code'" "code' \<noteq> []" "validate_code_ast E code' = Inr True"
      by (auto simp: runnable_def)
    have "kept I S code addr (fst (internal_call E B c a n p gl (Suc d) False))"
      if "kept I S code addr B" for B a p n
      by (rule IH [OF acc(1) refl acc(2-6)]) (use that keeps \<open>S c\<close> in auto)
    then have "call_server (sub_calls E c gl d) (kept I S code addr)"
      by (intro nested_server kept_touch)
    from call_server.serve_child_keeps [OF this A1]
    have "kept I S code addr (fst (serve_child (worker_of E code' sto s v p gl) (sub_calls E c gl d) (get_account c A)))" .
    moreover have "good_result I addr c (settle_result gl ce)"
      if "serve_child (worker_of E code' sto s v p gl) (sub_calls E c gl d) (get_account c A) = (A2, ce)" for A2 ce
    proof (cases "c = addr")
      case True
      with own_run [OF keeps A s] run obtain m where
        "worker_of E code' sto s v p gl = Sends_return m"
        "good_result I addr c (settle_result gl (Got m))" by blast
      with that show ?thesis by auto
    qed (simp add: good_result_def)
    ultimately show ?thesis using run by (auto simp: exec_contract_run split: prod.splits)
  qed
qed

subsection \<open>Transactions and rewards\<close>

inductive ledger_steps :: "'a ext_scheme \<Rightarrow> state \<Rightarrow> state \<Rightarrow> bool" for E :: "'a ext_scheme" where
  at_start: "ledger_steps E st st"
| transaction: "ledger_steps E st st1 \<Longrightarrow>
     validate_and_apply_with_status E st1 tx = (st2, Inr out) \<Longrightarrow> ledger_steps E st st2"
| reward: "ledger_steps E st st1 \<Longrightarrow>
     ledger_steps E st (st1\<lparr>st_accounts := credit_mining_reward miner amount (st_accounts st1)\<rparr>)"

text \<open>
  What the signatures and the derivation of addresses give: only an address with the property
  \<open>S\<close> can sign a transaction or be the address of a contract that is deployed. For the packages
  in use these are hexadecimal texts.
\<close>

definition addresses_are :: "(string \<Rightarrow> bool) \<Rightarrow> 'a ext_scheme \<Rightarrow> bool" where
  "addresses_are S E \<longleftrightarrow> (\<forall>s m sig. ed25519_verify E s m sig \<longrightarrow> S s)
     \<and> (\<forall>x. S (take 40 (nacl_sha256 E x)))"

lemma verified_address: "addresses_are S E \<Longrightarrow> tx_verify E tx \<Longrightarrow> S (tx_sender tx)"
  by (auto simp: addresses_are_def tx_verify_def split: option.splits if_splits)

lemma deployed_address: "addresses_are S E \<Longrightarrow> S (derive_contract_address E s n)"
  by (simp add: addresses_are_def derive_contract_address_def)

lemma kept_started:
  "kept I S code addr A \<Longrightarrow> kept I S code addr (started tx A)"
  unfolding started_def
  by (intro kept_intros, subst kept_view [where B = A]) (simp_all add: store.start_view)

lemma tx_keeps:
  assumes keeps: "code_keeps E code I S" "code \<noteq> []" "addresses_are S E"
    and A: "kept I S code addr (st_accounts st)" "acc_ok (st_accounts st)"
    and run: "validate_and_apply_with_status E st tx = (st', Inr (status, r))"
  shows "kept I S code addr (st_accounts st')"
proof (cases r)
  case None
  with run have "status \<noteq> VALID" using acc_ok_accounts [OF A(2) run] by blast
  with run have "st' = st \<or> st' = st\<lparr>st_accounts := get_account (tx_sender tx) (st_accounts st)\<rparr>"
    using verify_state [of E st tx] by (auto simp: validate_and_apply_with_status_def
        split: if_splits prod.splits sum.splits)
  with A(1) show ?thesis by (auto intro: kept_intros)
next
  case (Some rc)
  with run have run': "validate_and_apply_with_status E st tx = (st', Inr (VALID, Some rc))"
    using acc_ok_accounts [OF A(2) run] by blast
  from accepted [OF run'] obtain B where B: "B = get_account (tx_sender tx) (st_accounts st)"
    "amounts_well_formed tx" "tx_verify E tx" "apply_validated_tx E B tx = (st_accounts st', Inr rc)"
    by metis
  have s: "S (tx_sender tx)" using keeps(3) B(3) by (rule verified_address)
  have k: "kept I S code addr B" "acc_ok B"
    using A by (simp_all add: B(1) kept_get_account keeps_ok.get_account_closed)
  obtain a where a: "acc_view B (tx_sender tx) = Some a"
    using get_account_Some B(1) by blast
  have st: "kept I S code addr (started tx B)" using k(1) by (rule kept_started)
  from k(2) a B(2,4) show ?thesis
  proof (cases rule: apply_cases)
    case rolled_back
    show ?thesis
      by (rule kept_put [OF k(1) rolled_back(4)])
         (use k(1) a s in \<open>auto simp: kept_def contract_at_def gas_charged_def\<close>)
  next
    case (deployed addr' cg)
    let ?a = "\<lparr>acc_balance = balance_of (started tx B) addr' + tx_amount tx, acc_nonce = 0,
      acc_code = tx_data tx, acc_storage = JObj []\<rparr>"
    have "addr' \<noteq> addr"
      using deployed(5) st keeps(2) by (auto simp: kept_def contract_at_def has_code_def)
    then have "kept I S code addr (create_contract addr' (tx_data tx) (tx_amount tx) (started tx B))"
      by (intro kept_put [OF st, where k = addr' and a = ?a])
         (auto simp: acc_view_create deployed(2) deployed_address [OF keeps(3)])
    then show ?thesis
      by (subst kept_view [OF deployed(6)]) (rule kept_refund)
  next
    case (called J g ts sto)
    have "kept I S code addr (fst (internal_call E (started tx B) (tx_sender tx) (receiver_of tx)
        (tx_amount tx) (JStr (data_bytes tx)) (tx_gas_limit tx) 0 True))"
      by (rule call_keeps(1) [OF keeps(2) keeps(1) st s])
    with called(3,4) show ?thesis
      by (simp add: kept_view [OF called(4)] kept_refund)
  next
    case transferred
    with st show ?thesis by (simp add: kept_view [OF transferred(3)] kept_intros)
  qed
qed

lemma ledger_ok: "ledger_steps E st st' \<Longrightarrow> acc_ok (st_accounts st) \<Longrightarrow> acc_ok (st_accounts st')"
proof (induction rule: ledger_steps.induct)
  case (transaction st st1 tx st2 out)
  then show ?case using acc_ok_accounts by (cases out) blast
qed (auto simp: keeps_ok.reward_closed)

lemma ledger_keeps:
  assumes "ledger_steps E st st'"
    and "code_keeps E code I S" "code \<noteq> []" "addresses_are S E"
    and "acc_ok (st_accounts st)" "kept I S code addr (st_accounts st)"
  shows "kept I S code addr (st_accounts st')"
  using assms
proof (induction rule: ledger_steps.induct)
  case (transaction st st1 tx st2 out)
  then show ?case using tx_keeps ledger_ok by (cases out) blast
qed (auto intro: kept_intros)

text \<open>The same for an account that has just been deployed: its storage is empty.\<close>

definition deployed_at :: "string \<Rightarrow> string \<Rightarrow> accounts \<Rightarrow> bool" where
  "deployed_at code addr A = (case acc_view A addr of None \<Rightarrow> False
     | Some a \<Rightarrow> acc_code a = Some code \<and> acc_storage a = JObj [])"

lemma deployed_kept:
  "deployed_at code addr A \<Longrightarrow> coded_accounts S A \<Longrightarrow> I [] \<Longrightarrow> kept I S code addr A"
  by (auto simp: deployed_at_def kept_def contract_at_def split: option.splits)

subsection \<open>One call by a transaction\<close>

text \<open>What the branch for calls makes of the result of the call.\<close>

lemma call_tx_result:
  assumes "acc_ok A" "acc_view A (tx_sender tx) = Some a"
    and "receiver_of tx \<noteq> []" "data_bytes tx \<noteq> []"
    and "apply_validated_tx E A tx = (A', Inr r)"
    and "internal_call E (started tx A) (tx_sender tx) (receiver_of tx) (tx_amount tx)
       (JStr (data_bytes tx)) (tx_gas_limit tx) 0 True = (J, Inr res)"
  shows "case res of Exec_fail e g \<Rightarrow> rc_status r = 0
     | Exec_ok g ts sto \<Rightarrow> rc_status r = 1
         \<and> acc_view A' = acc_view (refund_gas tx (tx_gas_limit tx - g) J)"
proof -
  have over: "over A (started tx A)" "acc_ok (started tx A)"
    using assms(1) by (simp_all add: started_over started_ok)
  have J: "over A J" "acc_ok J"
    using keeps_base.call_closed(1) [OF over(1)] keeps_ok.call_closed(1) [OF over(2)] assms(6)
    by (metis fst_conv)+
  have run: "call_branch E tx (receiver_of tx) (started tx A) = (A', Inr r)"
    using assms(2-5)
    by (simp add: apply_validated_tx_def acc_getitem_def store.start_view started_def Let_def)
  show ?thesis
  proof (cases res)
    case (Exec_fail e g)
    with run assms(6) have "rollback_and_refund E tx e g J = (A', Inr r)" by (simp add: call_branch_def)
    from rollback_cases [OF J(1) assms(2) this] Exec_fail show ?thesis by simp
  next
    case (Exec_ok g ts sto)
    have "over A (refund_gas tx (tx_gas_limit tx - g) J)" "acc_ok (refund_gas tx (tx_gas_limit tx - g) J)"
      using J by (auto simp: keeps_base.refund_closed keeps_ok.refund_closed)
    with run assms(6) Exec_ok show ?thesis
      by (auto simp: call_branch_def view_commit success_receipt_def)
  qed
qed

text \<open>A call from outside of a contract whose worker ends at once with a message.\<close>

lemma top_call:
  assumes "contract_at (\<lambda>x. x = d) code addr A" "acc_view A s \<noteq> None" "code \<noteq> []"
    and "validate_code_ast E code = Inr True" "worker_of E code d s v p gl = Sends_return m"
  shows "internal_call E A s addr v p gl 0 True =
    finish_call True s addr v (get_account addr (add_balance addr v (acc_touch s (acc_touch addr A))))
      (settle_result gl (Got m))"
proof -
  from assms(1) obtain a where a: "acc_view A addr = Some a" "acc_code a = Some code" "acc_storage a = JObj d"
    by (auto simp: contract_at_def)
  let ?B = "add_balance addr v (acc_touch s (acc_touch addr A))"
  have "runnable E ?B addr 0 d code"
    using a assms(3,4) by (auto simp: runnable_def view_simps)
  from exec_contract_run [OF this, of s p v gl] assms(5)
  have "exec_contract E ?B addr s p v gl 0 = (get_account addr ?B, Inr (settle_result gl (Got m)))"
    by simp
  with a assms(2,3) show ?thesis
    by (auto simp: internal_call.simps [of E A s addr v p gl 0 True] acc_get_eq acc_getitem_def
        has_code_def Let_def)
qed

lemma contract_at_storage:
  assumes "contract_at I code addr A" "update_contract_storage addr (JObj d') A = Inr A'"
  shows "contract_at (\<lambda>x. x = d') code addr A'"
  using assms by (auto simp: contract_at_def update_contract_storage_def view_simps split: if_splits)

lemma kept_anyone: "contract_at I code addr A \<longleftrightarrow> kept I (\<lambda>s. True) code addr A"
  by (simp add: kept_def coded_accounts_def)

text \<open>
  The whole transaction: when the contract's function returns a storage and the gas is enough
  for the opcodes and the bytes of the storage, the receipt has status 1 and this is the new
  storage; when it raises, the receipt has status 0.
\<close>

lemma contract_call:
  assumes ok: "acc_ok (st_accounts st)"
    and run: "validate_and_apply_with_status E st tx = (st', Inr (VALID, Some r))"
    and rcv: "receiver_of tx = addr" "addr \<noteq> []" "data_bytes tx \<noteq> []" "tx_sender tx \<noteq> addr"
    and c: "contract_at (\<lambda>x. x = d) code addr (st_accounts st)" "code \<noteq> []" "validate_code_ast E code = Inr True"
    and exec: "exec_code E code d (tx_sender tx) (tx_amount tx) (JStr (data_bytes tx)) =
      run_opcodes n (code_end show_exc res)"
  shows "(\<forall>e. res = Inl e \<longrightarrow> rc_status r = 0)
    \<and> (\<forall>d' js. res = Inr d' \<longrightarrow> json_dumps (JObj d') = Some js \<longrightarrow>
        int n < tx_gas_limit tx \<longrightarrow> int n + int (length js) * GAS_PER_BYTE \<le> tx_gas_limit tx \<longrightarrow>
        0 \<le> balance_of (st_accounts st) addr \<longrightarrow>
        rc_status r = 1 \<and> contract_at (\<lambda>x. x = d') code addr (st_accounts st'))"
proof -
  from accepted [OF run] obtain B where B: "B = get_account (tx_sender tx) (st_accounts st)"
    "amounts_well_formed tx" "apply_validated_tx E B tx = (st_accounts st', Inr r)" by metis
  have okB: "acc_ok B" using ok by (simp add: B(1) keeps_ok.get_account_closed)
  obtain a where a: "acc_view B (tx_sender tx) = Some a" using get_account_Some B(1) by blast
  let ?A = "started tx B"
  have cA: "contract_at (\<lambda>x. x = d) code addr ?A"
    using c(1) unfolding kept_anyone B(1) by (intro kept_started kept_get_account)
  have sA: "acc_view ?A (tx_sender tx) \<noteq> None" using a by (simp add: started_view)
  let ?w = "worker_of E code d (tx_sender tx) (tx_amount tx) (JStr (data_bytes tx)) (tx_gas_limit tx)"
  let ?C = "get_account addr (add_balance addr (tx_amount tx) (acc_touch (tx_sender tx) (acc_touch addr ?A)))"
  let ?gl = "tx_gas_limit tx"
  note call = top_call [OF cA sA c(2,3)]
  note result = call_tx_result [OF okB a _ rcv(3) B(3)]
  show ?thesis
  proof (intro conjI allI impI)
    fix e assume e: "res = Inl e"
    with worker_run [of n show_exc res "new_meter ?gl" "[]" ?gl] exec
    obtain t g where "?w = Sends_return (Ret_error t g)" by auto
    from call [OF this] have "internal_call E ?A (tx_sender tx) addr (tx_amount tx) (JStr (data_bytes tx)) ?gl 0 True
        = (undo_value True (tx_sender tx) addr (tx_amount tx) ?C, Inr (Exec_fail t g))"
      by (simp add: finish_call_def settle_result_def)
    with result rcv(1,2) show "rc_status r = 0" by fastforce
  next
    fix d' js
    assume d': "res = Inr d'" "json_dumps (JObj d') = Some js" and gas: "int n < ?gl"
      "int n + int (length js) * GAS_PER_BYTE \<le> ?gl" and bal: "0 \<le> balance_of (st_accounts st) addr"
    have "?w = Sends_return (Ret_success (JObj d') [] (int n))"
      using worker_run_gas [of "new_meter ?gl" n show_exc d' "[]" ?gl] exec d'(1) gas(1)
      by (simp add: new_meter_def)
    from call [OF this] have i: "internal_call E ?A (tx_sender tx) addr (tx_amount tx) (JStr (data_bytes tx)) ?gl 0 True
        = finish_call True (tx_sender tx) addr (tx_amount tx) ?C
            (Exec_ok (int n + int (length js) * GAS_PER_BYTE) [] (JObj d'))"
      using d'(2) gas(2) by (simp add: settle_result_def Let_def)
    have C: "contract_at (\<lambda>x. x = d) code addr ?C"
      using cA unfolding kept_anyone by (intro kept_intros)
    have "0 \<le> balance_of ?C addr"
      using bal B(2) rcv(4) cA
      by (auto simp: balance_of_def B(1) view_simps started_def store.start_view contract_at_def
          amounts_well_formed_def empty_account_def split: option.splits if_splits)
    moreover from C obtain D where D: "update_contract_storage addr (JObj d') ?C = Inr D"
      by (auto simp: contract_at_def update_contract_storage_def acc_contains_view)
    moreover have "contract_at (\<lambda>x. x = d') code addr (add_balance addr 0 D)"
      using contract_at_storage [OF C D] unfolding kept_anyone by (rule kept_add_balance)
    ultimately obtain J where J: "finish_call True (tx_sender tx) addr (tx_amount tx) ?C
        (Exec_ok (int n + int (length js) * GAS_PER_BYTE) [] (JObj d'))
      = (J, Inr (Exec_ok (int n + int (length js) * GAS_PER_BYTE) [] (JObj d')))"
      "contract_at (\<lambda>x. x = d') code addr J"
      by (simp add: finish_call_def total_out_def)
    with i result rcv(1,2) have "rc_status r = 1" and v: "acc_view (st_accounts st') =
        acc_view (refund_gas tx (?gl - (int n + int (length js) * GAS_PER_BYTE)) J)" by fastforce+
    moreover have "contract_at (\<lambda>x. x = d') code addr (st_accounts st')"
      using J(2) unfolding kept_anyone by (subst kept_view [OF v]) (rule kept_refund)
    ultimately show "rc_status r = 1" "contract_at (\<lambda>x. x = d') code addr (st_accounts st')" by blast+
  qed
qed

subsection \<open>Laws of a contract's function\<close>

text \<open>
  A list of calls: one that raises leaves the storage as it was and gives the coins back.
\<close>

fun run_calls ::
  "(call_msg \<Rightarrow> json dict \<Rightarrow> py_exc + json dict) \<Rightarrow> call_msg list \<Rightarrow> json dict \<Rightarrow> json dict" where
  "run_calls f [] d = d"
| "run_calls f (m # ms) d = run_calls f ms (case f m d of Inl e \<Rightarrow> d | Inr d' \<Rightarrow> d')"

fun received ::
  "(call_msg \<Rightarrow> json dict \<Rightarrow> py_exc + json dict) \<Rightarrow> call_msg list \<Rightarrow> json dict \<Rightarrow> int" where
  "received f [] d = 0"
| "received f (m # ms) d =
     (case f m d of Inl e \<Rightarrow> received f ms d | Inr d' \<Rightarrow> msg_value m + received f ms d')"

locale contract_law =
  fixes f :: "call_msg \<Rightarrow> json dict \<Rightarrow> py_exc + json dict"
    and allowed :: "call_msg \<Rightarrow> bool"
    and I :: "int \<Rightarrow> json dict \<Rightarrow> bool"
  assumes fresh: "I 0 []"
    and call: "I n d \<Longrightarrow> allowed m \<Longrightarrow> f m d = Inr d' \<Longrightarrow> I (n + msg_value m) d'"
begin

lemma calls_keep:
  "list_all allowed ms \<Longrightarrow> I n d \<Longrightarrow> I (n + received f ms d) (run_calls f ms d)"
proof (induction ms arbitrary: n d)
  case (Cons m ms)
  show ?case
  proof (cases "f m d")
    case (Inr d')
    with Cons.prems have "I (n + msg_value m) d'" by (auto intro: call)
    with Cons.IH [of "n + msg_value m" d'] Cons.prems Inr show ?thesis by (simp add: add.assoc)
  qed (use Cons in simp)
qed simp

lemma calls_from_start: "list_all allowed ms \<Longrightarrow> I (received f ms []) (run_calls f ms [])"
  using calls_keep [OF _ fresh] by simp

end

locale ledger_law = contract_law +
  fixes S :: "string \<Rightarrow> bool"
  assumes caller: "S (msg_sender m) \<Longrightarrow> allowed m"
    and coins: "I n d \<Longrightarrow> I n' d"
begin

lemma behaves_keeps: "behaves_as E show_exc code f \<Longrightarrow> code_keeps E code (I 0) S"
  by (rule code_keepsI) (auto intro: coins call caller)

lemma on_ledger:
  assumes "ledger_steps E st st'" "behaves_as E show_exc code f" "code \<noteq> []" "addresses_are S E"
    and "acc_ok (st_accounts st)" "coded_accounts S (st_accounts st)"
    and "deployed_at code addr (st_accounts st)"
  shows "contract_at (I 0) code addr (st_accounts st')"
  using ledger_keeps [OF assms(1) behaves_keeps [OF assms(2)] assms(3,4,5)
      deployed_kept [OF assms(7,6), of "I 0", OF fresh]]
  by (simp add: kept_def)

end

end
