(* ===== verification/ExampleLaws.thy ===== *)
theory ExampleLaws
  imports ExampleRuns
begin

section \<open>Laws of the example contracts\<close>

text \<open>
  The storage of a contract as a map from names to integers, what the operations of a token do
  to sums over it, and the laws of the four contracts as instances of \<open>contract_law\<close> and
  \<open>ledger_law\<close>, for any set of builtins.
\<close>

subsection \<open>Storage of integers\<close>

definition ints :: "json dict \<Rightarrow> bool" where
  "ints d \<longleftrightarrow> (\<forall>k v. dict_get d k = Some v \<longrightarrow> (\<exists>i. v = JInt i))"

definition val :: "json dict \<Rightarrow> string \<Rightarrow> int" where
  "val d k = (case dict_get d k of Some (JInt i) \<Rightarrow> i | _ \<Rightarrow> 0)"

text \<open>The sum over the keys with a property.\<close>

definition held :: "(string \<Rightarrow> bool) \<Rightarrow> json dict \<Rightarrow> int" where
  "held H d = (\<Sum>k \<in> {k \<in> fst ` set d. H k}. val d k)"

lemma ints_nil [simp]: "ints []"
  by (simp add: ints_def)

lemma ints_set [simp]: "ints d \<Longrightarrow> ints (dict_set k (JInt i) d)"
  by (auto simp: ints_def)

lemma val_nil [simp]: "val [] k = 0"
  by (simp add: val_def)

lemma val_set [simp]: "val (dict_set k (JInt i) d) x = (if x = k then i else val d x)"
  by (simp add: val_def)

lemma val_absent: "k \<notin> fst ` set d \<Longrightarrow> val d k = 0"
  by (simp add: val_def map_of_eq_None_iff [THEN iffD2])

lemma ints_cases: "ints d \<Longrightarrow> dict_get d k = None \<and> val d k = 0 \<or> dict_get d k = Some (JInt (val d k))"
  unfolding ints_def val_def by (cases "dict_get d k") (auto, fastforce)

lemma held_nil [simp]: "held H [] = 0"
  by (simp add: held_def)

lemma held_set [simp]:
  "held H (dict_set k (JInt i) d) = held H d + (if H k then i - val d k else 0)"
proof -
  let ?K = "{x \<in> fst ` set d. H x}"
  have dom: "fst ` set (dict_set k (JInt i) d) = insert k (fst ` set d)"
    using dict_keys_set [of k "JInt i" d] by simp
  show ?thesis
  proof (cases "H k")
    case False
    then have "{x \<in> insert k (fst ` set d). H x} = ?K" "k \<notin> ?K" by auto
    with False show ?thesis unfolding held_def dom by (auto intro!: sum.cong)
  next
    case True
    have absent: "k \<notin> ?K \<Longrightarrow> val d k = 0"
      using True by (auto intro: val_absent)
    have "held H (dict_set k (JInt i) d) = i + (\<Sum>x \<in> ?K - {k}. val d x)"
    proof -
      have "{x \<in> insert k (fst ` set d). H x} = insert k (?K - {k})" using True by auto
      then show ?thesis unfolding held_def dom by (simp add: sum.insert_remove)
    qed
    moreover have "held H d = val d k + (\<Sum>x \<in> ?K - {k}. val d x)"
      using absent by (cases "k \<in> ?K") (simp_all add: held_def sum.remove)
    ultimately show ?thesis using True by simp
  qed
qed

lemma held_nonneg: "(\<And>k. H k \<Longrightarrow> 0 \<le> val d k) \<Longrightarrow> 0 \<le> held H d"
  by (auto simp: held_def intro: sum_nonneg)

lemma held_member: "(\<And>k. H k \<Longrightarrow> 0 \<le> val d k) \<Longrightarrow> H x \<Longrightarrow> val d x \<le> held H d"
proof (cases "x \<in> fst ` set d")
  case True
  assume "\<And>k. H k \<Longrightarrow> 0 \<le> val d k" "H x"
  with True show ?thesis unfolding held_def by (intro member_le_sum) auto
next
  case False
  assume nn: "\<And>k. H k \<Longrightarrow> 0 \<le> val d k"
  from False have "val d x = 0" by (rule val_absent)
  with held_nonneg [of H d] nn show ?thesis by simp
qed

subsection \<open>The steps of the contracts on such a storage\<close>

lemma and_then_Inr: "and_then r k = Inr y \<longleftrightarrow> (\<exists>x. r = Inr x \<and> k x = Inr y)"
  by (cases r) auto

lemma raise_exc_Inr [simp]: "raise_exc bs t \<noteq> Inr x"
  by (simp add: raise_exc_def)

lemma num_default: "ints d \<Longrightarrow> num (get_default d k (JInt 0)) = Inr (val d k)"
  using ints_cases [of d k] by (auto simp: get_default_def)

lemma item_num: "ints d \<Longrightarrow> and_then (get_item d k) num = Inr i \<longleftrightarrow> dict_get d k \<noteq> None \<and> i = val d k"
  using ints_cases [of d k] by (auto simp: get_item_def)

lemma credit_ints: "ints d \<Longrightarrow> credit k n d = Inr (dict_set k (JInt (val d k + n)) d)"
  by (simp add: credit_def num_default)

lemma debit_ints:
  "ints d \<Longrightarrow> debit k n d = Inr d' \<longleftrightarrow> dict_get d k \<noteq> None \<and> d' = dict_set k (JInt (val d k - n)) d"
  using ints_cases [of d k] by (auto simp: debit_def get_item_def)

lemma floor_div_Inr: "floor_div a b = Inr q \<longleftrightarrow> b \<noteq> 0 \<and> q = a div b"
  by (auto simp: floor_div_def)

text \<open>The same for what follows a step.\<close>

lemma chain_item:
  "ints d \<Longrightarrow> and_then (and_then (get_item d k) num) g =
     (if dict_get d k = None then Inl (Builtin KeyError) else g (val d k))"
  using ints_cases [of d k] by (auto simp: get_item_def)

lemma chain_default: "ints d \<Longrightarrow> and_then (num (get_default d k (JInt 0))) g = g (val d k)"
  by (simp add: num_default)

lemma chain_div: "and_then (floor_div a b) g = (if b = 0 then Inl (Builtin ZeroDivisionError) else g (a div b))"
  by (simp add: floor_div_def)

lemma chain_debit:
  "ints d \<Longrightarrow> and_then (debit k n d) g =
     (if dict_get d k = None then Inl (Builtin KeyError) else g (dict_set k (JInt (val d k - n)) d))"
  using ints_cases [of d k] by (auto simp: debit_def get_item_def)

lemmas chain_simps = chain_item chain_default chain_div chain_debit

lemma int_needs_builtin: "call_int bs s = Inr i \<Longrightarrow> ''int'' \<in> set bs \<and> py_int_of_str 10 s = Some i"
  by (auto simp: call_int_def split: if_splits option.splits)

subsection \<open>counter.py\<close>

definition counter_storage :: "int option \<Rightarrow> json dict" where
  "counter_storage c = (case c of None \<Rightarrow> [] | Some i \<Rightarrow> [(''counter'', JInt i)])"

definition counter_of :: "int option \<Rightarrow> int" where
  "counter_of c = (case c of None \<Rightarrow> 0 | Some i \<Rightarrow> i)"

text \<open>The counter as a number: \<open>None\<close> is an unknown command.\<close>

definition counter_next :: "json \<Rightarrow> int \<Rightarrow> int option" where
  "counter_next cmd i =
     (if cmd = JStr ''increment'' then Some (i + 1)
      else if cmd = JStr ''decrement'' then Some (i - 1)
      else if cmd = JStr ''reset'' then Some 0 else None)"

lemma counter_step:
  "counter bs m (counter_storage c) =
     (case counter_next (msg_data m) (counter_of c) of
        None \<Rightarrow> raise_exc bs ''Unknown command. Valid commands: increment, decrement, reset''
      | Some i \<Rightarrow> Inr (counter_storage (Some i)))"
  by (cases c) (simp_all add: counter_def counter_next_def credit_def get_default_def
      counter_storage_def counter_of_def)

interpretation counter: ledger_law "counter bs" "\<lambda>m. True"
    "\<lambda>n d. \<exists>c. d = counter_storage c" "\<lambda>s. True" for bs
proof unfold_locales
  show "\<exists>c. [] = counter_storage c" by (rule exI [of _ None]) (simp add: counter_storage_def)
qed (auto simp: counter_step split: option.splits)

subsection \<open>stablecoin.py\<close>

definition is_holder :: "string \<Rightarrow> bool" where
  "is_holder k \<longleftrightarrow> k \<noteq> ''total_supply''"

definition tokens_backed :: "json dict \<Rightarrow> bool" where
  "tokens_backed d \<longleftrightarrow> ints d \<and> (\<forall>k. 0 \<le> val d k)
     \<and> held is_holder d \<le> val d ''total_supply''"

definition minted :: "string \<Rightarrow> int \<Rightarrow> json dict \<Rightarrow> json dict" where
  "minted s n d =
     (let d1 = dict_set s (JInt (val d s + n)) d
      in dict_set ''total_supply'' (JInt (val d1 ''total_supply'' + n)) d1)"

definition moved :: "string \<Rightarrow> string \<Rightarrow> int \<Rightarrow> json dict \<Rightarrow> json dict" where
  "moved s r n d =
     (let d1 = dict_set s (JInt (val d s - n)) d in dict_set r (JInt (val d1 r + n)) d1)"

lemma mint_result:
  assumes "ints d" "stablecoin_mint bs m p d = Inr d'"
  shows "\<exists>n. 0 < n \<and> d' = minted (msg_sender m) n d"
  using assms(2) unfolding stablecoin_mint_def
  by (auto simp: and_then_Inr credit_ints assms(1) minted_def Let_def not_le split: if_splits)

lemma transfer_result:
  assumes "ints d" "stablecoin_transfer bs m p d = Inr d'"
  shows "\<exists>n. 0 < n \<and> n \<le> val d (msg_sender m) \<and> d' = moved (msg_sender m) (split_colon p ! 1) n d"
  using assms(2) unfolding stablecoin_transfer_def
  by (auto simp: and_then_Inr credit_ints debit_ints num_default assms(1) moved_def Let_def not_le
      split: if_splits)

lemma stablecoin_cases:
  assumes "ints d" "stablecoin bs m d = Inr d'"
  obtains (mint) n where "0 < n" "d' = minted (msg_sender m) n d"
    | (transfer) n to where "0 < n" "n \<le> val d (msg_sender m)" "d' = moved (msg_sender m) to n d"
proof -
  from assms(2) consider p where "stablecoin_mint bs m p d = Inr d'"
    | p where "stablecoin_transfer bs m p d = Inr d'"
    by (auto simp: stablecoin_def split: json.splits if_splits)
  then show thesis using that mint_result [OF assms(1)] transfer_result [OF assms(1)] by cases blast+
qed

lemma stablecoin_backed:
  assumes inv: "tokens_backed d" and s: "is_holder (msg_sender m)" and run: "stablecoin bs m d = Inr d'"
  shows "tokens_backed d'"
proof -
  have d: "ints d" "\<And>k. 0 \<le> val d k" "held is_holder d \<le> val d ''total_supply''"
    using inv by (auto simp: tokens_backed_def)
  from d(1) run show ?thesis
  proof (cases rule: stablecoin_cases)
    case (mint n)
    with d s show ?thesis by (auto simp: tokens_backed_def is_holder_def minted_def moved_def Let_def)
  next
    case (transfer n to)
    have "0 \<le> val d to" "0 \<le> val d (msg_sender m)" by (simp_all add: d(2))
    with transfer d s show ?thesis by (auto simp: tokens_backed_def is_holder_def minted_def moved_def Let_def)
  qed
qed

interpretation stablecoin: ledger_law "stablecoin bs" "\<lambda>m. is_holder (msg_sender m)"
    "\<lambda>n. tokens_backed" is_holder for bs
  by unfold_locales (auto simp: tokens_backed_def [of "[]"] intro: stablecoin_backed)

text \<open>Without the builtin \<open>int\<close> no command goes through.\<close>

lemma stablecoin_needs_int: "''int'' \<notin> set bs \<Longrightarrow> stablecoin bs m d \<noteq> Inr d'"
  by (auto simp: stablecoin_def stablecoin_mint_def stablecoin_transfer_def and_then_Inr Let_def
      split: json.splits if_splits dest: int_needs_builtin)

lemma no_int_in_sandbox: "''int'' \<notin> set safe_builtins"
  by (simp add: safe_builtins_def)

interpretation sandboxed_stablecoin: ledger_law "stablecoin safe_builtins" "\<lambda>m. True"
    "\<lambda>n d. d = []" "\<lambda>s. True"
  by unfold_locales (simp_all add: stablecoin_needs_int no_int_in_sandbox)

subsection \<open>dex.py\<close>

text \<open>The keys of the storage: token balances under the addresses, credits, and the pool.\<close>

definition is_account :: "string \<Rightarrow> bool" where
  "is_account k \<longleftrightarrow> CHR ''_'' \<notin> set k \<and> k \<noteq> ''k''"

definition is_credit :: "string \<Rightarrow> bool" where
  "is_credit k \<longleftrightarrow> CHR ''_'' \<in> set k \<and> k \<noteq> ''native_reserve'' \<and> k \<noteq> ''token_reserve''"

lemma last_of_credit: "s @ ''_native_credit'' = t \<Longrightarrow> last t = CHR ''t''"
  by auto

lemma credit_key: "is_credit (s @ ''_native_credit'')"
  using last_of_credit [of s "''native_reserve''"] last_of_credit [of s "''token_reserve''"]
  by (auto simp: is_credit_def)

text \<open>The number in a \<open>sell\<close> command.\<close>

definition sold_amount :: "call_msg \<Rightarrow> int option" where
  "sold_amount m =
     (case msg_data m of
        JStr p \<Rightarrow> if starts_with ''sell:'' p then py_int_of_str 10 (split_colon p ! 1) else None
      | _ \<Rightarrow> None)"

definition fair_call :: "call_msg \<Rightarrow> bool" where
  "fair_call m \<longleftrightarrow> is_account (msg_sender m) \<and> 0 \<le> msg_value m
     \<and> (case sold_amount m of None \<Rightarrow> True | Some n \<Rightarrow> 0 \<le> n)"

abbreviation pool_set :: "int \<Rightarrow> int \<Rightarrow> json dict \<Rightarrow> json dict" where
  "pool_set N T d \<equiv> dict_set ''token_reserve'' (JInt T) (dict_set ''native_reserve'' (JInt N) d)"

lemma dex_buy_result:
  assumes "ints d" "dex_buy bs m d = Inr d'"
  shows "\<not> not_initialized d \<and> 0 < msg_value m
    \<and> (let N = val d ''native_reserve'' + msg_value m; T = val d ''k'' div N; d1 = pool_set N T d
       in N \<noteq> 0 \<and> T < val d ''token_reserve''
        \<and> d' = dict_set (msg_sender m) (JInt (val d1 (msg_sender m) + (val d ''token_reserve'' - T))) d1)"
  using assms(2) unfolding dex_buy_def
  by (simp add: chain_simps credit_ints assms(1) Let_def not_le del: val_set split: if_splits)

lemma dex_sell_result:
  assumes "ints d" "dex_sell bs m p d = Inr d'"
  shows "\<not> not_initialized d \<and> (\<exists>t. py_int_of_str 10 (split_colon p ! 1) = Some t
    \<and> t \<le> val d (msg_sender m)
    \<and> (let d1 = dict_set (msg_sender m) (JInt (val d (msg_sender m) - t)) d;
           T = val d1 ''token_reserve'' + t; N = val d1 ''k'' div T; d2 = pool_set N T d1;
           c = msg_sender m @ ''_native_credit''
       in T \<noteq> 0 \<and> N < val d1 ''native_reserve''
        \<and> d' = dict_set c (JInt (val d2 c + (val d1 ''native_reserve'' - N))) d2))"
proof -
  from assms(2) have "\<not> not_initialized d" by (auto simp: dex_sell_def)
  moreover from this assms(2) obtain t where "call_int bs (split_colon p ! 1) = Inr t"
    by (auto simp: dex_sell_def and_then_Inr)
  moreover from this have "py_int_of_str 10 (split_colon p ! 1) = Some t" by (simp add: int_needs_builtin)
  ultimately show ?thesis using assms(2) unfolding dex_sell_def
    by (simp add: chain_simps credit_ints assms(1) Let_def not_less not_le del: val_set split: if_splits)
qed

definition pool_ok :: "int \<Rightarrow> json dict \<Rightarrow> bool" where
  "pool_ok n d \<longleftrightarrow> ints d \<and> \<not> not_initialized d
     \<and> 0 \<le> val d ''native_reserve'' \<and> 0 \<le> val d ''token_reserve''
     \<and> val d ''native_reserve'' * val d ''token_reserve'' \<le> val d ''k''
     \<and> val d ''token_reserve'' + held is_account d = 2000
     \<and> val d ''native_reserve'' + held is_credit d \<le> n
     \<and> (\<forall>k. is_account k \<or> is_credit k \<longrightarrow> 0 \<le> val d k)"

lemma not_initialized_nil [simp]: "not_initialized []"
  by (simp add: not_initialized_def get_default_def)

lemma not_initialized_set:
  "not_initialized (dict_set x (JInt i) d) = (if x = ''k'' then False else not_initialized d)"
  by (simp add: not_initialized_def get_default_def)

lemma pool_keys [simp]:
  "is_account ''native_reserve'' = False" "is_account ''token_reserve'' = False"
  "is_account ''k'' = False" "is_credit ''k'' = False"
  "is_credit ''native_reserve'' = False" "is_credit ''token_reserve'' = False"
  by (simp_all add: is_account_def is_credit_def)

lemma account_not_credit: "is_account k \<Longrightarrow> \<not> is_credit k"
  by (simp add: is_account_def is_credit_def)

lemma div_product: "0 < b \<Longrightarrow> a div b * b \<le> (a::int)"
  using pos_mod_sign [of b a] by (simp add: minus_mod_eq_div_mult [symmetric])

lemma pool_start:
  assumes "is_account s" "0 < v" "v \<le> n"
  shows "pool_ok n (dict_set s (JInt 1000) (dict_set ''k'' (JInt (v * 1000)) (pool_set v 1000 [])))"
proof -
  have k: "s \<noteq> ''k''" "s \<noteq> ''native_reserve''" "s \<noteq> ''token_reserve''" "\<not> is_credit s"
    using assms(1) account_not_credit by (auto simp: is_account_def)
  with assms show ?thesis by (simp add: pool_ok_def not_initialized_set del: update.simps)
qed

lemma pool_product: "pool_ok n d \<Longrightarrow> 0 \<le> val d ''k''"
  by (rule order_trans [OF mult_nonneg_nonneg [of "val d ''native_reserve''" "val d ''token_reserve''"]])
     (simp_all add: pool_ok_def)

lemma pool_bought:
  assumes "pool_ok n d" "is_account s" "0 < v"
    and "N = val d ''native_reserve'' + v" "T = val d ''k'' div N" "T < val d ''token_reserve''"
  shows "pool_ok (n + v) (dict_set s (JInt (val (pool_set N T d) s + (val d ''token_reserve'' - T))) (pool_set N T d))"
proof -
  have k: "s \<noteq> ''k''" "s \<noteq> ''native_reserve''" "s \<noteq> ''token_reserve''" "\<not> is_credit s"
    using assms(2) account_not_credit by (auto simp: is_account_def)
  have "0 < N" "0 \<le> val d s" using assms by (auto simp: pool_ok_def)
  moreover from this have "0 \<le> T" "N * T \<le> val d ''k''"
    using pool_product [OF assms(1)] div_product [of N "val d ''k''"]
    by (simp_all add: assms(5) pos_imp_zdiv_nonneg_iff mult.commute)
  ultimately show ?thesis using assms(1-4,6) k
    by (simp add: pool_ok_def not_initialized_set)
qed

lemma pool_sold:
  assumes "pool_ok n d" "is_account s" "0 \<le> v" "0 \<le> t" "t \<le> val d s"
    and "d1 = dict_set s (JInt (val d s - t)) d"
    and "T = val d1 ''token_reserve'' + t" "N = val d1 ''k'' div T" "T \<noteq> 0" "N < val d1 ''native_reserve''"
    and "c = s @ ''_native_credit''"
  shows "pool_ok (n + v)
     (dict_set c (JInt (val (pool_set N T d1) c + (val d1 ''native_reserve'' - N))) (pool_set N T d1))"
proof -
  have k: "s \<noteq> ''k''" "s \<noteq> ''native_reserve''" "s \<noteq> ''token_reserve''" "\<not> is_credit s" "is_credit c"
    "c \<noteq> s" "\<not> is_account c" "c \<noteq> ''k''" "c \<noteq> ''native_reserve''" "c \<noteq> ''token_reserve''"
    using assms(2) account_not_credit credit_key [of s] assms(11)
    by (auto simp: is_account_def is_credit_def)
  have "0 < T" "0 \<le> val d c" using assms(1,4,6,7,9) k by (auto simp: pool_ok_def)
  moreover from this have "0 \<le> N" "N * T \<le> val d ''k''"
    using pool_product [OF assms(1)] div_product [of T "val d ''k''"] k
    by (simp_all add: assms(6,8) pos_imp_zdiv_nonneg_iff)
  moreover have "val d1 ''native_reserve'' = val d ''native_reserve''" "T = val d ''token_reserve'' + t"
    using assms(6,7) k by simp_all
  ultimately show ?thesis using assms(1,2,3,4,5,6,10) k
    by (simp add: pool_ok_def not_initialized_set)
qed

lemma dex_step:
  assumes inv: "d = [] \<and> 0 \<le> n \<or> pool_ok n d" and fair: "fair_call m" and run: "dex bs m d = Inr d'"
  shows "pool_ok (n + msg_value m) d'"
proof -
  have s: "is_account (msg_sender m)" "0 \<le> msg_value m" using fair by (auto simp: fair_call_def)
  from run consider "dex_init bs m d = Inr d'" | "dex_buy bs m d = Inr d'"
    | p where "msg_data m = JStr p" "starts_with ''sell:'' p" "dex_sell bs m p d = Inr d'"
    by (auto simp: dex_def split: if_splits json.splits)
  then show ?thesis
  proof cases
    case 1
    then have "not_initialized d" "0 < msg_value m"
      "d' = dict_set (msg_sender m) (JInt 1000) (dict_set ''k'' (JInt (msg_value m * 1000))
         (pool_set (msg_value m) 1000 d))"
      by (auto simp: dex_init_def split: if_splits)
    with inv s pool_start show ?thesis by (auto simp: pool_ok_def [of _ d])
  next
    case 2
    then have "\<not> not_initialized d" by (auto simp: dex_buy_def)
    with inv have "pool_ok n d" by auto
    with dex_buy_result [OF _ 2] s pool_bought [of n d] show ?thesis
      by (auto simp: pool_ok_def [of n d] Let_def)
  next
    case 3
    then have "\<not> not_initialized d" by (auto simp: dex_sell_def)
    with inv have p: "pool_ok n d" by auto
    then have "ints d" by (simp add: pool_ok_def)
    from dex_sell_result [OF this 3(3)] obtain t where t: "py_int_of_str 10 (split_colon p ! 1) = Some t"
      "t \<le> val d (msg_sender m)" "let d1 = dict_set (msg_sender m) (JInt (val d (msg_sender m) - t)) d;
           T = val d1 ''token_reserve'' + t; N = val d1 ''k'' div T; d2 = pool_set N T d1;
           c = msg_sender m @ ''_native_credit''
       in T \<noteq> 0 \<and> N < val d1 ''native_reserve''
        \<and> d' = dict_set c (JInt (val d2 c + (val d1 ''native_reserve'' - N))) d2" by blast
    from t(1) 3(1,2) fair have "0 \<le> t" by (simp add: fair_call_def sold_amount_def)
    from t(3) show ?thesis
      unfolding Let_def using pool_sold [OF p s \<open>0 \<le> t\<close> t(2) refl refl refl _ _ refl] by blast
  qed
qed

interpretation dex: contract_law "dex bs" fair_call "\<lambda>n d. d = [] \<and> 0 \<le> n \<or> pool_ok n d" for bs
  by unfold_locales (simp, blast intro: dex_step)

subsection \<open>user_profile.py\<close>

text \<open>
  A command for a profile without the word that selects the paradigm: whether it sets the
  profile or updates the age, and the text after the first colon.
\<close>

record profile_cmd =
  pc_user :: string
  pc_new :: bool
  pc_args :: string

definition grouped_msg :: "profile_cmd \<Rightarrow> call_msg" where
  "grouped_msg c = \<lparr>msg_sender = pc_user c, msg_value = 0, msg_data =
     JStr ((if pc_new c then ''set_grouped:'' else ''update_age_grouped:'') @ pc_args c)\<rparr>"

definition composite_msg :: "profile_cmd \<Rightarrow> call_msg" where
  "composite_msg c = \<lparr>msg_sender = pc_user c, msg_value = 0, msg_data =
     JStr ((if pc_new c then ''set_composite:'' else ''update_age_composite:'') @ pc_args c)\<rparr>"

text \<open>The profile of a user in each paradigm: age and name.\<close>

definition age_key :: "string \<Rightarrow> string" where
  "age_key u = ''age:'' @ u"

definition name_key :: "string \<Rightarrow> string" where
  "name_key u = ''name:'' @ u"

definition grouped_profile :: "json dict \<Rightarrow> string \<Rightarrow> (json option \<times> json option) option" where
  "grouped_profile d u =
     (case dict_get d u of Some (JObj p) \<Rightarrow> Some (dict_get p ''age'', dict_get p ''name'') | _ \<Rightarrow> None)"

definition composite_profile :: "json dict \<Rightarrow> string \<Rightarrow> (json option \<times> json option) option" where
  "composite_profile d u =
     (case dict_get d (age_key u) of None \<Rightarrow> None | Some a \<Rightarrow> Some (Some a, dict_get d (name_key u)))"

definition is_user :: "string \<Rightarrow> bool" where
  "is_user u \<longleftrightarrow> CHR '':'' \<notin> set u"

lemma profile_keys [simp]:
  "age_key u = age_key v \<longleftrightarrow> u = v" "name_key u = name_key v \<longleftrightarrow> u = v"
  "age_key u \<noteq> name_key v" "name_key v \<noteq> age_key u"
  by (simp_all add: age_key_def name_key_def)

lemma user_not_key [simp]:
  "is_user u \<Longrightarrow> u \<noteq> age_key v" "is_user u \<Longrightarrow> u \<noteq> name_key v"
  "is_user u \<Longrightarrow> age_key v \<noteq> u" "is_user u \<Longrightarrow> name_key v \<noteq> u"
  by (auto simp: is_user_def age_key_def name_key_def)

text \<open>Both storages hold the same profile of every user.\<close>

definition same_profile :: "json option \<Rightarrow> json option \<Rightarrow> json option \<Rightarrow> bool" where
  "same_profile profile age name \<longleftrightarrow> profile = None \<and> age = None
     \<or> (\<exists>a n. profile = Some (JObj [(''age'', a), (''name'', n)]) \<and> age = Some a \<and> name = Some n)"

definition same_profiles :: "json dict \<Rightarrow> json dict \<Rightarrow> bool" where
  "same_profiles g c \<longleftrightarrow> (\<forall>u. is_user u \<longrightarrow>
     same_profile (dict_get g u) (dict_get c (age_key u)) (dict_get c (name_key u)))"

lemma same_profiles_eq: "same_profiles g c \<Longrightarrow> is_user u \<Longrightarrow> grouped_profile g u = composite_profile c u"
  by (auto simp: same_profiles_def same_profile_def grouped_profile_def composite_profile_def)

lemma split_prefix:
  "CHR '':'' \<notin> set p \<Longrightarrow> split_colon (p @ CHR '':'' # s) = p # split_colon s"
  by (induction p) auto

lemma starts_with_append: "starts_with p (p @ s)"
  by (simp add: starts_with_def)

lemma grouped_run:
  "user_profile bs (grouped_msg c) d =
     (if pc_new c then profile_set_grouped bs (pc_user c) (''set_grouped:'' @ pc_args c) d
      else profile_update_grouped bs (pc_user c) (''update_age_grouped:'' @ pc_args c) d)"
  by (simp add: user_profile_def grouped_msg_def starts_with_def)

lemma composite_run:
  "user_profile bs (composite_msg c) d =
     (if pc_new c then profile_set_composite bs (pc_user c) (''set_composite:'' @ pc_args c) d
      else profile_update_composite bs (pc_user c) (''update_age_composite:'' @ pc_args c) d)"
  by (simp add: user_profile_def composite_msg_def starts_with_def)

text \<open>The commands as one function of the arguments: \<open>None\<close> when it raises before it looks at
  the storage.\<close>

definition new_profile :: "string list \<Rightarrow> string \<Rightarrow> (int \<times> string) option" where
  "new_profile bs s =
     (let ps = split_colon s in
      if length ps \<noteq> 2 then None
      else case call_int bs (ps ! 0) of Inl e \<Rightarrow> None | Inr i \<Rightarrow> Some (i, ps ! 1))"

definition new_age :: "string list \<Rightarrow> string \<Rightarrow> int option" where
  "new_age bs s =
     (let ps = split_colon s in
      if length ps \<noteq> 1 then None
      else case call_int bs (ps ! 0) of Inl e \<Rightarrow> None | Inr i \<Rightarrow> Some i)"

definition after :: "json dict \<Rightarrow> py_exc + json dict \<Rightarrow> json dict" where
  "after d r = (case r of Inl e \<Rightarrow> d | Inr d' \<Rightarrow> d')"

lemma set_grouped_after:
  "after d (profile_set_grouped bs u (''set_grouped:'' @ s) d) =
     (case new_profile bs s of None \<Rightarrow> d
        | Some (i, n) \<Rightarrow> dict_set u (JObj [(''age'', JInt i), (''name'', JStr n)]) d)"
  using split_prefix [of "''set_grouped''" s]
  by (auto simp: profile_set_grouped_def new_profile_def after_def raise_exc_def Let_def
      nth_Cons' split: sum.splits)

lemma set_composite_after:
  "after d (profile_set_composite bs u (''set_composite:'' @ s) d) =
     (case new_profile bs s of None \<Rightarrow> d
        | Some (i, n) \<Rightarrow> dict_set (name_key u) (JStr n) (dict_set (age_key u) (JInt i) d))"
  using split_prefix [of "''set_composite''" s]
  by (auto simp: age_key_def name_key_def profile_set_composite_def new_profile_def after_def raise_exc_def Let_def
      nth_Cons' split: sum.splits)

lemma update_grouped_after:
  assumes "same_profiles d c" "is_user u"
  shows "after d (profile_update_grouped bs u (''update_age_grouped:'' @ s) d) =
     (case (new_age bs s, dict_get d u) of
        (Some i, Some (JObj p)) \<Rightarrow> dict_set u (JObj (dict_set ''age'' (JInt i) p)) d | _ \<Rightarrow> d)"
proof -
  from assms consider "dict_get d u = None" | a n where "dict_get d u = Some (JObj [(''age'', a), (''name'', n)])"
    by (auto simp: same_profiles_def same_profile_def)
  then show ?thesis
    using split_prefix [of "''update_age_grouped''" s]
    by cases (auto simp: profile_update_grouped_def new_age_def after_def raise_exc_def Let_def
        get_default_def set_age_def nth_Cons' split: sum.splits)
qed

lemma update_composite_after:
  "after d (profile_update_composite bs u (''update_age_composite:'' @ s) d) =
     (case (new_age bs s, dict_get d (age_key u)) of
        (Some i, Some a) \<Rightarrow> dict_set (age_key u) (JInt i) d | _ \<Rightarrow> d)"
  using split_prefix [of "''update_age_composite''" s]
  by (auto simp: age_key_def profile_update_composite_def new_age_def after_def raise_exc_def Let_def
      nth_Cons' split: sum.splits option.splits)

text \<open>Equal profiles after equal changes.\<close>

lemma same_profiles_set:
  "same_profiles g c \<Longrightarrow> is_user u \<Longrightarrow> same_profiles
     (dict_set u (JObj [(''age'', a), (''name'', n)]) g) (dict_set (name_key u) n (dict_set (age_key u) a c))"
  by (auto simp: same_profiles_def same_profile_def)

lemma same_profiles_age:
  "same_profiles g c \<Longrightarrow> is_user u \<Longrightarrow> dict_get g u = Some (JObj [(''age'', b), (''name'', n)]) \<Longrightarrow>
   same_profiles (dict_set u (JObj [(''age'', a), (''name'', n)]) g) (dict_set (age_key u) a c)"
  by (auto simp: same_profiles_def same_profile_def)

lemma same_profiles_present:
  assumes "same_profiles g c" "is_user u"
  shows "(dict_get g u = None \<and> dict_get c (age_key u) = None)
    \<or> (\<exists>a n. dict_get g u = Some (JObj [(''age'', a), (''name'', n)]) \<and> dict_get c (age_key u) = Some a)"
  using assms by (auto simp: same_profiles_def same_profile_def)

lemma grouped_set_run:
  "pc_new m \<Longrightarrow> after d (user_profile bs (grouped_msg m) d) =
     (case new_profile bs (pc_args m) of None \<Rightarrow> d
        | Some (i, n) \<Rightarrow> dict_set (pc_user m) (JObj [(''age'', JInt i), (''name'', JStr n)]) d)"
  by (simp only: grouped_run if_True set_grouped_after)

lemma composite_set_run:
  "pc_new m \<Longrightarrow> after d (user_profile bs (composite_msg m) d) =
     (case new_profile bs (pc_args m) of None \<Rightarrow> d
        | Some (i, n) \<Rightarrow> dict_set (name_key (pc_user m)) (JStr n) (dict_set (age_key (pc_user m)) (JInt i) d))"
  by (simp only: composite_run if_True set_composite_after)

lemma grouped_update_run:
  "\<not> pc_new m \<Longrightarrow> same_profiles d c \<Longrightarrow> is_user (pc_user m) \<Longrightarrow>
   after d (user_profile bs (grouped_msg m) d) =
     (case (new_age bs (pc_args m), dict_get d (pc_user m)) of
        (Some i, Some (JObj p)) \<Rightarrow> dict_set (pc_user m) (JObj (dict_set ''age'' (JInt i) p)) d | _ \<Rightarrow> d)"
  by (simp only: grouped_run if_False update_grouped_after)

lemma composite_update_run:
  "\<not> pc_new m \<Longrightarrow> after d (user_profile bs (composite_msg m) d) =
     (case (new_age bs (pc_args m), dict_get d (age_key (pc_user m))) of
        (Some i, Some a) \<Rightarrow> dict_set (age_key (pc_user m)) (JInt i) d | _ \<Rightarrow> d)"
  by (simp only: composite_run if_False update_composite_after)

lemma profile_step:
  assumes "same_profiles g c" "is_user (pc_user m)"
  shows "same_profiles (after g (user_profile bs (grouped_msg m) g))
           (after c (user_profile bs (composite_msg m) c))"
proof (cases "pc_new m")
  case True
  with assms same_profiles_set [OF assms] show ?thesis
    by (auto simp: grouped_set_run composite_set_run split: option.splits)
next
  case False
  with same_profiles_present [OF assms] same_profiles_age [OF assms] assms show ?thesis
    by (auto simp: grouped_update_run [OF _ assms] composite_update_run split: option.splits)
qed

lemma run_calls_after: "run_calls f (m # ms) d = run_calls f ms (after d (f m d))"
  by (simp add: after_def)

lemma profile_simulation:
  "list_all (\<lambda>m. is_user (pc_user m)) cmds \<Longrightarrow> same_profiles g c \<Longrightarrow>
   same_profiles (run_calls (user_profile bs) (map grouped_msg cmds) g)
     (run_calls (user_profile bs) (map composite_msg cmds) c)"
  by (induction cmds arbitrary: g c) (auto simp: run_calls_after profile_step simp del: run_calls.simps(2))

lemma same_profiles_start: "same_profiles [] []"
  by (simp add: same_profiles_def same_profile_def)

text \<open>A call concerns its sender only.\<close>

lemma profile_frame:
  assumes "is_user u" "u \<noteq> msg_sender m" "is_user (msg_sender m)" "user_profile bs m d = Inr d'"
  shows "grouped_profile d' u = grouped_profile d u \<and> composite_profile d' u = composite_profile d u"
proof -
  from assms(4) obtain p where
    "profile_set_grouped bs (msg_sender m) p d = Inr d' \<or> profile_update_grouped bs (msg_sender m) p d = Inr d'
     \<or> profile_set_composite bs (msg_sender m) p d = Inr d' \<or> profile_update_composite bs (msg_sender m) p d = Inr d'"
    by (auto simp: user_profile_def split: json.splits if_splits)
  then have "\<exists>v w. d' = dict_set (msg_sender m) v d
      \<or> d' = dict_set (name_key (msg_sender m)) w (dict_set (age_key (msg_sender m)) v d)
      \<or> d' = dict_set (age_key (msg_sender m)) v d"
    by (auto simp: profile_set_grouped_def profile_update_grouped_def profile_set_composite_def
        profile_update_composite_def age_key_def name_key_def and_then_Inr Let_def split: if_splits)
  then show ?thesis using assms(1,2,3) by (auto simp: grouped_profile_def composite_profile_def cong: option.case_cong)
qed

end
