(* ===== verification/ExampleGuarantees.thy ===== *)
theory ExampleGuarantees
  imports ExampleLaws
begin

section \<open>What the example contracts do on the ledger\<close>

text \<open>
  The contracts of examples/*.py as deployed code: which of them can run in the sandbox at all,
  what a call of the counter does, that the tokens of the stablecoin are backed, and what the
  exchange and the profiles guarantee as programs, apart from the sandbox that refuses them.
\<close>

subsection \<open>A concrete ledger with the contracts\<close>

text \<open>The instance of the parameters for the theorems at work: the code text is the name of the
  contract, a run takes five opcodes.\<close>

definition example_run ::
  "string list \<Rightarrow> string \<Rightarrow> call_msg \<Rightarrow> json dict \<Rightarrow> py_exc + json dict" where
  "example_run bs code =
     (if code = ''counter'' then counter bs else if code = ''stablecoin'' then stablecoin bs else dex bs)"

definition example_ext :: "string list \<Rightarrow> ext" where
  "example_ext bs = demo_ext
     \<lparr>ed25519_verify := (\<lambda>vk m s. vk \<noteq> ''total_supply'' \<and> s = demo_sig vk m),
      ast_parse := (\<lambda>code. if code = ''counter'' then Inr counter_ast
         else if code = ''stablecoin'' then Inr stablecoin_ast
         else if code = ''dex'' then Inr dex_ast else Inl Syntax_error),
      exec_code := (\<lambda>code sto s v p. run_opcodes 5 (code_end (\<lambda>e. ''exception'')
         (example_run bs code \<lparr>msg_sender = s, msg_value = v, msg_data = p\<rparr> sto)))\<rparr>"

definition full_builtins :: "string list" where
  "full_builtins = ''int'' # safe_builtins"

definition example_state :: state where
  "example_state = \<lparr>st_accounts = Plain
     [(''aa'', demo_account 5000 None), (''bb'', demo_account 0 (Some ''stablecoin'')),
      (''cc'', demo_account 0 (Some ''counter'')), (''dd'', demo_account 0 (Some ''dex''))],
     st_chain_id = ''main''\<rparr>"

definition example_tx :: "string \<Rightarrow> int \<Rightarrow> string \<Rightarrow> transaction" where
  "example_tx rcv n d = demo_tx (Some rcv) 0 n 2000 1 (Some d)"

lemma example_behaves:
  "behaves_as (example_ext bs) (\<lambda>e. ''exception'') code (example_run bs code)"
  unfolding behaves_as_def by (auto simp: example_ext_def)

lemma example_state_ok: "acc_ok (st_accounts example_state)"
  by (simp add: example_state_def)

lemma example_addresses: "addresses_are is_holder (example_ext bs)"
proof -
  have e_short: "(40::nat) \<le> 64" by simp
  have "length (replicate 40 (CHR ''e'')) \<noteq> length ''total_supply''"
    by simp
  then have "take 40 (replicate 64 (CHR ''e'')) \<noteq> ''total_supply''"
    by (metis take_replicate min.absorb1 e_short)
  then show ?thesis
    by (simp add: addresses_are_def example_ext_def demo_ext_def is_holder_def del: take_replicate)
qed

lemma example_coded: "coded_accounts is_holder (st_accounts example_state)"
  by (simp add: coded_accounts_def example_state_def demo_account_def is_holder_def has_code_def)

text \<open>The state after some transactions, when all of them return.\<close>

fun example_txs :: "string list \<Rightarrow> transaction list \<Rightarrow> state \<Rightarrow> state option" where
  "example_txs bs [] st = Some st"
| "example_txs bs (t # ts) st =
     (case validate_and_apply_with_status (example_ext bs) st t of
        (st', Inl e) \<Rightarrow> None | (st', Inr r) \<Rightarrow> example_txs bs ts st')"

lemma example_txs_steps:
  "example_txs bs ts st = Some st' \<Longrightarrow> ledger_steps (example_ext bs) st0 st \<Longrightarrow>
   ledger_steps (example_ext bs) st0 st'"
  by (induction ts arbitrary: st)
     (auto split: prod.splits sum.splits intro: ledger_steps.transaction)

definition storage_at :: "string \<Rightarrow> state \<Rightarrow> json option" where
  "storage_at addr st = map_option acc_storage (acc_view (st_accounts st) addr)"

subsection \<open>Three of the four contracts cannot work\<close>

text \<open>C26: Three of the four example contracts never work on this chain. The exchange and the
  profiles contain products and formatted strings, which the static check rejects; the
  stablecoin passes it but calls \<open>int\<close>, which the sandbox does not offer. Whatever transactions
  and rewards follow their deployment, their storage stays empty.\<close>

theorem examples_unusable:
  assumes "ledger_steps E st st'" "acc_ok (st_accounts st)"
    and "deployed_at code addr (st_accounts st)" "code \<noteq> []"
    and "ast_parse E code = Inr dex_ast \<or> ast_parse E code = Inr user_profile_ast
      \<or> behaves_as E show_exc code (stablecoin safe_builtins)"
  shows "deployed_at code addr (st_accounts st')"
proof -
  have all: "addresses_are (\<lambda>s. True) E" "coded_accounts (\<lambda>s. True) (st_accounts st)"
    by (simp_all add: addresses_are_def coded_accounts_def)
  have "code_keeps E code (\<lambda>d. d = []) (\<lambda>s. True)"
    using assms(5) rejected_code_keeps [of E code] sandboxed_stablecoin.behaves_keeps [of E show_exc code]
    by (auto simp: validate_code_ast_tree dex_rejected user_profile_rejected)
  from ledger_keeps [OF assms(1) this assms(4) all(1) assms(2) deployed_kept [OF assms(3) all(2) refl]]
  show ?thesis by (auto simp: kept_def contract_at_def deployed_at_def)
qed

theorem examples_unusable_witness:
  "\<exists>st. example_txs safe_builtins [example_tx ''bb'' 0 ''mint:5''] example_state = Some st
     \<and> deployed_at ''stablecoin'' ''bb'' (st_accounts st) \<and> deployed_at ''dex'' ''dd'' (st_accounts st)
     \<and> nonce_of (st_accounts st) ''aa'' = 1"
proof -
  let ?run = "example_txs safe_builtins [example_tx ''bb'' 0 ''mint:5''] example_state"
  have "map_option (\<lambda>st. nonce_of (st_accounts st) ''aa'') ?run = Some 1" by code_simp
  then obtain st where st: "?run = Some st" "nonce_of (st_accounts st) ''aa'' = 1" by auto
  note steps = example_txs_steps [OF st(1) ledger_steps.at_start]
  have b: "behaves_as (example_ext safe_builtins) (\<lambda>e. ''exception'') ''stablecoin'' (stablecoin safe_builtins)"
    using example_behaves [of safe_builtins "''stablecoin''"] by (simp add: example_run_def)
  have at: "deployed_at ''stablecoin'' ''bb'' (st_accounts example_state)"
    "deployed_at ''dex'' ''dd'' (st_accounts example_state)" by code_simp+
  have p: "ast_parse (example_ext safe_builtins) ''dex'' = Inr dex_ast" by (simp add: example_ext_def)
  from examples_unusable [OF steps example_state_ok at(1)] b
  have "deployed_at ''stablecoin'' ''bb'' (st_accounts st)" by blast
  moreover from examples_unusable [OF steps example_state_ok at(2)] p
  have "deployed_at ''dex'' ''dd'' (st_accounts st)" by blast
  ultimately show ?thesis using st by blast
qed

subsection \<open>The stablecoin\<close>

text \<open>C27: With \<open>int\<close> among the builtins, as the documentation of the sandbox has it, the tokens of the
  stablecoin are backed on every ledger: whatever other contracts and transactions do, no
  balance is negative and the balances together never exceed \<open>total_supply\<close>. (They can fall
  short of it: \<open>transfer:total_supply:n\<close> moves tokens into the counter itself.)\<close>

theorem stablecoin_solvent:
  assumes "ledger_steps E st st'" "acc_ok (st_accounts st)"
    and "behaves_as E show_exc code (stablecoin bs)" "code \<noteq> []"
    and "addresses_are is_holder E" "coded_accounts is_holder (st_accounts st)"
    and "deployed_at code addr (st_accounts st)"
  shows "\<exists>a d. acc_view (st_accounts st') addr = Some a \<and> acc_code a = Some code \<and> acc_storage a = JObj d
     \<and> (\<forall>k. 0 \<le> val d k) \<and> held is_holder d \<le> val d ''total_supply''"
  using stablecoin.on_ledger [OF assms(1,3,4,5,2,6,7)]
  by (auto simp: contract_at_def tokens_backed_def)

theorem stablecoin_solvent_witness:
  "\<exists>st d. example_txs full_builtins [example_tx ''bb'' 0 ''mint:50'', example_tx ''bb'' 1 ''transfer:ff:20'']
       example_state = Some st
     \<and> storage_at ''bb'' st = Some (JObj d) \<and> held is_holder d \<le> val d ''total_supply''
     \<and> d = [(''aa'', JInt 30), (''total_supply'', JInt 50), (''ff'', JInt 20)]"
proof -
  let ?run = "example_txs full_builtins [example_tx ''bb'' 0 ''mint:50'', example_tx ''bb'' 1 ''transfer:ff:20'']
    example_state"
  have "map_option (storage_at ''bb'') ?run
      = Some (Some (JObj [(''aa'', JInt 30), (''total_supply'', JInt 50), (''ff'', JInt 20)]))" by code_simp
  then obtain st where st: "?run = Some st"
    "storage_at ''bb'' st = Some (JObj [(''aa'', JInt 30), (''total_supply'', JInt 50), (''ff'', JInt 20)])"
    by auto
  have b: "behaves_as (example_ext full_builtins) (\<lambda>e. ''exception'') ''stablecoin'' (stablecoin full_builtins)"
    using example_behaves [of full_builtins "''stablecoin''"] by (simp add: example_run_def)
  have at: "deployed_at ''stablecoin'' ''bb'' (st_accounts example_state)" by code_simp
  from stablecoin_solvent [OF example_txs_steps [OF st(1) ledger_steps.at_start] example_state_ok b _
      example_addresses example_coded at] st
  show ?thesis by (auto simp: storage_at_def)
qed

subsection \<open>The counter\<close>

lemma counter_dumps:
  "json_dumps (JObj (counter_storage (Some i))) = Some (''{\"counter\": '' @ py_str_int i @ ''}'')"
proof -
  have "quote_str True ''counter'' = ''\"counter\"''" by code_simp
  then show ?thesis by (simp add: counter_storage_def json_dumps_def default_style_def)
qed

text \<open>C25: The counter counts. A call of the deployed counter by an accepted transaction with one of
  its three commands adds one, subtracts one or goes back to zero, when the gas limit covers the
  opcodes and the bytes of the storage; then the receipt has status 1. Any other command gives
  status 0, and status 0 always means that the counter is as it was.\<close>

theorem counter_counts:
  assumes "acc_ok (st_accounts st)"
    and "validate_and_apply_with_status E st tx = (st', Inr (VALID, Some r))"
    and "tx_receiver tx = Some addr" "tx_data tx = Some cmd" "addr \<noteq> []" "cmd \<noteq> []" "tx_sender tx \<noteq> addr"
    and "contract_at (\<lambda>d. d = counter_storage c) code addr (st_accounts st)" "code \<noteq> []"
    and "ast_parse E code = Inr counter_ast"
    and "exec_code E code (counter_storage c) (tx_sender tx) (tx_amount tx) (JStr cmd) =
       run_opcodes n (code_end show_exc (counter bs
         \<lparr>msg_sender = tx_sender tx, msg_value = tx_amount tx, msg_data = JStr cmd\<rparr> (counter_storage c)))"
    and "0 \<le> balance_of (st_accounts st) addr"
  shows "(case counter_next (JStr cmd) (counter_of c) of
       None \<Rightarrow> rc_status r = 0
     | Some i \<Rightarrow> int n + int (length (''{\"counter\": '' @ py_str_int i @ ''}'')) * GAS_PER_BYTE \<le> tx_gas_limit tx
         \<longrightarrow> rc_status r = 1 \<and> contract_at (\<lambda>d. d = counter_storage (Some i)) code addr (st_accounts st'))
     \<and> (rc_status r = 0 \<longrightarrow> contract_at (\<lambda>d. d = counter_storage c) code addr (st_accounts st'))"
proof -
  have bytes: "receiver_of tx = addr" "data_bytes tx = cmd" "validate_code_ast E code = Inr True"
    using assms(3,4,10) by (simp_all add: receiver_of_def data_bytes_def validate_code_ast_tree counter_accepted)
  note call = contract_call [OF assms(1,2) bytes(1) assms(5) _ assms(7,8,9) bytes(3),
      unfolded bytes(2), OF assms(6,11)]
  have "rc_status r = 0 \<Longrightarrow> contract_at (\<lambda>d. d = counter_storage c) code addr (st_accounts st')"
    using failed_tx_view [OF assms(1,2)] assms(7,8) by (auto simp: contract_at_def)
  moreover have "rc_status r = 0" if "counter_next (JStr cmd) (counter_of c) = None"
    using call that by (auto simp: counter_step raise_exc_def split: if_splits)
  moreover have "rc_status r = 1 \<and> contract_at (\<lambda>d. d = counter_storage (Some i)) code addr (st_accounts st')"
    if "counter_next (JStr cmd) (counter_of c) = Some i"
      and g: "int n + int (length (''{\"counter\": '' @ py_str_int i @ ''}'')) * GAS_PER_BYTE \<le> tx_gas_limit tx" for i
  proof -
    have "int n < tx_gas_limit tx" using g by (simp add: GAS_PER_BYTE_def)
    then show ?thesis using call that assms(12) counter_dumps [of i] by (simp add: counter_step)
  qed
  ultimately show ?thesis by (auto split: option.splits)
qed

theorem counter_counts_witness:
  "\<exists>st. example_txs safe_builtins [example_tx ''cc'' 0 ''increment''] example_state = Some st
     \<and> storage_at ''cc'' st = Some (JObj [(''counter'', JInt 1)])"
proof -
  let ?E = "example_ext safe_builtins" and ?tx = "example_tx ''cc'' 0 ''increment''"
  have "(case validate_and_apply_with_status ?E example_state ?tx of
      (st, Inr (s, Some r)) \<Rightarrow> s = VALID | _ \<Rightarrow> False)" by code_simp
  then obtain st r where v: "validate_and_apply_with_status ?E example_state ?tx = (st, Inr (VALID, Some r))"
    by (auto split: prod.splits sum.splits option.splits)
  have f: "tx_receiver ?tx = Some ''cc''" "tx_data ?tx = Some ''increment''" "tx_sender ?tx \<noteq> ''cc''"
    "tx_gas_limit ?tx = 2000" "0 \<le> balance_of (st_accounts example_state) ''cc''"
    "contract_at (\<lambda>d. d = counter_storage None) ''counter'' ''cc'' (st_accounts example_state)"
    "(''cc'' :: string) \<noteq> []" "(''increment'' :: string) \<noteq> []" "(''counter'' :: string) \<noteq> []"
    "ast_parse ?E ''counter'' = Inr counter_ast"
    by (code_simp, code_simp, code_simp, code_simp, code_simp,
        simp add: contract_at_def example_state_def demo_account_def counter_storage_def,
        simp_all add: example_ext_def)
  have e: "exec_code ?E ''counter'' (counter_storage None) (tx_sender ?tx) (tx_amount ?tx) (JStr ''increment'') =
      run_opcodes 5 (code_end (\<lambda>e. ''exception'') (counter safe_builtins
        \<lparr>msg_sender = tx_sender ?tx, msg_value = tx_amount ?tx, msg_data = JStr ''increment''\<rparr> (counter_storage None)))"
    by (simp add: example_ext_def example_run_def)
  have "contract_at (\<lambda>d. d = counter_storage (Some 1)) ''counter'' ''cc'' (st_accounts st)"
    using counter_counts [OF example_state_ok v f(1,2,7,8,3,6,9,10) e f(5)] f(4)
    by (simp add: counter_next_def counter_of_def py_str_int_def show_base.simps GAS_PER_BYTE_def)
  with v show ?thesis
    by (auto simp: contract_at_def storage_at_def counter_storage_def)
qed

subsection \<open>The exchange\<close>

text \<open>C28: The exchange as a program. After any calls, failed ones included, that carry no negative
  value, sell no negative number of tokens and come from accounts (addresses without underscore
  that are not \<open>k\<close>, as the addresses of keys are), the storage is still empty, or both reserves
  are at least 0 and their product is at most \<open>k\<close>, pool and users together hold the 2000 tokens of the start, no balance and no credit is
  negative, and the native reserve and all credits together are covered by the coins that the
  contract has received. The conditions are needed: a nested call can carry a negative value, and
  \<open>sell\<close> takes negative numbers, and either breaks the cover.\<close>

theorem dex_covered:
  assumes "\<forall>m \<in> set ms. is_account (msg_sender m) \<and> 0 \<le> msg_value m \<and> (\<forall>t. sold_amount m = Some t \<longrightarrow> 0 \<le> t)"
    and "run_calls (dex bs) ms [] = d"
  shows "d = [] \<or> 0 \<le> val d ''native_reserve'' \<and> 0 \<le> val d ''token_reserve''
     \<and> val d ''native_reserve'' * val d ''token_reserve'' \<le> val d ''k''
     \<and> val d ''token_reserve'' + held is_account d = 2000
     \<and> val d ''native_reserve'' + held is_credit d \<le> received (dex bs) ms []
     \<and> (\<forall>k. is_account k \<or> is_credit k \<longrightarrow> 0 \<le> val d k)"
proof -
  have "list_all fair_call ms" using assms(1) by (auto simp: list_all_iff fair_call_def split: option.splits)
  from dex.calls_from_start [OF this, of bs] assms(2) show ?thesis by (auto simp: pool_ok_def)
qed

definition dex_msg :: "string \<Rightarrow> int \<Rightarrow> string \<Rightarrow> call_msg" where
  "dex_msg s v d = \<lparr>msg_sender = s, msg_value = v, msg_data = JStr d\<rparr>"

text \<open>Two users trade; the exchange ends with 13 of the 20 coins, the rest is credited.\<close>

definition dex_trades :: "call_msg list" where
  "dex_trades = [dex_msg ''aa'' 10 ''init'', dex_msg ''bb'' 10 ''buy'', dex_msg ''bb'' 0 ''sell:600'',
     dex_msg ''bb'' 0 ''sell:250'']"

definition dex_traded :: "json dict" where
  "dex_traded = run_calls (dex full_builtins) dex_trades []"

theorem dex_covered_witness:
  "dex_traded \<noteq> [] \<and> val dex_traded ''native_reserve'' = 13 \<and> val dex_traded ''bb_native_credit'' = 7
   \<and> received (dex full_builtins) dex_trades [] = 20
   \<and> val dex_traded ''token_reserve'' + held is_account dex_traded = 2000"
proof -
  have "list_all fair_call dex_trades" by code_simp
  then have f: "\<forall>m \<in> set dex_trades. is_account (msg_sender m) \<and> 0 \<le> msg_value m \<and> (\<forall>t. sold_amount m = Some t \<longrightarrow> 0 \<le> t)"
    by (fastforce simp: list_all_iff fair_call_def)
  have v: "(dex_traded \<noteq> [], val dex_traded ''native_reserve'', val dex_traded ''bb_native_credit'',
      received (dex full_builtins) dex_trades []) = (True, 13, 7, 20)" by code_simp
  from dex_covered [OF f dex_traded_def [symmetric]] v show ?thesis by simp
qed

text \<open>The exchange does not check the sign of the number in \<open>sell\<close>. The creator of a pool of 10
  coins sells minus 2000 tokens: he then holds 3000 tokens and a credit of 20 coins.\<close>

definition dex_robbed :: "json dict" where
  "dex_robbed = run_calls (dex full_builtins) [dex_msg ''aa'' 10 ''init'', dex_msg ''aa'' 0 ''sell:-2000''] []"

lemma negative_sell:
  "(val dex_robbed ''aa'', val dex_robbed ''aa_native_credit'', val dex_robbed ''native_reserve'') = (3000, 20, -10)"
  by code_simp

text \<open>Nor does the contract check the sign of the value it is sent. After \<open>init\<close> with 10 coins and a
  sale with the value -5 it has received 5 coins, and owes 10.\<close>

definition dex_short :: "call_msg list" where
  "dex_short = [dex_msg ''aa'' 10 ''init'', dex_msg ''aa'' (- 5) ''sell:500'']"

lemma negative_value:
  "(let d = run_calls (dex full_builtins) dex_short [] in
     (val d ''native_reserve'' + val d ''aa_native_credit'', received (dex full_builtins) dex_short [])) = (10, 5)"
  by code_simp

text \<open>\<open>transfer:total_supply:5\<close> moves five tokens into the counter of all tokens.\<close>

lemma transfer_into_supply:
  "run_calls (stablecoin full_builtins)
     [dex_msg ''aa'' 0 ''mint:20'', dex_msg ''aa'' 0 ''transfer:total_supply:5''] []
   = [(''aa'', JInt 15), (''total_supply'', JInt 25)]"
  by code_simp

subsection \<open>The profiles\<close>

text \<open>C29: The two paradigms of the profile contract agree. When the same commands (set a profile,
  update an age, with any text as their arguments) are sent in the words of either paradigm, then
  after all of them every user has the same profile: none in both, or the same age and name.\<close>

theorem profile_paradigms_agree:
  assumes "list_all (\<lambda>c. is_user (pc_user c)) cmds" "is_user u"
  shows "grouped_profile (run_calls (user_profile bs) (map grouped_msg cmds) []) u
     = composite_profile (run_calls (user_profile bs) (map composite_msg cmds) []) u"
  using profile_simulation [OF assms(1) same_profiles_start] assms(2) by (rule same_profiles_eq)

definition profile_cmds :: "profile_cmd list" where
  "profile_cmds =
     [\<lparr>pc_user = ''aa'', pc_new = False, pc_args = ''30''\<rparr>, \<lparr>pc_user = ''aa'', pc_new = True, pc_args = ''41:Ann''\<rparr>,
      \<lparr>pc_user = ''bb'', pc_new = True, pc_args = ''x:Bob''\<rparr>, \<lparr>pc_user = ''aa'', pc_new = False, pc_args = ''42''\<rparr>]"

theorem profile_paradigms_agree_witness:
  "composite_profile (run_calls (user_profile full_builtins) (map composite_msg profile_cmds) []) ''aa''
   = Some (Some (JInt 42), Some (JStr ''Ann''))"
proof -
  have "grouped_profile (run_calls (user_profile full_builtins) (map grouped_msg profile_cmds) []) ''aa''
      = Some (Some (JInt 42), Some (JStr ''Ann''))" by code_simp
  moreover have "list_all (\<lambda>c. is_user (pc_user c)) profile_cmds" "is_user ''aa''"
    by (simp_all add: profile_cmds_def is_user_def)
  ultimately show ?thesis using profile_paradigms_agree by metis
qed

end
