(* ===== verification/Mpt.thy ===== *)
theory Mpt
  imports State
begin

section \<open>The wrapper of the trie (mpt.py)\<close>

text \<open>
  The class \<open>Trie\<close> around the trie package: the pairs that were set, in order, stand for the
  package's trie, whose root is the parameter \<open>trie_root\<close> and whose look-up is an argument. The
  loop of \<open>State.state_root\<close> over it is the function \<open>trie_puts\<close> of the state.
\<close>

type_synonym trie = "(string \<times> string) list"

definition new_trie :: trie where
  "new_trie = []"

definition root_hash :: "'a crypto_scheme \<Rightarrow> trie \<Rightarrow> string" where
  "root_hash cr t = trie_root cr t"

text \<open>The value as \<open>HexaryTrie.get\<close> returns it; \<open>decode\<close> undoes the \<open>encode\<close> of \<open>put\<close>.\<close>

definition trie_get :: "(trie \<Rightarrow> string \<Rightarrow> string option) \<Rightarrow> string \<Rightarrow> trie \<Rightarrow> exn + string option" where
  "trie_get lookup key_hex t =
     (case fromhex key_hex of None \<Rightarrow> Inl ValueError | Some k \<Rightarrow> Inr (lookup t k))"

definition trie_put :: "string \<Rightarrow> string \<Rightarrow> trie \<Rightarrow> exn + trie" where
  "trie_put key_hex v t =
     (case fromhex key_hex of None \<Rightarrow> Inl ValueError | Some k \<Rightarrow> Inr (t @ [(k, v)]))"

text \<open>The loop of \<open>state_root\<close>.\<close>

fun put_accounts :: "(string \<times> account) list \<Rightarrow> trie \<Rightarrow> exn + trie" where
  "put_accounts [] t = Inr t"
| "put_accounts ((addr, a) # rest) t =
     (if blank_account a then put_accounts rest t
      else case json_dumps_sorted (account_json a) of
             None \<Rightarrow> Inl TypeError
           | Some v \<Rightarrow> (case trie_put addr v t of Inl e \<Rightarrow> Inl e | Inr t' \<Rightarrow> put_accounts rest t'))"

lemma put_accounts_puts:
  "put_accounts xs t = (case trie_puts xs of Inl e \<Rightarrow> Inl e | Inr ps \<Rightarrow> Inr (t @ ps))"
  by (induction xs t rule: put_accounts.induct) (auto simp: trie_put_def split: option.splits sum.splits)

lemma state_root_trie:
  "state_root cr A =
     (case put_accounts (sort_key fst (acc_items A)) new_trie of
        Inl e \<Rightarrow> Inl e | Inr t \<Rightarrow> Inr (root_hash cr t))"
  by (simp add: state_root_def put_accounts_puts new_trie_def root_hash_def split: sum.splits)

text \<open>With a look-up that finds the last value set, \<open>get\<close> returns what \<open>put\<close> stored.\<close>

lemma trie_get_put:
  assumes "\<And>t k. lookup t k = map_of (rev t) k" "trie_put key v t = Inr t'" "trie_get lookup key' t = Inr r"
  shows "trie_get lookup key' t' = Inr (if fromhex key' = fromhex key then Some v else r)"
  using assms by (auto simp: trie_put_def trie_get_def split: option.splits)

end
