(* ===== verification/Spec2Isabelle.thy ===== *)
theory Spec2Isabelle
  imports StateGuarantees ContractGuarantees RootGuarantees TxGuarantees BlockGuarantees
    PowGuarantees MempoolGuarantees ChainGuarantees StoreGuarantees PeersGuarantees StreamsGuarantees
    NodeGuarantees SyncGuarantees CliGuarantees RpcGuarantees ExampleGuarantees Mpt
begin

text \<open>
  A model of the node software of MiniChain (the Python package \<open>src/minichain\<close>) and what can be
  proved of it. MiniChain is an account based proof-of-work chain with contracts written in
  Python: users sign transactions (transaction.py), nodes collect them in a mempool
  (mempool.py), mine them into blocks (block.py, pow.py), and keep a chain of blocks with the
  state of all accounts (chain.py, state.py), which changes by transfers, deployments and
  contract calls (contract.py). Blocks commit to their transactions, to the receipts and to the
  state after them by hashes of canonical JSON (serialization.py, receipt.py, mpt.py).

  The theories, in the order of their dependence:

  \<^item> \<open>Prelude\<close>: dictionaries as association lists in insertion order, Python's indexing and
    slicing, \<open>str\<close>, \<open>hex\<close> and \<open>int(s, base)\<close>, \<open>bytes.fromhex\<close>, exceptions, and the lemmas on them.
  \<^item> \<open>Params\<close>: network_config.py, node_config.py, validators.py, and the record \<open>crypto\<close> of what
    other packages compute: SHA-256, Ed25519, the root of the Merkle Patricia trie.
  \<^item> \<open>Json\<close>, \<open>JsonInj\<close>: serialization.py with \<open>json.dumps\<close>; the canonical text determines the value
    up to the order of keys.
  \<^item> \<open>Tx\<close>, \<open>Receipt\<close>, \<open>Blocks\<close>: the data, with their dictionaries, hashes and decoders.
  \<^item> \<open>Journal\<close>: \<open>StateJournal\<close>, a stack of caches over a dictionary, as the instance of two locales,
    \<open>account_store\<close> (a map of accounts that can be read and written) and \<open>layered_store\<close> (one with
    transactions).
  \<^item> \<open>Contract\<close>: the sandbox: gas meter, worker process, message loop, the static check.
  \<^item> \<open>State\<close>, \<open>StateTx\<close>: \<open>State\<close>, with the recursion between \<open>execute_internal_call\<close> and \<open>execute\<close>,
    and the application of a transaction. \<open>StateLaws\<close> and \<open>StateProps\<close> hold the lemmas; the locales
    \<open>call_server\<close>, \<open>op_closed\<close> and \<open>access_closed\<close> say once what a property needs to survive
    every operation, whatever the contracts do. \<open>Mpt\<close>: the wrapper of the trie package, and that
    the state root is the loop over it.
  \<^item> \<open>Floats\<close>: the IEEE doubles that the code computes with (round to nearest even, no overflow).
  \<^item> \<open>Pow\<close>, \<open>Mempool\<close>, \<open>Chain\<close>, with \<open>ChainLaws\<close> and \<open>ChainInv\<close> for the lemmas on the chain.
  \<^item> \<open>Demo\<close>, \<open>ChainDemo\<close>: concrete instances of the parameters, on which witnesses are evaluated.
  \<^item> \<open>JsonParse\<close>, \<open>JsonRead\<close>: \<open>json.loads\<close>, and that it reads back what \<open>json.dumps\<close> writes.
  \<^item> \<open>Store\<close>, \<open>StoreLaws\<close>, \<open>StoreLoad\<close>: persistence.py over a model of its SQLite tables; the locale
    \<open>key_table\<close> is what the tables of peers promise; what is saved is what is loaded.
  \<^item> \<open>Peers\<close>, \<open>PeersLaws\<close>, \<open>PeersInv\<close>: the asyncio side of p2p.py: the reader of messages, the caches
    of what was seen, the scores of peers and their bans, the framing of messages on a stream. The
    locale \<open>message_handler\<close> is what the reader needs of the node's handler; what is proved of the
    reader inside it holds for every such handler.
  \<^item> \<open>Streams\<close>: the network thread of p2p.py as a step relation: streams, dials, commands.
  \<^item> \<open>Node\<close>: main.py: the miner and the handler of messages, which tie the chain, the mempool and
    the network together; \<open>Keys\<close>: the keystore and, from identity.py, the key of the node; \<open>Cli\<close>: the
    commands of the terminal, the start and the end of the node; \<open>Rpc\<close>: rpc.py.
  \<^item> \<open>NodeInv\<close>: the invariant of the node. The handler is an instance of \<open>message_handler\<close>, and the
    inductive predicate \<open>node_reach\<close> says which states a node can have: after a start, any messages,
    commands and requests in any order, and restarts. \<open>NodeDemo\<close> is a concrete node.
  \<^item> \<open>Examples\<close>, \<open>ExampleSyntax\<close>: the contracts of examples/*.py, each as a function from the builtins
    of the sandbox, the message and the storage to the new storage or an exception, and as the syntax
    tree that the static check walks. \<open>ExampleRuns\<close> says what the storage of a deployed contract keeps on
    a ledger (the relation \<open>ledger_steps\<close>: transactions and rewards in any order) when every run of its
    code keeps it; the locales \<open>contract_law\<close> and \<open>ledger_law\<close> are what has to be shown of a contract's
    function. \<open>ExampleLaws\<close> has their instances for the four contracts.
  \<^item> \<open>Exchange\<close>: the messages and the conversation between two nodes, in which one gets blocks of the
    other.
  \<^item> the theories named \<open>...Guarantees\<close> state the properties, each after a text that says it.

  Correspondence. A Python object is a record of its attributes, a method that changes it returns
  the new record, a raised exception is \<open>Inl\<close> of an \<open>exn\<close>; \<open>None\<close> is the option's. Texts are the
  lists of bytes of their UTF-8 form, integers are unbounded as in Python. The clock, random
  numbers and the callbacks are arguments. Locks make operations atomic. The parameters are
  the fields of \<open>crypto\<close> and \<open>ext\<close> (the Python interpreter that runs a contract's code, as a tree
  of the events that the sandbox sees, and the parser); no law is assumed of them but in the
  hypotheses of single properties (a hash that does not collide on the texts at hand, a key
  whose signatures verify).

  What contract code can do is a tree of events (\<open>behaviour\<close>). Two things that real code can do have
  no event of their own: to bring a float into an amount or the storage (\<open>float\<close> is among the
  builtins, and the amount of \<open>call_contract\<close> is not checked), and to get hold of the worker's frame,
  with the gas meter and the pipe (the static check lets \<open>gi_frame.f_back\<close> pass,
  \<open>frame_access_accepted\<close>). Such a run is the event \<open>Outside\<close>: the call, and the transaction it
  belongs to, ends with the error \<open>Outside_model\<close>, and no property says anything of what the code
  would do then. All other values that a contract can send as address, payload or amount are
  decoded as the code does (\<open>nested_call\<close>). The parser is a parameter too: it gives a tree,
  \<open>SyntaxError\<close>, or another exception, which leaves the check (\<open>validate_code_ast\<close>).

  Termination. All functions are total. Nested calls end because \<open>MAX_CALL_DEPTH\<close> bounds
  their depth, the Merkle loop because a level has half the length, the nonce search because of
  \<open>max_nonce\<close>, the walk over a syntax tree by its size. A contract that does not end is the event
  \<open>Stalled\<close>, which the parent's time limit turns into a failed call.

  What the properties show: coins are conserved but for gas and rewards, on every path; a transaction
  that is refused changes nothing, one that fails costs its gas only, nonces rule out a replay;
  the journal implements transactions; a block enters the chain only when its links, work,
  target, roots and receipts are right and its transactions execute with just these receipts; every chain that can arise is linked and within its
  bounds; a reorganisation happens only for more work and returns the transactions it drops;
  the search for a nonce is sound and complete; the mempool keeps every sender's order and
  its size; hashes and signatures commit to what they should; a chain in the form that nodes make is
  saved and loaded again, messages that fit in a frame arrive whatever the chunks of the stream, are
  relayed once while they are remembered, and a peer is banned at its threshold and kept out; a running node keeps its invariant whatever it is sent, accepts the blocks
  it mines, catches up with a longer chain that extends its own, and answers requests one to one; the counter
  contract counts, the tokens of the stablecoin are backed whatever other contracts do, the exchange
  never credits more than it received, both ways to store a profile agree. Others show where the code
  does not do what it is meant to: coins that a failing nested call makes, amounts whose sign
  is not checked, a state root that raises, time stamps that change when read, a Merkle tree
  with two lists for one root, a full chain that is refused, honest peers that are banned for a block
  or a transaction that does not fit yet, a search for the fork that cannot succeed, a start that is
  refused because of a table of peers, example contracts that the sandbox cannot run.

  Not modelled: floats and the worker's frame in the hands of a contract (above); libp2p (a dial, a stream and a peer identifier are arguments) with the start and the
  configuration of the host, the HTTP server around the JSON-RPC methods, printed texts and the
  parsing of the command line; floats inside JSON values (such a message or request is not
  followed), and numbers beyond the exponent range of doubles; account keys that are not texts,
  which a request can make; the operating system's limits on the worker process.
\<close>

end
